(* ===== verification/Prelude.thy ===== *)
theory Prelude
  imports Main "HOL-Library.Word" "HOL-Library.Code_Target_Numeral"
begin

text \<open>
  Shared vocabulary of the development: the widths of Rust's integers, its checked and
  saturating arithmetic, results as sums with the bind of Rust's question mark, slices that
  fail out of range, and the collections of hints the component theories fill.
\<close>

section \<open>Integer types\<close>

type_synonym u8 = "8 word"
type_synonym u16 = "16 word"
type_synonym u32 = "32 word"
type_synonym u64 = "64 word"

text \<open>
  Result codes are Rust's \<open>i32\<close>. The code only compares, prints and parses them, so they are
  mathematical integers here and the parser checks their range.
\<close>

type_synonym i32 = int

text \<open>The hosts the harness supports have 64 bit addresses.\<close>

definition usize_max :: nat where
  "usize_max = 2 ^ 64 - 1"

named_theorems code_defs \<open>the ABI's result codes, unfolded\<close>
named_theorems str_consts \<open>defining equations of fixed strings\<close>

definition checked_add :: "u32 \<Rightarrow> u32 \<Rightarrow> u32 option" where
  "checked_add a b = (if unat a + unat b < 2 ^ 32 then Some (a + b) else None)"

definition saturating_add :: "u32 \<Rightarrow> u32 \<Rightarrow> u32" where
  "saturating_add a b = (if unat a + unat b < 2 ^ 32 then a + b else 4294967295)"

definition is_multiple_of :: "u32 \<Rightarrow> u32 \<Rightarrow> bool" where
  "is_multiple_of a b = (if b = 0 then a = 0 else a mod b = 0)"

lemma unat_u32_less [simp]: "unat (x :: u32) < 4294967296"
  using unsigned_less [of x, where ?'a = nat] by simp

lemma unat_u64_less [simp]: "unat (x :: u64) < 18446744073709551616"
  using unsigned_less [of x, where ?'a = nat] by simp

lemma unat_u32_le [simp]: "unat (x :: u32) \<le> 4294967295"
  using unat_u32_less [of x] by linarith

lemma unat_u64_le [simp]: "unat (x :: u64) \<le> 18446744073709551615"
  using unat_u64_less [of x] by linarith

lemma unat_u8_less [simp]: "unat (x :: u8) < 256"
  using unsigned_less [of x, where ?'a = nat] by simp

lemma unat_u16_less [simp]: "unat (x :: u16) < 65536"
  using unsigned_less [of x, where ?'a = nat] by simp

lemma unat_add_u32: "unat a + unat b < 2 ^ 32 \<Longrightarrow> unat (a + b :: u32) = unat a + unat b"
  by (simp add: unat_word_ariths)

lemma checked_add_Some [simp]:
  "checked_add a b = Some c \<longleftrightarrow> unat a + unat b < 2 ^ 32 \<and> c = a + b"
  by (auto simp: checked_add_def)

lemma checked_add_None [simp]:
  "checked_add a b = None \<longleftrightarrow> 2 ^ 32 \<le> unat a + unat b"
  by (auto simp: checked_add_def)

lemma unat_saturating_add:
  "unat (saturating_add a b) = min (unat a + unat b) (2 ^ 32 - 1)"
by (auto simp: saturating_add_def unat_add_u32)

lemma is_multiple_of_iff: "is_multiple_of a b \<longleftrightarrow> unat b dvd unat a"
proof (cases "b = 0")
  case True
  then show ?thesis by (simp add: is_multiple_of_def unat_eq_zero)
next
  case False
  have "a mod b = 0 \<longleftrightarrow> unat (a mod b) = 0" by (simp add: unat_eq_zero)
  then show ?thesis using False by (simp add: is_multiple_of_def unat_mod mod_eq_0_iff_dvd)
qed

lemma unat_ucast_u32_u64 [simp]: "unat (ucast (x :: u32) :: u64) = unat x"
  by (simp add: unsigned_ucast_eq take_bit_nat_eq_self_iff less_trans [OF unat_u32_less])

lemma unat_ucast_u8_u16 [simp]: "unat (ucast (x :: u8) :: u16) = unat x"
  by (simp add: unsigned_ucast_eq take_bit_nat_eq_self_iff less_trans [OF unat_u8_less])

section \<open>Results\<close>

text \<open>\<open>Result<T, E>\<close> is the sum \<open>'e + 't\<close> with \<open>Inl\<close> the error.\<close>

fun result_bind :: "'e + 'a \<Rightarrow> ('a \<Rightarrow> 'e + 'b) \<Rightarrow> 'e + 'b" where
  "result_bind (Inl e) f = Inl e"
| "result_bind (Inr a) f = f a"

fun map_err :: "('e \<Rightarrow> 'f) \<Rightarrow> 'e + 'a \<Rightarrow> 'f + 'a" where
  "map_err f (Inl e) = Inl (f e)"
| "map_err f (Inr a) = Inr a"

fun ok_or :: "'e \<Rightarrow> 'a option \<Rightarrow> 'e + 'a" where
  "ok_or e None = Inl e"
| "ok_or e (Some a) = Inr a"

fun result_ok :: "'e + 'a \<Rightarrow> 'a option" where
  "result_ok (Inl e) = None"
| "result_ok (Inr a) = Some a"

fun unwrap_or :: "'a option \<Rightarrow> 'a \<Rightarrow> 'a" where
  "unwrap_or None d = d"
| "unwrap_or (Some a) d = a"

lemma result_bind_Inr:
  "result_bind r f = Inr b \<longleftrightarrow> (\<exists>a. r = Inr a \<and> f a = Inr b)"
  by (cases r) auto

lemma result_bind_Inl:
  "result_bind r f = Inl e \<longleftrightarrow> r = Inl e \<or> (\<exists>a. r = Inr a \<and> f a = Inl e)"
  by (cases r) auto

text \<open>Splitting a guarded result without keeping the guard, for long chains of tests.\<close>

lemma if_InrE: "(if b then x else y) = Inr c \<Longrightarrow> (x = Inr c \<Longrightarrow> P) \<Longrightarrow> (y = Inr c \<Longrightarrow> P) \<Longrightarrow> P"
  by (cases b) simp_all

lemma map_err_Inr [simp]: "map_err f r = Inr a \<longleftrightarrow> r = Inr a"
  by (cases r) auto

lemma ok_or_Inr [simp]: "ok_or e r = Inr a \<longleftrightarrow> r = Some a"
  by (cases r) auto

lemma ok_or_Inl [simp]: "ok_or e r = Inl e' \<longleftrightarrow> r = None \<and> e' = e"
  by (cases r) auto

lemma result_ok_Some [simp]: "result_ok r = Some a \<longleftrightarrow> r = Inr a"
  by (cases r) auto

section \<open>Slices\<close>

text \<open>
  \<open>data.get(start..end)\<close> of Rust: \<open>None\<close> unless \<open>start \<le> end \<le> len\<close>. Writing a slice back
  through the mutable borrow replaces exactly those cells.
\<close>

definition get_range :: "'a list \<Rightarrow> nat \<Rightarrow> nat \<Rightarrow> 'a list option" where
  "get_range xs s e = (if s \<le> e \<and> e \<le> length xs then Some (take (e - s) (drop s xs)) else None)"

definition put_range :: "'a list \<Rightarrow> nat \<Rightarrow> 'a list \<Rightarrow> 'a list" where
  "put_range xs s ys = take s xs @ ys @ drop (s + length ys) xs"

lemma get_range_length: "get_range xs s e = Some ys \<Longrightarrow> length ys = e - s"
  by (auto simp: get_range_def split: if_splits)

lemma length_put_range: "s + length ys \<le> length xs \<Longrightarrow> length (put_range xs s ys) = length xs"
  by (simp add: put_range_def)

lemma nth_put_range_outside:
  assumes "s + length ys \<le> length xs" and "i < s \<or> s + length ys \<le> i"
  shows "put_range xs s ys ! i = xs ! i"
proof (cases "i < s")
  case True
  then show ?thesis using assms by (simp add: put_range_def nth_append)
next
  case False
  then have i: "s + length ys \<le> i" using assms(2) by simp
  then have "\<not> i - s < length ys" by arith
  with False i show ?thesis using assms(1) by (simp add: put_range_def nth_append)
qed

lemma get_put_range:
  "s + length ys \<le> length xs \<Longrightarrow> get_range (put_range xs s ys) s (s + length ys) = Some ys"
  by (simp add: get_range_def put_range_def)

section \<open>Lists\<close>

lemma fold_add_sum_list: "fold (+) xs (a :: 'a :: comm_monoid_add) = a + sum_list xs"
  by (induction xs arbitrary: a) (simp_all add: ac_simps)

lemma filter_count_compl:
  "length xs - length (filter P xs) = length (filter (\<lambda>x. \<not> P x) xs)"
  using sum_length_filter_compl [of P xs] by simp

end
