(* ===== verification/Rust_Str.thy ===== *)
theory Rust_Str
  imports Prelude "HOL-Library.Sublist"
begin

text \<open>
  The operations of Rust's \<open>str\<close> and of its integer formatting and parsing that the harness
  uses. A Rust string is its UTF-8 encoding, so \<open>string\<close>, a list of bytes, holds the bytes of
  a \<open>str\<close> exactly as Rust stores them; where the code iterates over \<open>chars()\<close> the model cuts
  the bytes into encoded characters first (\<open>utf8_chars\<close>).
\<close>

section \<open>Special characters\<close>

abbreviation tab_char :: char where "tab_char \<equiv> CHR 0x09"
abbreviation lf_char :: char where "lf_char \<equiv> CHR 0x0A"
abbreviation cr_char :: char where "cr_char \<equiv> CHR 0x0D"
abbreviation quote_char :: char where "quote_char \<equiv> CHR 0x22"
abbreviation backslash_char :: char where "backslash_char \<equiv> CHR 0x5C"

section \<open>Bytes and characters\<close>

definition string_of_bytes :: "u8 list \<Rightarrow> string" where
  "string_of_bytes = map (\<lambda>b. char_of (unat b))"

definition bytes_of_string :: "string \<Rightarrow> u8 list" where
  "bytes_of_string = map (\<lambda>c. word_of_nat (of_char c))"

lemma string_of_bytes_Nil [simp]: "string_of_bytes [] = []"
  by (simp add: string_of_bytes_def)

lemma string_of_bytes_Cons [simp]:
  "string_of_bytes (b # bs) = char_of (unat b) # string_of_bytes bs"
  by (simp add: string_of_bytes_def)

lemma bytes_of_string_Nil [simp]: "bytes_of_string [] = []"
  by (simp add: bytes_of_string_def)

lemma bytes_of_string_Cons [simp]:
  "bytes_of_string (c # cs) = word_of_nat (of_char c) # bytes_of_string cs"
  by (simp add: bytes_of_string_def)

lemma string_bytes_string [simp]: "string_of_bytes (bytes_of_string s) = s"
  by (induction s) (simp_all add: unsigned_of_nat take_bit_nat_eq_self)

lemma bytes_string_bytes [simp]: "bytes_of_string (string_of_bytes bs) = bs"
  by (induction bs) simp_all

lemma length_string_of_bytes [simp]: "length (string_of_bytes bs) = length bs"
  by (simp add: string_of_bytes_def)

lemma length_bytes_of_string [simp]: "length (bytes_of_string s) = length s"
  by (simp add: bytes_of_string_def)

text \<open>The number of bytes of a character, read off its first byte.\<close>

definition utf8_len :: "char \<Rightarrow> nat" where
  "utf8_len c = (let n = (of_char c :: nat) in
     if n < 0x80 then 1 else if n < 0xE0 then 2 else if n < 0xF0 then 3 else 4)"

function utf8_chars :: "string \<Rightarrow> string list" where
  "utf8_chars [] = []"
| "utf8_chars (c # cs) =
     (c # take (utf8_len c - 1) cs) # utf8_chars (drop (utf8_len c - 1) cs)"
  by pat_completeness auto
termination by (relation "measure length") auto

lemma concat_utf8_chars [simp]: "concat (utf8_chars s) = s"
  by (induction s rule: utf8_chars.induct) simp_all

lemma utf8_chars_nonempty: "ch \<in> set (utf8_chars s) \<Longrightarrow> ch \<noteq> []"
  by (induction s rule: utf8_chars.induct) auto

definition is_ascii :: "string \<Rightarrow> bool" where
  "is_ascii s \<longleftrightarrow> list_all (\<lambda>c. (of_char c :: nat) < 128) s"

lemma is_ascii_simps [simp]:
  "is_ascii []"
  "is_ascii (c # cs) \<longleftrightarrow> (of_char c :: nat) < 128 \<and> is_ascii cs"
  "is_ascii (xs @ ys) \<longleftrightarrow> is_ascii xs \<and> is_ascii ys"
  by (simp_all add: is_ascii_def)

lemma utf8_chars_ascii: "is_ascii s \<Longrightarrow> utf8_chars s = map (\<lambda>c. [c]) s"
  by (induction s) (simp_all add: utf8_len_def)

text \<open>The scalar value a well-formed encoded character stands for.\<close>

fun codepoint :: "string \<Rightarrow> nat" where
  "codepoint [a] = of_char a"
| "codepoint [a, b] = (of_char a mod 32) * 64 + of_char b mod 64"
| "codepoint [a, b, c] =
     (of_char a mod 16) * 4096 + (of_char b mod 64) * 64 + of_char c mod 64"
| "codepoint [a, b, c, d] =
     (of_char a mod 8) * 262144 + (of_char b mod 64) * 4096 + (of_char c mod 64) * 64
       + of_char d mod 64"
| "codepoint _ = 0"

text \<open>\<open>char::is_whitespace\<close>: the property \<open>White_Space\<close>; \<open>char::is_control\<close>: category Cc.\<close>

definition is_whitespace :: "string \<Rightarrow> bool" where
  "is_whitespace ch = (let n = codepoint ch in
     9 \<le> n \<and> n \<le> 13 \<or> n = 32 \<or> n = 0x85 \<or> n = 0xA0 \<or> n = 0x1680 \<or>
     0x2000 \<le> n \<and> n \<le> 0x200A \<or> n = 0x2028 \<or> n = 0x2029 \<or> n = 0x202F \<or> n = 0x205F \<or>
     n = 0x3000)"

definition is_control :: "string \<Rightarrow> bool" where
  "is_control ch = (let n = codepoint ch in n < 32 \<or> 127 \<le> n \<and> n < 160)"

definition trim :: "string \<Rightarrow> string" where
  "trim s =
     concat (rev (dropWhile is_whitespace (rev (dropWhile is_whitespace (utf8_chars s)))))"

text \<open>
  \<open>std::str::from_utf8\<close>: the well-formed byte sequences of the Unicode standard (table 3-7),
  which exclude overlong forms, surrogates and values above \<open>0x10FFFF\<close>.
\<close>

definition utf8_cont :: "u8 \<Rightarrow> bool" where
  "utf8_cont b \<longleftrightarrow> 0x80 \<le> b \<and> b \<le> 0xBF"

fun valid_utf8 :: "u8 list \<Rightarrow> bool" where
  "valid_utf8 [] = True"
| "valid_utf8 (a # r) =
     (if a \<le> 0x7F then valid_utf8 r
      else if 0xC2 \<le> a \<and> a \<le> 0xDF then
        (case r of b # r' \<Rightarrow> utf8_cont b \<and> valid_utf8 r' | _ \<Rightarrow> False)
      else if 0xE0 \<le> a \<and> a \<le> 0xEF then
        (case r of b # c # r' \<Rightarrow>
           (if a = 0xE0 then 0xA0 \<le> b \<and> b \<le> 0xBF
            else if a = 0xED then 0x80 \<le> b \<and> b \<le> 0x9F else utf8_cont b) \<and>
           utf8_cont c \<and> valid_utf8 r' | _ \<Rightarrow> False)
      else if 0xF0 \<le> a \<and> a \<le> 0xF4 then
        (case r of b # c # d # r' \<Rightarrow>
           (if a = 0xF0 then 0x90 \<le> b \<and> b \<le> 0xBF
            else if a = 0xF4 then 0x80 \<le> b \<and> b \<le> 0x8F else utf8_cont b) \<and>
           utf8_cont c \<and> utf8_cont d \<and> valid_utf8 r' | _ \<Rightarrow> False)
      else False)"

definition from_utf8 :: "u8 list \<Rightarrow> string option" where
  "from_utf8 bs = (if valid_utf8 bs then Some (string_of_bytes bs) else None)"

lemma valid_utf8_ascii: "list_all (\<lambda>b. b \<le> 0x7F) bs \<Longrightarrow> valid_utf8 bs"
  by (induction bs) simp_all

section \<open>Splitting and joining\<close>

fun join :: "string \<Rightarrow> string list \<Rightarrow> string" where
  "join sep [] = []"
| "join sep [s] = s"
| "join sep (s # t # ss) = s @ sep @ join sep (t # ss)"

fun split_on :: "char \<Rightarrow> string \<Rightarrow> string list" where
  "split_on c [] = [[]]"
| "split_on c (x # xs) =
     (if x = c then [] # split_on c xs
      else (case split_on c xs of [] \<Rightarrow> [[x]] | p # ps \<Rightarrow> (x # p) # ps))"

fun split_inclusive :: "char \<Rightarrow> string \<Rightarrow> string list" where
  "split_inclusive c [] = []"
| "split_inclusive c (x # xs) =
     (if x = c then [x] # split_inclusive c xs
      else (case split_inclusive c xs of [] \<Rightarrow> [[x]] | p # ps \<Rightarrow> (x # p) # ps))"

fun split_once :: "char \<Rightarrow> string \<Rightarrow> (string \<times> string) option" where
  "split_once c [] = None"
| "split_once c (x # xs) =
     (if x = c then Some ([], xs) else map_option (\<lambda>(a, b). (x # a, b)) (split_once c xs))"

fun strip_suffix_char :: "char \<Rightarrow> string \<Rightarrow> string option" where
  "strip_suffix_char c [] = None"
| "strip_suffix_char c [x] = (if x = c then Some [] else None)"
| "strip_suffix_char c (x # y # ys) = map_option (Cons x) (strip_suffix_char c (y # ys))"

text \<open>\<open>str::lines\<close>: cut after each line feed; a cut line loses it and one carriage return.\<close>

definition strip_eol :: "string \<Rightarrow> string" where
  "strip_eol l = (case strip_suffix_char lf_char l of None \<Rightarrow> l
     | Some l' \<Rightarrow> (case strip_suffix_char cr_char l' of None \<Rightarrow> l' | Some l'' \<Rightarrow> l''))"

definition lines :: "string \<Rightarrow> string list" where
  "lines s = map strip_eol (split_inclusive lf_char s)"

definition starts_with :: "string \<Rightarrow> string \<Rightarrow> bool" where
  "starts_with p s \<longleftrightarrow> take (length p) s = p"

definition ends_with :: "string \<Rightarrow> string \<Rightarrow> bool" where
  "ends_with p s \<longleftrightarrow> length p \<le> length s \<and> drop (length s - length p) s = p"

lemma split_on_nonempty [simp]: "split_on c s \<noteq> []"
  by (induction s) (auto split: list.splits)

lemma split_on_no_sep: "p \<in> set (split_on c s) \<Longrightarrow> c \<notin> set p"
  by (induction s arbitrary: p) (auto split: if_splits list.splits)

lemma split_on_absent: "c \<notin> set s \<Longrightarrow> split_on c s = [s]"
  by (induction s) auto

lemma split_on_append_sep:
  "c \<notin> set s \<Longrightarrow> split_on c (s @ c # t) = s # split_on c t"
  by (induction s) auto

lemma split_on_sep: "split_on c (a @ c # b) = split_on c a @ split_on c b"
  by (induction a) (auto split: list.split)

lemma join_split_on: "join [c] (split_on c s) = s"
proof (induction s)
  case Nil
  then show ?case by simp
next
  case (Cons x xs)
  obtain p ps where eq: "split_on c xs = p # ps"
    by (cases "split_on c xs") auto
  then show ?case using Cons by (cases ps) auto
qed

lemma split_on_join:
  "\<lbrakk>ps \<noteq> []; \<forall>p \<in> set ps. c \<notin> set p\<rbrakk> \<Longrightarrow> split_on c (join [c] ps) = ps"
proof (induction ps rule: induct_list012)
  case (3 x y zs)
  then show ?case by (simp add: split_on_append_sep)
qed (simp_all add: split_on_absent)

lemma set_join: "set (join sep ps) \<subseteq> set sep \<union> (\<Union>p \<in> set ps. set p)"
  by (induction sep ps rule: join.induct) auto

lemma split_inclusive_line:
  "lf_char \<notin> set s \<Longrightarrow> split_inclusive lf_char (s @ lf_char # t) = (s @ [lf_char]) # split_inclusive lf_char t"
  by (induction s) auto

lemma strip_suffix_char_snoc [simp]: "strip_suffix_char c (s @ [c]) = Some s"
  by (induction c s rule: strip_suffix_char.induct) simp_all

lemma strip_suffix_char_None: "c \<notin> set s \<Longrightarrow> strip_suffix_char c s = None"
  by (induction c s rule: strip_suffix_char.induct) simp_all

lemma lines_line:
  assumes "lf_char \<notin> set s" and "cr_char \<notin> set s"
  shows "lines (s @ lf_char # t) = s # lines t"
  using assms by (simp add: lines_def split_inclusive_line strip_eol_def strip_suffix_char_None)

lemma split_inclusive_sep:
  "split_inclusive c (s @ c # t) = split_inclusive c (s @ [c]) @ split_inclusive c t"
proof (induction s)
  case (Cons a s)
  have "split_inclusive c (s @ [c]) \<noteq> []" by (cases s) (auto split: list.split)
  then show ?case using Cons by (auto split: list.split)
qed simp

lemma lines_whole:
  assumes "s = [] \<or> last s = lf_char"
  shows "lines (s @ t) = lines s @ lines t"
proof (cases s rule: rev_cases)
  case (snoc s' x)
  then show ?thesis using assms by (simp add: lines_def) (subst split_inclusive_sep, simp)
qed (simp add: lines_def)

lemma lines_Nil [simp]: "lines [] = []"
  by (simp add: lines_def)

lemma starts_with_append [simp]: "starts_with p (p @ s)"
  by (simp add: starts_with_def)

lemma starts_with_iff: "starts_with p s \<longleftrightarrow> prefix p s"
  by (auto simp: starts_with_def prefix_def) (metis append_take_drop_id)

section \<open>Numbers in decimal and hexadecimal\<close>

definition digit_char :: "nat \<Rightarrow> char" where
  "digit_char d = char_of (48 + d)"

definition digit_of :: "char \<Rightarrow> nat option" where
  "digit_of c = (let n = (of_char c :: nat) in if 48 \<le> n \<and> n \<le> 57 then Some (n - 48) else None)"

fun show_nat :: "nat \<Rightarrow> string" where
  "show_nat n = (if n < 10 then [digit_char n] else show_nat (n div 10) @ [digit_char (n mod 10)])"

declare show_nat.simps [simp del]

definition show_int :: "int \<Rightarrow> string" where
  "show_int i = (if i < 0 then CHR ''-'' # show_nat (nat (- i)) else show_nat (nat i))"

definition show_bool :: "bool \<Rightarrow> string" where
  "show_bool b = (if b then ''true'' else ''false'')"

definition hex_digit :: "nat \<Rightarrow> char" where
  "hex_digit d = (if d < 10 then char_of (48 + d) else char_of (87 + d))"

fun show_hex :: "nat \<Rightarrow> string" where
  "show_hex n = (if n < 16 then [hex_digit n] else show_hex (n div 16) @ [hex_digit (n mod 16)])"

declare show_hex.simps [simp del]

text \<open>\<open>{:08x}\<close> and \<open>{:04x}\<close>: at least that many hexadecimal digits.\<close>

definition hex_pad :: "nat \<Rightarrow> nat \<Rightarrow> string" where
  "hex_pad w n = (let h = show_hex n in replicate (w - length h) (CHR ''0'') @ h)"

abbreviation show_u32 :: "u32 \<Rightarrow> string" where "show_u32 x \<equiv> show_nat (unat x)"
abbreviation hex8 :: "u32 \<Rightarrow> string" where "hex8 x \<equiv> hex_pad 8 (unat x)"

text \<open>
  \<open>str::parse\<close> for the unsigned types and for \<open>i32\<close>: one optional sign, then decimal digits,
  the first bad digit or overflow reported.
\<close>

datatype int_error = EmptyInt | InvalidDigit | PosOverflow | NegOverflow

fun int_error_display :: "int_error \<Rightarrow> string" where
  "int_error_display EmptyInt = ''cannot parse integer from empty string''"
| "int_error_display InvalidDigit = ''invalid digit found in string''"
| "int_error_display PosOverflow = ''number too large to fit in target type''"
| "int_error_display NegOverflow = ''number too small to fit in target type''"

fun parse_digits :: "nat \<Rightarrow> nat \<Rightarrow> string \<Rightarrow> int_error + nat" where
  "parse_digits m a [] = Inr a"
| "parse_digits m a (c # cs) =
     (case digit_of c of None \<Rightarrow> Inl InvalidDigit
      | Some d \<Rightarrow> (if m < a * 10 + d then Inl PosOverflow else parse_digits m (a * 10 + d) cs))"

definition parse_uint :: "nat \<Rightarrow> string \<Rightarrow> int_error + nat" where
  "parse_uint m s = (case s of [] \<Rightarrow> Inl EmptyInt
     | c # cs \<Rightarrow> (if c = CHR ''+'' \<and> cs \<noteq> [] then parse_digits m 0 cs else parse_digits m 0 s))"

definition parse_i32 :: "string \<Rightarrow> int_error + i32" where
  "parse_i32 s = (case s of [] \<Rightarrow> Inl EmptyInt
     | c # cs \<Rightarrow>
        (if c = CHR ''-'' \<and> cs \<noteq> [] then
           (case parse_digits (2 ^ 31) 0 cs of Inr n \<Rightarrow> Inr (- int n)
            | Inl PosOverflow \<Rightarrow> Inl NegOverflow | Inl e \<Rightarrow> Inl e)
         else map_sum id int
           (parse_digits (2 ^ 31 - 1) 0 (if c = CHR ''+'' \<and> cs \<noteq> [] then cs else s))))"

definition parse_u32 :: "string \<Rightarrow> int_error + u32" where
  "parse_u32 s = map_sum id word_of_nat (parse_uint (2 ^ 32 - 1) s)"

definition parse_u64 :: "string \<Rightarrow> int_error + u64" where
  "parse_u64 s = map_sum id word_of_nat (parse_uint (2 ^ 64 - 1) s)"


lemma digit_of_digit_char [simp]: "d < 10 \<Longrightarrow> digit_of (digit_char d) = Some d"
  by (simp add: digit_of_def digit_char_def)

lemma parse_digits_append:
  "parse_digits m a (xs @ ys) = result_bind (parse_digits m a xs) (\<lambda>b. parse_digits m b ys)"
  by (induction m a xs rule: parse_digits.induct) (simp_all split: option.splits)

lemma parse_digits_show_nat: "n \<le> m \<Longrightarrow> parse_digits m 0 (show_nat n) = Inr n"
proof (induction n rule: show_nat.induct)
  case (1 n)
  show ?case
  proof (cases "n < 10")
    case True
    then show ?thesis using "1.prems" by (simp add: show_nat.simps [of n])
  next
    case False
    then have "parse_digits m 0 (show_nat (n div 10)) = Inr (n div 10)"
      using "1.IH" "1.prems" by (meson div_le_dividend le_trans)
    then show ?thesis using False "1.prems"
      by (simp add: show_nat.simps [of n] parse_digits_append)
  qed
qed

text \<open>Which bytes a number is printed with: digits, with a sign in front of a negative one.\<close>

definition is_digit :: "char \<Rightarrow> bool" where
  "is_digit c \<longleftrightarrow> digit_of c \<noteq> None"

lemma is_digit_digit_char [simp]: "d < 10 \<Longrightarrow> is_digit (digit_char d)"
  by (simp add: is_digit_def)

lemma show_nat_digits: "c \<in> set (show_nat n) \<Longrightarrow> is_digit c"
proof (induction n rule: show_nat.induct)
  case (1 n)
  then show ?case by (cases "n < 10") (auto simp: show_nat.simps [of n])
qed

lemma show_nat_nonempty [simp]: "show_nat n \<noteq> []"
  by (subst show_nat.simps) simp

lemma show_nat_not_char: "\<not> is_digit c \<Longrightarrow> c \<notin> set (show_nat n)"
  using show_nat_digits by blast

lemma not_digits [simp]:
  "\<not> is_digit tab_char" "\<not> is_digit lf_char" "\<not> is_digit cr_char"
  "\<not> is_digit (CHR ''-'')" "\<not> is_digit (CHR ''+'')" "\<not> is_digit quote_char"
  "\<not> is_digit backslash_char" "\<not> is_digit (CHR ''#'')" "\<not> is_digit (CHR '' '')"
  "\<not> is_digit (CHR ''='')"
  by (simp_all add: is_digit_def digit_of_def)

lemma show_int_not_char: "\<lbrakk>\<not> is_digit c; c \<noteq> CHR ''-''\<rbrakk> \<Longrightarrow> c \<notin> set (show_int i)"
  by (simp add: show_int_def show_nat_not_char)

lemma hd_show_nat: "is_digit (hd (show_nat n))"
  by (rule show_nat_digits [OF hd_in_set]) simp

lemma parse_uint_show_nat: "n \<le> m \<Longrightarrow> parse_uint m (show_nat n) = Inr n"
proof (cases "show_nat n")
  case (Cons c cs)
  then have "c \<noteq> CHR ''+''" using hd_show_nat [of n] by auto
  moreover assume "n \<le> m"
  ultimately show ?thesis
    using Cons parse_digits_show_nat [of n m] by (simp add: parse_uint_def)
qed simp

lemma parse_i32_show_int:
  assumes "- (2 ^ 31) \<le> i" and "i < 2 ^ 31"
  shows "parse_i32 (show_int i) = Inr i"
proof (cases "i < 0")
  case True
  then have "parse_digits (2 ^ 31) 0 (show_nat (nat (- i))) = Inr (nat (- i))"
    using assms by (intro parse_digits_show_nat) simp
  then show ?thesis using True by (simp add: parse_i32_def show_int_def)
next
  case False
  then have p: "parse_digits (2 ^ 31 - 1) 0 (show_nat (nat i)) = Inr (nat i)"
    using assms by (intro parse_digits_show_nat) simp
  obtain c cs where c: "show_nat (nat i) = c # cs" by (cases "show_nat (nat i)") auto
  then have "c \<noteq> CHR ''-''" "c \<noteq> CHR ''+''" using hd_show_nat [of "nat i"] by auto
  then show ?thesis using False c p by (simp add: parse_i32_def show_int_def)
qed

lemma show_int_nonempty [simp]: "show_int i \<noteq> []"
  by (simp add: show_int_def)

lemma parse_u32_show: "parse_u32 (show_nat (unat x)) = Inr x"
proof -
  have "unat x \<le> 2 ^ 32 - 1" by simp
  then have "parse_uint (2 ^ 32 - 1) (show_nat (unat x)) = Inr (unat x)"
    by (rule parse_uint_show_nat)
  then show ?thesis by (simp add: parse_u32_def)
qed

lemma parse_u64_show: "parse_u64 (show_nat (unat x)) = Inr x"
proof -
  have "unat x \<le> 2 ^ 64 - 1" by simp
  then have "parse_uint (2 ^ 64 - 1) (show_nat (unat x)) = Inr (unat x)"
    by (rule parse_uint_show_nat)
  then show ?thesis by (simp add: parse_u64_def)
qed

section \<open>Escapes\<close>

text \<open>
  \<open>char::escape_default\<close>: the six named escapes, printable ASCII as it is, everything else as
  \<open>\u{..}\<close> with the hexadecimal scalar value.
\<close>

definition escape_default :: "string \<Rightarrow> string" where
  "escape_default ch = (let n = codepoint ch in
     if n = 9 then [backslash_char, CHR ''t'']
     else if n = 13 then [backslash_char, CHR ''r'']
     else if n = 10 then [backslash_char, CHR ''n'']
     else if n = 39 \<or> n = 34 \<or> n = 92 then backslash_char # ch
     else if 32 \<le> n \<and> n \<le> 126 then ch
     else [backslash_char, CHR ''u'', CHR ''{''] @ show_hex n @ [CHR ''}''])"

section \<open>Well-formed strings\<close>

text \<open>
  The invariant of Rust's \<open>str\<close>: the bytes are valid UTF-8. Cutting such a string into its
  characters gives well-formed characters, and gluing well-formed characters together and
  cutting again changes nothing.
\<close>

definition is_str :: "string \<Rightarrow> bool" where
  "is_str s \<longleftrightarrow> valid_utf8 (bytes_of_string s)"

definition wf_char :: "string \<Rightarrow> bool" where
  "wf_char ch \<longleftrightarrow> ch \<noteq> [] \<and> length ch = utf8_len (hd ch) \<and>
     (ch = [hd ch] \<and> (of_char (hd ch) :: nat) < 128 \<or>
      1 < length ch \<and> list_all (\<lambda>c. 128 \<le> (of_char c :: nat)) ch)"

lemma wf_char_ascii [simp]: "wf_char [c] \<longleftrightarrow> (of_char c :: nat) < 128"
  by (auto simp: wf_char_def utf8_len_def Let_def)

lemma utf8_chars_concat: "list_all wf_char chs \<Longrightarrow> utf8_chars (concat chs) = chs"
proof (induction chs)
  case (Cons ch chs)
  then obtain c cs where ch: "ch = c # cs" and len: "length cs = utf8_len c - 1"
    by (cases ch) (auto simp: wf_char_def)
  then show ?case using Cons by simp
qed simp

lemma utf8_chars_append_chars:
  "list_all wf_char chs \<Longrightarrow> utf8_chars (concat chs @ s) = chs @ utf8_chars s"
proof (induction chs)
  case (Cons ch chs)
  then obtain c cs where ch: "ch = c # cs" and len: "length cs = utf8_len c - 1"
    by (cases ch) (auto simp: wf_char_def)
  then show ?case using Cons by simp
qed simp

text \<open>A byte string that starts with the encoding of one character: its first character is cut off.\<close>

lemma utf8_char_cut:
  assumes "length cs = utf8_len (char_of (unat a)) - 1" and "list_all (\<lambda>b. 0x80 \<le> b) cs"
    and "0xC2 \<le> a" and "list_all wf_char (utf8_chars (string_of_bytes r))"
  shows "list_all wf_char (utf8_chars (string_of_bytes ((a :: u8) # cs @ r)))"
proof -
  let ?c = "char_of (unat a) :: char" and ?cs = "string_of_bytes cs"
  have a: "194 \<le> unat a" using assms(3) by (simp add: word_le_nat_alt)
  have len: "length ?cs = utf8_len ?c - 1" using assms(1) by simp
  have "list_all (\<lambda>c. 128 \<le> (of_char c :: nat)) ?cs"
    using assms(2) by (induction cs) (simp_all add: word_le_nat_alt)
  then have "wf_char (?c # ?cs)" using a len by (auto simp: wf_char_def utf8_len_def Let_def)
  moreover have "string_of_bytes (a # cs @ r) = ?c # ?cs @ string_of_bytes r"
    by (simp add: string_of_bytes_def)
  ultimately show ?thesis using assms(4) len by simp
qed

lemma valid_utf8_chars: "valid_utf8 bs \<Longrightarrow> list_all wf_char (utf8_chars (string_of_bytes bs))"
proof (induction bs rule: length_induct)
  case (1 bs)
  show ?case
  proof (cases bs)
    case (Cons a r)
    have IH: "list_all wf_char (utf8_chars (string_of_bytes r'))"
      if "length r' \<le> length r" "valid_utf8 r'" for r' using 1 Cons that by simp
    consider "unat a \<le> 127" | "194 \<le> unat a" "unat a \<le> 223" | "224 \<le> unat a" "unat a \<le> 239"
      | "240 \<le> unat a" "unat a \<le> 244"
      using "1.prems" Cons by (auto simp: word_le_nat_alt split: if_splits)
    then show ?thesis
    proof cases
      case 1
      then show ?thesis using "1.prems" IH [of r] Cons
        by (simp add: word_le_nat_alt utf8_len_def Let_def)
    next
      case 2
      then obtain b r' where "r = [b] @ r'" "utf8_cont b" "valid_utf8 r'"
        using "1.prems" Cons by (auto simp: word_le_nat_alt split: list.splits)
      then show ?thesis using utf8_char_cut [of "[b]" a r'] IH [of r'] 2 Cons
        by (simp add: word_le_nat_alt utf8_len_def utf8_cont_def Let_def)
    next
      case 3
      then obtain b c r' where "r = [b, c] @ r'" "0x80 \<le> b" "utf8_cont c" "valid_utf8 r'"
        using "1.prems" Cons
        by (auto simp: word_le_nat_alt utf8_cont_def split: list.splits if_splits)
      then show ?thesis using utf8_char_cut [of "[b, c]" a r'] IH [of r'] 3 Cons
        by (simp add: word_le_nat_alt utf8_len_def utf8_cont_def Let_def)
    next
      case 4
      then obtain b c d r' where "r = [b, c, d] @ r'" "0x80 \<le> b" "utf8_cont c" "utf8_cont d"
        "valid_utf8 r'"
        using "1.prems" Cons
        by (auto simp: word_le_nat_alt utf8_cont_def split: list.splits if_splits)
      then show ?thesis using utf8_char_cut [of "[b, c, d]" a r'] IH [of r'] 4 Cons
        by (simp add: word_le_nat_alt utf8_len_def utf8_cont_def Let_def)
    qed
  qed simp
qed

lemma is_str_chars: "is_str s \<Longrightarrow> list_all wf_char (utf8_chars s)"
  using valid_utf8_chars [of "bytes_of_string s"] by (simp add: is_str_def)

lemma utf8_chars_append: "is_str s \<Longrightarrow> utf8_chars (s @ t) = utf8_chars s @ utf8_chars t"
  using utf8_chars_append_chars [OF is_str_chars, of s t] by simp

section \<open>Trimming\<close>

text \<open>Characters that trimming leaves alone: well formed, not blank at either end.\<close>

definition trimmed_chars :: "string list \<Rightarrow> bool" where
  "trimmed_chars chs \<longleftrightarrow> list_all wf_char chs \<and> chs \<noteq> [] \<and>
     \<not> is_whitespace (hd chs) \<and> \<not> is_whitespace (last chs)"

lemma dropWhile_blank: "list_all P pre \<Longrightarrow> dropWhile P (pre @ s) = dropWhile P s"
  by (induction pre) simp_all

lemma dropWhile_hd: "\<lbrakk>s \<noteq> []; \<not> P (hd s)\<rbrakk> \<Longrightarrow> dropWhile P s = s"
  by (cases s) simp_all

lemma trim_core:
  assumes "list_all wf_char pre" "list_all is_whitespace pre" "trimmed_chars chs"
    "list_all wf_char post" "list_all is_whitespace post"
  shows "trim (concat pre @ concat chs @ concat post) = concat chs"
proof -
  have "utf8_chars (concat (pre @ chs @ post)) = pre @ chs @ post"
    using assms by (intro utf8_chars_concat) (simp add: trimmed_chars_def)
  then have "utf8_chars (concat pre @ concat chs @ concat post) = pre @ chs @ post" by simp
  moreover have "dropWhile is_whitespace (pre @ chs @ post) = chs @ post"
    using assms by (simp add: dropWhile_blank dropWhile_hd trimmed_chars_def)
  moreover have "dropWhile is_whitespace (rev (chs @ post)) = rev chs"
    using assms by (simp add: dropWhile_blank dropWhile_hd trimmed_chars_def hd_rev)
  ultimately show ?thesis by (simp add: trim_def)
qed

lemma trim_trimmed: "trimmed_chars chs \<Longrightarrow> trim (concat chs) = concat chs"
  using trim_core [of "[]" chs "[]"] by simp

text \<open>Trimming text that begins with something solid cuts only its end.\<close>

lemma trim_tail:
  assumes "list_all wf_char pre" "list_all is_whitespace pre" "trimmed_chars chs"
    "list_all wf_char rest"
  obtains rest' where "prefix rest' rest"
    "trim (concat pre @ concat chs @ concat rest) = concat chs @ concat rest'"
    "rest' = [] \<or> \<not> is_whitespace (last rest')"
proof -
  define rest' where "rest' = rev (dropWhile is_whitespace (rev rest))"
  have r: "rest = rest' @ rev (takeWhile is_whitespace (rev rest))"
    by (simp add: rest'_def flip: rev_append)
  have l: "rest' = [] \<or> \<not> is_whitespace (last rest')"
    using hd_dropWhile [of is_whitespace "rev rest"]
    by (cases "dropWhile is_whitespace (rev rest) = []") (simp_all add: rest'_def last_rev)
  have "prefix rest' rest" using r by (metis prefixI)
  moreover have "list_all wf_char rest'" "list_all wf_char (rev (takeWhile is_whitespace (rev rest)))"
    using assms(4) r by (metis list_all_append)+
  then have "trim (concat pre @ concat (chs @ rest') @ concat (rev (takeWhile is_whitespace (rev rest)))) =
      concat (chs @ rest')"
    using assms l
    by (intro trim_core) (auto simp: trimmed_chars_def last_append list_all_iff dest: set_takeWhileD)
  then have "trim (concat pre @ concat chs @ concat rest) = concat chs @ concat rest'"
    by (subst r) simp
  ultimately show ?thesis using that l by blast
qed

definition solid :: "string \<Rightarrow> bool" where
  "solid s \<longleftrightarrow> s \<noteq> [] \<and> list_all (\<lambda>c. (of_char c :: nat) < 128 \<and> \<not> is_whitespace [c]) s"

lemma concat_singletons [simp]: "concat (map (\<lambda>c. [c]) s) = s"
  by (induction s) simp_all

lemma solid_trimmed: "solid s \<Longrightarrow> trimmed_chars (map (\<lambda>c. [c]) s)"
  by (auto simp: solid_def trimmed_chars_def list_all_iff hd_map last_map)

lemma is_digit_solid: "is_digit c \<Longrightarrow> (of_char c :: nat) < 128 \<and> \<not> is_whitespace [c]"
  by (auto simp: is_digit_def digit_of_def is_whitespace_def Let_def split: if_splits)

lemma solid_show_nat [simp]: "solid (show_nat n)"
  using show_nat_digits [of _ n] is_digit_solid by (auto simp: solid_def list_all_iff)

lemma solid_show_bool [simp]: "solid (show_bool b)"
  by (simp add: solid_def show_bool_def is_whitespace_def)

lemma wf_char_member: "\<lbrakk>wf_char ch; c \<in> set ch; (of_char c :: nat) < 128\<rbrakk> \<Longrightarrow> ch = [c]"
  by (auto simp: wf_char_def list_all_iff) (metis set_ConsD empty_iff list.set(1))

lemma set_filter_ascii:
  "\<lbrakk>list_all wf_char chs; (of_char c :: nat) < 128; [c] \<notin> set chs\<rbrakk> \<Longrightarrow> c \<notin> set (concat chs)"
  using wf_char_member by (fastforce simp: list_all_iff)

section \<open>Lossy decoding\<close>

text \<open>
  \<open>String::from_utf8_lossy\<close>: every maximal ill-formed part becomes one replacement character.
  \<open>utf8_second\<close> is the range of the second byte after a given first byte.
\<close>

definition utf8_second :: "u8 \<Rightarrow> u8 \<Rightarrow> bool" where
  "utf8_second a b \<longleftrightarrow>
     (if a = 0xE0 then 0xA0 \<le> b \<and> b \<le> 0xBF
      else if a = 0xED then 0x80 \<le> b \<and> b \<le> 0x9F
      else if a = 0xF0 then 0x90 \<le> b \<and> b \<le> 0xBF
      else if a = 0xF4 then 0x80 \<le> b \<and> b \<le> 0x8F
      else utf8_cont b)"

text \<open>Whether the bytes begin with a character, and of how many bytes; or how many to replace.\<close>

fun utf8_head :: "u8 list \<Rightarrow> bool \<times> nat" where
  "utf8_head [] = (False, 0)"
| "utf8_head (a # r) =
     (if a \<le> 0x7F then (True, 1)
      else if 0xC2 \<le> a \<and> a \<le> 0xDF then
        (case r of b # _ \<Rightarrow> if utf8_cont b then (True, 2) else (False, 1) | [] \<Rightarrow> (False, 1))
      else if 0xE0 \<le> a \<and> a \<le> 0xEF then
        (case r of
           b # r' \<Rightarrow> if \<not> utf8_second a b then (False, 1)
             else (case r' of c # _ \<Rightarrow> if utf8_cont c then (True, 3) else (False, 2) | [] \<Rightarrow> (False, 2))
         | [] \<Rightarrow> (False, 1))
      else if 0xF0 \<le> a \<and> a \<le> 0xF4 then
        (case r of
           b # r' \<Rightarrow> if \<not> utf8_second a b then (False, 1)
             else (case r' of
                 c # r'' \<Rightarrow> if \<not> utf8_cont c then (False, 2)
                   else (case r'' of d # _ \<Rightarrow> if utf8_cont d then (True, 4) else (False, 3)
                         | [] \<Rightarrow> (False, 3))
               | [] \<Rightarrow> (False, 2))
         | [] \<Rightarrow> (False, 1))
      else (False, 1))"

lemma utf8_head_pos: "0 < snd (utf8_head (a # r))"
  by (auto split: list.splits)

definition replacement_char :: string where
  "replacement_char = [CHR 0xEF, CHR 0xBF, CHR 0xBD]"

function from_utf8_lossy :: "u8 list \<Rightarrow> string" where
  "from_utf8_lossy [] = []"
| "from_utf8_lossy (a # r) =
     (case utf8_head (a # r) of (ok, n) \<Rightarrow>
        (if ok then string_of_bytes (take n (a # r)) else replacement_char) @
        from_utf8_lossy (drop n (a # r)))"
  by pat_completeness auto
termination
proof (relation "measure length", goal_cases)
  case (2 a r p n)
  then have "n = snd (utf8_head (a # r))" by (metis snd_conv)
  then have "0 < n" using utf8_head_pos [of a r] by (simp only:)
  then show ?case by simp
qed simp

lemma utf8_head_valid:
  assumes "valid_utf8 (a # r)"
  shows "\<exists>n. utf8_head (a # r) = (True, n) \<and> valid_utf8 (drop n (a # r))"
proof -
  consider "unat a \<le> 127" | "194 \<le> unat a" "unat a \<le> 223" | "224 \<le> unat a" "unat a \<le> 239"
    | "240 \<le> unat a" "unat a \<le> 244"
    using assms by (auto simp: word_le_nat_alt split: if_splits)
  then show ?thesis
  proof cases
    case 1
    then show ?thesis using assms by (simp add: word_le_nat_alt)
  next
    case 2
    then obtain b r' where "r = b # r'" "utf8_cont b" "valid_utf8 r'"
      using assms by (auto simp: word_le_nat_alt split: list.splits)
    then show ?thesis using 2 by (simp add: word_le_nat_alt)
  next
    case 3
    then have "a \<noteq> 0xF0" "a \<noteq> 0xF4" by auto
    with 3 obtain b c r' where "r = b # c # r'" "utf8_second a b" "utf8_cont c" "valid_utf8 r'"
      using assms by (auto simp: word_le_nat_alt utf8_second_def split: list.splits if_splits)
    then show ?thesis using 3 by (simp add: word_le_nat_alt)
  next
    case 4
    then have "a \<noteq> 0xE0" "a \<noteq> 0xED" by auto
    with 4 obtain b c d r' where "r = b # c # d # r'" "utf8_second a b" "utf8_cont c" "utf8_cont d"
      "valid_utf8 r'"
      using assms by (auto simp: word_le_nat_alt utf8_second_def split: list.splits if_splits)
    then show ?thesis using 4 by (simp add: word_le_nat_alt)
  qed
qed

lemma from_utf8_lossy_valid: "valid_utf8 bs \<Longrightarrow> from_utf8_lossy bs = string_of_bytes bs"
proof (induction bs rule: from_utf8_lossy.induct)
  case (2 a r)
  obtain n where h: "utf8_head (a # r) = (True, n)" and v: "valid_utf8 (drop n (a # r))"
    using utf8_head_valid [OF "2.prems"] by blast
  from "2.IH" [OF h [symmetric] v] have
    "from_utf8_lossy (a # r) = string_of_bytes (take n (a # r)) @ string_of_bytes (drop n (a # r))"
    using h by (simp del: utf8_head.simps)
  also have "\<dots> = string_of_bytes (a # r)"
    unfolding string_of_bytes_def map_append [symmetric] append_take_drop_id ..
  finally show ?case .
qed simp

section \<open>Building strings\<close>

text \<open>A valid byte string begins with one whole character, and what follows it does not matter.\<close>

lemma valid_utf8_Cons:
  assumes "valid_utf8 (a # r)"
  obtains cs r' where "r = cs @ r'" "length cs = utf8_len (char_of (unat a)) - 1" "valid_utf8 r'"
    "\<And>t. valid_utf8 t \<Longrightarrow> valid_utf8 (a # cs @ t)"
proof -
  consider "unat a \<le> 127" | "194 \<le> unat a" "unat a \<le> 223" | "224 \<le> unat a" "unat a \<le> 239"
    | "240 \<le> unat a" "unat a \<le> 244"
    using assms by (auto simp: word_le_nat_alt split: if_splits)
  then show thesis
  proof cases
    case 1
    then show thesis using assms
      by (intro that [of "[]" r]) (simp_all add: word_le_nat_alt utf8_len_def Let_def)
  next
    case 2
    then obtain b r' where "r = b # r'" "utf8_cont b" "valid_utf8 r'"
      using assms by (auto simp: word_le_nat_alt split: list.splits)
    then show thesis using 2
      by (intro that [of "[b]" r']) (simp_all add: word_le_nat_alt utf8_len_def Let_def)
  next
    case 3
    then have "a \<noteq> 0xF0" "a \<noteq> 0xF4" by auto
    with 3 obtain b c r' where "r = b # c # r'" "utf8_second a b" "utf8_cont c" "valid_utf8 r'"
      using assms by (auto simp: word_le_nat_alt utf8_second_def split: list.splits if_splits)
    then show thesis using 3 \<open>a \<noteq> 0xF0\<close> \<open>a \<noteq> 0xF4\<close>
      by (intro that [of "[b, c]" r'])
        (auto simp: word_le_nat_alt utf8_len_def utf8_second_def Let_def split: if_splits)
  next
    case 4
    then have "a \<noteq> 0xE0" "a \<noteq> 0xED" by auto
    with 4 obtain b c d r' where "r = b # c # d # r'" "utf8_second a b" "utf8_cont c" "utf8_cont d"
      "valid_utf8 r'"
      using assms by (auto simp: word_le_nat_alt utf8_second_def split: list.splits if_splits)
    then show thesis using 4 \<open>a \<noteq> 0xE0\<close> \<open>a \<noteq> 0xED\<close>
      by (intro that [of "[b, c, d]" r'])
        (auto simp: word_le_nat_alt utf8_len_def utf8_second_def Let_def split: if_splits)
  qed
qed

lemma valid_utf8_append: "\<lbrakk>valid_utf8 as; valid_utf8 bs\<rbrakk> \<Longrightarrow> valid_utf8 (as @ bs)"
proof (induction as rule: length_induct)
  case (1 as)
  show ?case
  proof (cases as)
    case (Cons a r)
    obtain cs r' where r: "r = cs @ r'" "valid_utf8 r'"
      "\<And>t. valid_utf8 t \<Longrightarrow> valid_utf8 (a # cs @ t)"
      using "1.prems"(1) [unfolded Cons] by (elim valid_utf8_Cons) blast
    then have "valid_utf8 (r' @ bs)" using 1 Cons by simp
    then show ?thesis using r(3) by (simp add: Cons r(1) del: valid_utf8.simps)
  qed (use 1 in simp)
qed

lemma valid_utf8_each_char:
  "valid_utf8 bs \<Longrightarrow> list_all is_str (utf8_chars (string_of_bytes bs))"
proof (induction bs rule: length_induct)
  case (1 bs)
  show ?case
  proof (cases bs)
    case (Cons a r)
    obtain cs r' where r: "r = cs @ r'"
      "length cs = utf8_len (char_of (unat a)) - 1" "valid_utf8 r'"
      "\<And>t. valid_utf8 t \<Longrightarrow> valid_utf8 (a # cs @ t)"
      using "1.prems"(1) [unfolded Cons] by (elim valid_utf8_Cons) blast
    have "utf8_chars (string_of_bytes (a # cs @ r')) =
        string_of_bytes (a # cs) # utf8_chars (string_of_bytes r')"
      using r(2) by (simp add: string_of_bytes_def)
    moreover have "is_str (string_of_bytes (a # cs))"
      using r(4) [of "[]"] unfolding is_str_def bytes_string_bytes by simp
    moreover have "list_all is_str (utf8_chars (string_of_bytes r'))" using 1 Cons r by simp
    ultimately show ?thesis unfolding Cons r(1) by simp
  qed simp
qed

lemma is_str_each_char: "is_str s \<Longrightarrow> list_all is_str (utf8_chars s)"
  using valid_utf8_each_char [of "bytes_of_string s"] by (simp add: is_str_def)

lemma is_str_Nil [simp]: "is_str []"
  by (simp add: is_str_def)

lemma is_str_append: "\<lbrakk>is_str s; is_str t\<rbrakk> \<Longrightarrow> is_str (s @ t)"
  using valid_utf8_append [of "bytes_of_string s" "bytes_of_string t"]
  by (simp add: is_str_def bytes_of_string_def)

lemma is_str_concat: "list_all is_str ss \<Longrightarrow> is_str (concat ss)"
  by (induction ss) (simp_all add: is_str_append)

lemma is_str_ascii: "is_ascii s \<Longrightarrow> is_str s"
  unfolding is_str_def
  by (rule valid_utf8_ascii)
    (induction s; simp add: word_le_nat_alt unsigned_of_nat take_bit_nat_eq_self)

lemma is_str_join: "\<lbrakk>is_str sep; list_all is_str ss\<rbrakk> \<Longrightarrow> is_str (join sep ss)"
  by (induction sep ss rule: join.induct) (simp_all add: is_str_append)

lemma is_str_show_nat [simp]: "is_str (show_nat n)"
  using solid_show_nat [of n] by (intro is_str_ascii) (simp add: solid_def is_ascii_def list_all_iff)

lemma is_str_show_int [simp]: "is_str (show_int i)"
  using is_str_append [of "''-''" "show_nat (nat (- i))"]
  by (simp add: show_int_def is_str_ascii)

lemma utf8_head_take:
  assumes "utf8_head (a # r) = (True, n)"
  shows "valid_utf8 (take n (a # r))"
proof -
  consider "unat a \<le> 127" | "194 \<le> unat a" "unat a \<le> 223" | "224 \<le> unat a" "unat a \<le> 239"
    | "240 \<le> unat a" "unat a \<le> 244"
    using assms by (auto simp: word_le_nat_alt split: if_splits)
  then show ?thesis
  proof cases
    case 1
    then have "n = 1" using assms by (simp add: word_le_nat_alt)
    then show ?thesis using 1 by (simp add: word_le_nat_alt)
  next
    case 2
    then obtain b r' where "r = b # r'" "utf8_cont b" "n = 2"
      using assms by (auto simp: word_le_nat_alt split: list.splits if_splits)
    then show ?thesis using 2 by (simp add: word_le_nat_alt)
  next
    case 3
    then have "a \<noteq> 0xF0" "a \<noteq> 0xF4" by auto
    with 3 obtain b c r' where "r = b # c # r'" "utf8_second a b" "utf8_cont c" "n = 3"
      using assms by (auto simp: word_le_nat_alt split: list.splits if_splits)
    then show ?thesis using 3 \<open>a \<noteq> 0xF0\<close> \<open>a \<noteq> 0xF4\<close>
      by (simp add: word_le_nat_alt utf8_second_def split: if_splits)
  next
    case 4
    then have "a \<noteq> 0xE0" "a \<noteq> 0xED" by auto
    with 4 obtain b c d r' where "r = b # c # d # r'" "utf8_second a b" "utf8_cont c" "utf8_cont d" "n = 4"
      using assms by (auto simp: word_le_nat_alt split: list.splits if_splits)
    then show ?thesis using 4 \<open>a \<noteq> 0xE0\<close> \<open>a \<noteq> 0xED\<close>
      by (simp add: word_le_nat_alt utf8_second_def split: if_splits)
  qed
qed

lemma is_str_lossy: "is_str (from_utf8_lossy bs)"
proof (induction bs rule: from_utf8_lossy.induct)
  case (2 a r)
  have r: "is_str replacement_char" by code_simp
  obtain ok n where h: "utf8_head (a # r) = (ok, n)" by fastforce
  have "is_str (if ok then string_of_bytes (take n (a # r)) else replacement_char)"
    using utf8_head_take [of a r n] h r by (simp add: is_str_def del: utf8_head.simps)
  moreover have "is_str (from_utf8_lossy (drop n (a # r)))"
    using 2 h by (simp del: utf8_head.simps)
  ultimately show ?case using h by (simp add: is_str_append del: utf8_head.simps)
qed simp

lemma is_str_trim: "is_str s \<Longrightarrow> is_str (trim s)"
  using is_str_each_char [of s] unfolding trim_def
  by (intro is_str_concat) (auto simp: list_all_iff dest!: set_dropWhileD)

end
