(* ===== verification/Abi.thy ===== *)
theory Abi
  imports Rust_Str
begin

text \<open>
  The guest-host ABI of \<open>src/abi.rs\<close>: result codes and their names, the errors of the
  boundary with their code, gate and message, the validation of a guest pointer range, and the
  packet parser with its checksum.
\<close>

section \<open>Result codes\<close>

definition OK :: i32 where [code_defs]: "OK = 0"
definition ERR_BOUNDS :: i32 where [code_defs]: "ERR_BOUNDS = - 1"
definition ERR_ALIGN :: i32 where [code_defs]: "ERR_ALIGN = - 2"
definition ERR_HEADER :: i32 where [code_defs]: "ERR_HEADER = - 3"
definition ERR_CAPABILITY :: i32 where [code_defs]: "ERR_CAPABILITY = - 4"
definition ERR_ALLOC :: i32 where [code_defs]: "ERR_ALLOC = - 5"
definition ERR_BUDGET :: i32 where [code_defs]: "ERR_BUDGET = - 6"
definition ERR_INTERNAL :: i32 where [code_defs]: "ERR_INTERNAL = - 7"
definition ERR_TOO_LARGE :: i32 where [code_defs]: "ERR_TOO_LARGE = - 8"
definition ERR_UTF8 :: i32 where [code_defs]: "ERR_UTF8 = - 9"
definition ERR_TIMEOUT :: i32 where [code_defs]: "ERR_TIMEOUT = - 10"

definition PACKET_MAGIC :: u32 where "PACKET_MAGIC = 0x54475357"
definition PACKET_HEADER_LEN :: nat where "PACKET_HEADER_LEN = 16"

definition code_name :: "i32 \<Rightarrow> string" where
  "code_name c =
     (if c = OK then ''OK''
      else if c = ERR_BOUNDS then ''ERR_BOUNDS''
      else if c = ERR_ALIGN then ''ERR_ALIGN''
      else if c = ERR_HEADER then ''ERR_HEADER''
      else if c = ERR_CAPABILITY then ''ERR_CAPABILITY''
      else if c = ERR_ALLOC then ''ERR_ALLOC''
      else if c = ERR_BUDGET then ''ERR_BUDGET''
      else if c = ERR_INTERNAL then ''ERR_INTERNAL''
      else if c = ERR_TOO_LARGE then ''ERR_TOO_LARGE''
      else if c = ERR_UTF8 then ''ERR_UTF8''
      else if c = ERR_TIMEOUT then ''ERR_TIMEOUT''
      else ''UNKNOWN'')"

definition parse_code_name :: "string \<Rightarrow> i32 option" where
  "parse_code_name v =
     (if v = ''OK'' then Some OK
      else if v = ''ERR_BOUNDS'' then Some ERR_BOUNDS
      else if v = ''ERR_ALIGN'' then Some ERR_ALIGN
      else if v = ''ERR_HEADER'' then Some ERR_HEADER
      else if v = ''ERR_CAPABILITY'' then Some ERR_CAPABILITY
      else if v = ''ERR_ALLOC'' then Some ERR_ALLOC
      else if v = ''ERR_BUDGET'' then Some ERR_BUDGET
      else if v = ''ERR_INTERNAL'' then Some ERR_INTERNAL
      else if v = ''ERR_TOO_LARGE'' then Some ERR_TOO_LARGE
      else if v = ''ERR_UTF8'' then Some ERR_UTF8
      else if v = ''ERR_TIMEOUT'' then Some ERR_TIMEOUT
      else result_ok (parse_i32 v))"

section \<open>Errors\<close>

datatype abi_error =
    MissingMemory
  | InvalidAlignment u32
  | Misaligned u32 u32
  | PtrLenOverflow u32 u32
  | OutOfBounds u32 u32 u32 u64
  | TooLarge u32 u32
  | MemoryRead string
  | PacketTooShort nat
  | BadMagic u32
  | BadVersion u16
  | PacketLengthMismatch u32 nat
  | BadChecksum u32 u32
  | InvalidUtf8
  | CapabilityDenied string
  | AllocationTooLarge u32 u32
  | BudgetExhausted

fun abi_error_code :: "abi_error \<Rightarrow> i32" where
  "abi_error_code (OutOfBounds p l e m) = ERR_BOUNDS"
| "abi_error_code (PtrLenOverflow p l) = ERR_BOUNDS"
| "abi_error_code (InvalidAlignment a) = ERR_ALIGN"
| "abi_error_code (Misaligned p a) = ERR_ALIGN"
| "abi_error_code (PacketTooShort n) = ERR_HEADER"
| "abi_error_code (BadMagic m) = ERR_HEADER"
| "abi_error_code (BadVersion v) = ERR_HEADER"
| "abi_error_code (PacketLengthMismatch d a) = ERR_HEADER"
| "abi_error_code (BadChecksum e a) = ERR_HEADER"
| "abi_error_code (CapabilityDenied p) = ERR_CAPABILITY"
| "abi_error_code (AllocationTooLarge r m) = ERR_ALLOC"
| "abi_error_code BudgetExhausted = ERR_BUDGET"
| "abi_error_code (TooLarge l m) = ERR_TOO_LARGE"
| "abi_error_code InvalidUtf8 = ERR_UTF8"
| "abi_error_code MissingMemory = ERR_INTERNAL"
| "abi_error_code (MemoryRead s) = ERR_INTERNAL"

fun abi_error_gate :: "abi_error \<Rightarrow> string" where
  "abi_error_gate MissingMemory = ''memory.export''"
| "abi_error_gate (InvalidAlignment a) = ''alignment''"
| "abi_error_gate (Misaligned p a) = ''alignment''"
| "abi_error_gate (PtrLenOverflow p l) = ''checked_add''"
| "abi_error_gate (OutOfBounds p l e m) = ''bounds''"
| "abi_error_gate (TooLarge l m) = ''max_len''"
| "abi_error_gate (MemoryRead s) = ''memory.read''"
| "abi_error_gate (PacketTooShort n) = ''packet.header''"
| "abi_error_gate (BadMagic m) = ''packet.header''"
| "abi_error_gate (BadVersion v) = ''packet.header''"
| "abi_error_gate (PacketLengthMismatch d a) = ''packet.header''"
| "abi_error_gate (BadChecksum e a) = ''packet.checksum''"
| "abi_error_gate InvalidUtf8 = ''utf8''"
| "abi_error_gate (CapabilityDenied p) = ''capability''"
| "abi_error_gate (AllocationTooLarge r m) = ''alloc.cap''"
| "abi_error_gate BudgetExhausted = ''fuel''"

definition escape_guest_string :: "string \<Rightarrow> string" where
  "escape_guest_string v = concat (map escape_default (utf8_chars v))"

fun abi_error_display :: "abi_error \<Rightarrow> string" where
  "abi_error_display MissingMemory = ''guest did not export linear memory''"
| "abi_error_display (InvalidAlignment a) = ''invalid alignment '' @ show_u32 a"
| "abi_error_display (Misaligned p a) = ''ptr 0x'' @ hex8 p @ '' is not aligned to '' @ show_u32 a"
| "abi_error_display (PtrLenOverflow p l) =
     ''ptr + len overflow: 0x'' @ hex8 p @ '' + '' @ show_u32 l"
| "abi_error_display (OutOfBounds p l e m) =
     ''range [0x'' @ hex8 p @ '', 0x'' @ hex8 e @ '') len='' @ show_u32 l @
     '' exceeds memory_size='' @ show_nat (unat m)"
| "abi_error_display (TooLarge l m) =
     ''len '' @ show_u32 l @ '' exceeds policy max '' @ show_u32 m"
| "abi_error_display (MemoryRead s) = ''memory read failed: '' @ s"
| "abi_error_display (PacketTooShort n) =
     ''packet len '' @ show_nat n @ '' smaller than '' @ show_nat PACKET_HEADER_LEN @ ''-byte header''"
| "abi_error_display (BadMagic m) = ''bad packet magic 0x'' @ hex8 m"
| "abi_error_display (BadVersion v) = ''unsupported packet version '' @ show_nat (unat v)"
| "abi_error_display (PacketLengthMismatch d a) =
     ''packet body_len declared '' @ show_u32 d @ '', actual payload bytes '' @ show_nat a"
| "abi_error_display (BadChecksum e a) =
     ''bad checksum expected 0x'' @ hex8 e @ '', actual 0x'' @ hex8 a"
| "abi_error_display InvalidUtf8 = ''guest bytes are not valid UTF-8''"
| "abi_error_display (CapabilityDenied p) = ''capability denied for '' @ escape_guest_string p"
| "abi_error_display (AllocationTooLarge r m) =
     ''allocation request '' @ show_u32 r @ '' exceeds cap '' @ show_u32 m"
| "abi_error_display BudgetExhausted = ''guest fuel budget exhausted''"

section \<open>Guest ranges\<close>

record guest_range =
  gr_ptr :: u32
  gr_len :: u32
  gr_end :: u32
  gr_offset :: u64

definition checked_guest_range ::
  "u32 \<Rightarrow> u32 \<Rightarrow> u32 \<Rightarrow> u64 \<Rightarrow> u32 \<Rightarrow> abi_error + guest_range" where
  "checked_guest_range ptr len align memory_size max_len =
     (if align \<notin> {1, 2, 4, 8, 16} then Inl (InvalidAlignment align)
      else if max_len < len then Inl (TooLarge len max_len)
      else if 1 < align \<and> \<not> is_multiple_of ptr align then Inl (Misaligned ptr align)
      else result_bind (ok_or (PtrLenOverflow ptr len) (checked_add ptr len)) (\<lambda>end.
        if memory_size < ucast end then Inl (OutOfBounds ptr len end memory_size)
        else Inr \<lparr>gr_ptr = ptr, gr_len = len, gr_end = end, gr_offset = ucast ptr\<rparr>))"

section \<open>Packets\<close>

record packet =
  pk_version :: u16
  pk_flags :: u16
  pk_body_len :: u32
  pk_checksum :: u32

text \<open>\<open>from_le_bytes\<close>, least significant byte first.\<close>

fun le_nat :: "u8 list \<Rightarrow> nat" where
  "le_nat [] = 0"
| "le_nat (b # bs) = unat b + 256 * le_nat bs"

text \<open>
  \<open>u32::from_le_bytes(bytes[i..i + 4].try_into().map_err(..)?)\<close> and its 16 bit form: the
  conversion of a slice of the wrong length is the error branch of the source.
\<close>

definition read_le32 :: "u8 list \<Rightarrow> nat \<Rightarrow> abi_error + u32" where
  "read_le32 bytes i = ok_or (PacketTooShort (length bytes))
     (map_option (\<lambda>s. word_of_nat (le_nat s)) (get_range bytes i (i + 4)))"

definition read_le16 :: "u8 list \<Rightarrow> nat \<Rightarrow> abi_error + u16" where
  "read_le16 bytes i = ok_or (PacketTooShort (length bytes))
     (map_option (\<lambda>s. word_of_nat (le_nat s)) (get_range bytes i (i + 2)))"

definition checksum32 :: "u8 list \<Rightarrow> u32" where
  "checksum32 bytes = fold (\<lambda>byte acc. acc + ucast byte) bytes 0"

definition parse_packet :: "u8 list \<Rightarrow> abi_error + packet" where
  "parse_packet bytes =
     (if length bytes < PACKET_HEADER_LEN then Inl (PacketTooShort (length bytes))
      else result_bind (read_le32 bytes 0) (\<lambda>magic.
        if magic \<noteq> PACKET_MAGIC then Inl (BadMagic magic)
        else result_bind (read_le16 bytes 4) (\<lambda>version.
          if version \<noteq> 1 then Inl (BadVersion version)
          else result_bind (read_le16 bytes 6) (\<lambda>flags.
            result_bind (read_le32 bytes 8) (\<lambda>body_len.
            result_bind (read_le32 bytes 12) (\<lambda>checksum.
              let body = drop PACKET_HEADER_LEN bytes in
              if length body \<noteq> unat body_len then Inl (PacketLengthMismatch body_len (length body))
              else let actual = checksum32 body in
                if checksum \<noteq> actual then Inl (BadChecksum checksum actual)
                else Inr \<lparr>pk_version = version, pk_flags = flags, pk_body_len = body_len,
                          pk_checksum = checksum\<rparr>))))))"

section \<open>Code names\<close>

lemma abi_error_code_range: "abi_error_code e \<in> {- 9..- 1}"
  by (cases e) (simp_all add: code_defs)

lemma abi_error_code_not_OK [simp]: "abi_error_code e \<noteq> OK"
  using abi_error_code_range [of e] by (auto simp: code_defs)

lemma err_codes_not_OK [simp]:
  "ERR_BOUNDS \<noteq> OK" "ERR_ALIGN \<noteq> OK" "ERR_HEADER \<noteq> OK" "ERR_CAPABILITY \<noteq> OK" "ERR_ALLOC \<noteq> OK"
  "ERR_BUDGET \<noteq> OK" "ERR_INTERNAL \<noteq> OK" "ERR_TOO_LARGE \<noteq> OK" "ERR_UTF8 \<noteq> OK" "ERR_TIMEOUT \<noteq> OK"
  by (simp_all add: code_defs)

lemmas OK_not_err_codes [simp] = err_codes_not_OK [symmetric]

lemma parse_UNKNOWN: "parse_code_name ''UNKNOWN'' = None"
  by (simp add: parse_code_name_def parse_i32_def digit_of_def)

text \<open>
  The names the reports print are the names a corpus manifest may use: parsing the printed
  name of a result code gives the code back for each of the eleven codes of the ABI, and the
  name printed for any other number (UNKNOWN) is refused by the parser.
\<close>

theorem code_name_roundtrip:
  "parse_code_name (code_name c) = (if ERR_TIMEOUT \<le> c \<and> c \<le> OK then Some c else None)"
proof (cases "- 10 \<le> c \<and> c \<le> 0")
  case True
  then have "c \<in> {- 10, - 9, - 8, - 7, - 6, - 5, - 4, - 3, - 2, - 1, 0}"
    by simp presburger
  then show ?thesis
    by (elim insertE emptyE) (simp_all add: code_name_def parse_code_name_def code_defs)
next
  case False
  then have "code_name c = ''UNKNOWN''" by (auto simp: code_name_def code_defs)
  then show ?thesis using False by (simp add: parse_UNKNOWN code_defs)
qed

section \<open>Range validation\<close>

lemma pow2_align_dvd:
  "align \<in> {1, 2, 4, 8, 16 :: u32} \<Longrightarrow> \<not> (1 < align \<and> \<not> is_multiple_of ptr align) \<longleftrightarrow> unat align dvd unat ptr"
  by (auto simp: is_multiple_of_iff)

lemma less_ucast_u32_iff: "(m :: u64) < ucast (x :: u32) \<longleftrightarrow> unat m < unat x"
  by (simp add: word_less_nat_alt)

lemma checked_guest_range_accepts_iff:
  "checked_guest_range ptr len align memory_size max_len = Inr r \<longleftrightarrow>
     align \<in> {1, 2, 4, 8, 16} \<and> unat len \<le> unat max_len \<and> unat align dvd unat ptr \<and>
     unat ptr + unat len < 2 ^ 32 \<and> unat ptr + unat len \<le> unat memory_size \<and>
     r = \<lparr>gr_ptr = ptr, gr_len = len, gr_end = ptr + len, gr_offset = ucast ptr\<rparr>"
proof (cases "align \<in> {1, 2, 4, 8, 16}")
  case True
  then show ?thesis
    using pow2_align_dvd [OF True, of ptr] word_less_nat_alt [of max_len len]
    by (simp add: checked_guest_range_def result_bind_Inr less_ucast_u32_iff not_less del: insert_iff)
      (auto simp: unat_add_u32 not_less is_multiple_of_iff)
next
  case False
  then show ?thesis by (simp add: checked_guest_range_def)
qed

text \<open>
  C1. A guest range is accepted exactly when the alignment is one of 1, 2, 4, 8, 16, the length
  is within the policy cap, the pointer is a multiple of the alignment, the end does not wrap
  the 32 bit address space, and it lies within the memory; the accepted range carries the
  pointer, the length, the true end and the pointer as a 64 bit offset.
\<close>

theorem checked_guest_range_accepts:
  "checked_guest_range ptr len align memory_size max_len = Inr r \<longleftrightarrow>
     align \<in> {1, 2, 4, 8, 16} \<and> unat len \<le> unat max_len \<and> unat align dvd unat ptr \<and>
     unat ptr + unat len < 2 ^ 32 \<and> unat ptr + unat len \<le> unat memory_size \<and>
     r = \<lparr>gr_ptr = ptr, gr_len = len, gr_end = ptr + len, gr_offset = ucast ptr\<rparr>"
  by (rule checked_guest_range_accepts_iff)

section \<open>The packet format\<close>

text \<open>The byte layout a guest has to produce, as the specification of the parser.\<close>

fun le_bytes :: "nat \<Rightarrow> nat \<Rightarrow> u8 list" where
  "le_bytes 0 n = []"
| "le_bytes (Suc k) n = word_of_nat n # le_bytes k (n div 256)"

definition encode_packet :: "u16 \<Rightarrow> u8 list \<Rightarrow> u8 list" where
  "encode_packet flags body =
     le_bytes 4 (unat PACKET_MAGIC) @ le_bytes 2 1 @ le_bytes 2 (unat flags) @
     le_bytes 4 (length body) @ le_bytes 4 (unat (checksum32 body)) @ body"

lemma length_le_bytes [simp]: "length (le_bytes k n) = k"
  by (induction k arbitrary: n) simp_all

lemma le_nat_le_bytes [simp]: "le_nat (le_bytes k n) = n mod 256 ^ k"
proof (induction k arbitrary: n)
  case (Suc k)
  have "unat (word_of_nat n :: u8) = n mod 256"
    by (simp add: unsigned_of_nat take_bit_eq_mod)
  then show ?case by (simp add: Suc mod_mult2_eq)
qed simp

lemma le_bytes_le_nat [simp]: "le_bytes (length bs) (le_nat bs) = bs"
proof (induction bs)
  case (Cons b bs)
  have "word_of_nat (unat b + 256 * le_nat bs) = b"
    by (simp add: word_unat_eq_iff unsigned_of_nat take_bit_eq_mod del: of_nat_add of_nat_mult)
  then show ?case using Cons by (simp del: of_nat_add of_nat_mult)
qed simp

lemma le_nat_less: "le_nat bs < 256 ^ length bs"
proof (induction bs)
  case (Cons b bs)
  then have "Suc (le_nat bs) \<le> 256 ^ length bs" by simp
  then have "256 * Suc (le_nat bs) \<le> 256 * 256 ^ length bs" by (rule mult_le_mono2)
  moreover have "unat b + 256 * le_nat bs < 256 * Suc (le_nat bs)"
    using unat_u8_less [of b] by (simp only: mult_Suc_right)
  ultimately have "unat b + 256 * le_nat bs < 256 * 256 ^ length bs" by (rule less_le_trans [rotated])
  then show ?case by simp
qed simp

lemma checksum32_eq: "checksum32 bs = sum_list (map ucast bs)"
proof -
  have "fold (\<lambda>byte acc. acc + ucast byte) bs a = a + sum_list (map ucast bs)" for a :: u32
    by (induction bs arbitrary: a) (simp_all add: add.assoc)
  then show ?thesis by (simp add: checksum32_def)
qed

text \<open>Reading a word of \<open>k\<close> bytes off a slice inverts writing it.\<close>

lemma word_of_le_bytes:
  assumes "LENGTH('a :: len) = 8 * k" and len: "length s = k"
  shows "(word_of_nat (le_nat s) :: 'a word) = w \<longleftrightarrow> s = le_bytes k (unat w)"
proof
  have size: "256 ^ k = (2 :: nat) ^ LENGTH('a)" using assms(1) by (simp add: power_mult)
  {
    assume "(word_of_nat (le_nat s) :: 'a word) = w"
    then have "unat w = le_nat s"
      using le_nat_less [of s] len size by (auto simp: unsigned_of_nat take_bit_nat_eq_self)
    then show "s = le_bytes k (unat w)" using le_bytes_le_nat [of s] len by simp
  next
    assume "s = le_bytes k (unat w)"
    then have "le_nat s = unat w" using unsigned_less [of w, where ?'a = nat] by (simp add: size)
    then show "(word_of_nat (le_nat s) :: 'a word) = w" by simp
  }
qed

lemma read_le32_Inr:
  "read_le32 bytes i = Inr w \<longleftrightarrow>
     i + 4 \<le> length bytes \<and> take 4 (drop i bytes) = le_bytes 4 (unat w)"
  using word_of_le_bytes [of 4 "take 4 (drop i bytes)" w]
  by (auto simp: read_le32_def get_range_def)

lemma read_le16_Inr:
  "read_le16 bytes i = Inr w \<longleftrightarrow>
     i + 2 \<le> length bytes \<and> take 2 (drop i bytes) = le_bytes 2 (unat w)"
  using word_of_le_bytes [of 2 "take 2 (drop i bytes)" w]
  by (auto simp: read_le16_def get_range_def)

lemma take_drop_cut: "take (m + n) xs = take m xs @ take n (drop m xs)"
  by (rule take_add)

lemma packet_layout:
  "(16 \<le> length bytes \<and> take 4 bytes = a \<and> take 2 (drop 4 bytes) = b \<and> take 2 (drop 6 bytes) = c \<and>
    take 4 (drop 8 bytes) = d \<and> take 4 (drop 12 bytes) = e \<and> drop 16 bytes = f) \<longleftrightarrow>
   (length a = 4 \<and> length b = 2 \<and> length c = 2 \<and> length d = 4 \<and> length e = 4 \<and>
    bytes = a @ b @ c @ d @ e @ f)"
proof
  assume *: "16 \<le> length bytes \<and> take 4 bytes = a \<and> take 2 (drop 4 bytes) = b \<and>
    take 2 (drop 6 bytes) = c \<and> take 4 (drop 8 bytes) = d \<and> take 4 (drop 12 bytes) = e \<and>
    drop 16 bytes = f"
  have "bytes = take 4 bytes @ take 2 (drop 4 bytes) @ take 2 (drop 2 (drop 4 bytes)) @
      take 4 (drop 2 (drop 2 (drop 4 bytes))) @ take 4 (drop 4 (drop 2 (drop 2 (drop 4 bytes)))) @
      drop 4 (drop 4 (drop 2 (drop 2 (drop 4 bytes))))"
    by (simp only: append_take_drop_id)
  then have "bytes = a @ b @ c @ d @ e @ f" using * by simp
  moreover have "length a = 4 \<and> length b = 2 \<and> length c = 2 \<and> length d = 4 \<and> length e = 4"
    using * by auto
  ultimately show "length a = 4 \<and> length b = 2 \<and> length c = 2 \<and> length d = 4 \<and> length e = 4 \<and>
    bytes = a @ b @ c @ d @ e @ f" by blast
qed auto

lemma parse_packet_iff:
  "parse_packet bytes = Inr p \<longleftrightarrow>
     (\<exists>body. length body < 2 ^ 32 \<and> bytes = encode_packet (pk_flags p) body \<and>
       p = \<lparr>pk_version = 1, pk_flags = pk_flags p, pk_body_len = word_of_nat (length body),
            pk_checksum = checksum32 body\<rparr>)"
proof
  let ?body = "drop 16 bytes"
  assume "parse_packet bytes = Inr p"
  then have len: "16 \<le> length bytes"
    and m: "read_le32 bytes 0 = Inr PACKET_MAGIC" and v: "read_le16 bytes 4 = Inr 1"
    and f: "read_le16 bytes 6 = Inr (pk_flags p)" and l: "read_le32 bytes 8 = Inr (pk_body_len p)"
    and c: "read_le32 bytes 12 = Inr (checksum32 ?body)"
    and bl: "length ?body = unat (pk_body_len p)"
    and p: "p = \<lparr>pk_version = 1, pk_flags = pk_flags p, pk_body_len = pk_body_len p,
                 pk_checksum = checksum32 ?body\<rparr>"
    by (auto simp: parse_packet_def PACKET_HEADER_LEN_def result_bind_Inr Let_def split: if_splits)
  have "bytes = encode_packet (pk_flags p) ?body"
    unfolding encode_packet_def
    using packet_layout [of bytes _ _ _ _ _ ?body, THEN iffD1] m v f l c len bl
    by (simp add: read_le32_Inr read_le16_Inr)
  moreover have "length ?body < 2 ^ 32" using bl by simp
  moreover have "pk_body_len p = word_of_nat (length ?body)" using bl by simp
  ultimately show "\<exists>body. length body < 2 ^ 32 \<and> bytes = encode_packet (pk_flags p) body \<and>
       p = \<lparr>pk_version = 1, pk_flags = pk_flags p, pk_body_len = word_of_nat (length body),
            pk_checksum = checksum32 body\<rparr>"
    using p by metis
next
  assume "\<exists>body. length body < 2 ^ 32 \<and> bytes = encode_packet (pk_flags p) body \<and>
       p = \<lparr>pk_version = 1, pk_flags = pk_flags p, pk_body_len = word_of_nat (length body),
            pk_checksum = checksum32 body\<rparr>"
  then obtain body where small: "length body < 2 ^ 32"
    and bytes: "bytes = encode_packet (pk_flags p) body"
    and p: "p = \<lparr>pk_version = 1, pk_flags = pk_flags p, pk_body_len = word_of_nat (length body),
            pk_checksum = checksum32 body\<rparr>" by blast
  have n: "unat (word_of_nat (length body) :: u32) = length body"
    using small by (simp add: unsigned_of_nat take_bit_nat_eq_self)
  have "read_le32 bytes 0 = Inr PACKET_MAGIC" "read_le16 bytes 4 = Inr 1"
    "read_le16 bytes 6 = Inr (pk_flags p)" "read_le32 bytes 8 = Inr (word_of_nat (length body))"
    "read_le32 bytes 12 = Inr (checksum32 body)"
    by (simp_all add: read_le32_Inr read_le16_Inr bytes encode_packet_def n)
  moreover have "drop 16 bytes = body" "16 \<le> length bytes"
    by (simp_all add: bytes encode_packet_def)
  ultimately show "parse_packet bytes = Inr p"
    using p n by (simp add: parse_packet_def PACKET_HEADER_LEN_def)
qed

text \<open>
  C16. The packet parser accepts exactly the byte strings of the ABI's format and returns their
  fields: a packet is parsed as \<open>p\<close> if and only if the bytes are the encoding of some body of
  fewer than \<open>2^32\<close> bytes with the magic, version 1, the flags of \<open>p\<close>, the true body length
  and the true checksum, all little-endian, and nothing before or after.
\<close>

theorem parse_packet_accepts:
  "parse_packet bytes = Inr p \<longleftrightarrow>
     (\<exists>body. length body < 2 ^ 32 \<and> bytes = encode_packet (pk_flags p) body \<and>
       p = \<lparr>pk_version = 1, pk_flags = pk_flags p, pk_body_len = word_of_nat (length body),
            pk_checksum = checksum32 body\<rparr>)"
  by (rule parse_packet_iff)

section \<open>What the checksum catches\<close>

lemma checksum32_update:
  assumes "j < length body"
  shows "checksum32 (body[j := b]) = checksum32 body - ucast (body ! j) + ucast b"
  using assms
proof (induction body arbitrary: j)
  case (Cons x xs)
  then show ?case by (cases j) (simp_all add: checksum32_eq)
qed simp

lemma ucast_u8_u32_inject [simp]: "(ucast (a :: u8) :: u32) = ucast b \<longleftrightarrow> a = b"
proof
  assume "(ucast a :: u32) = ucast b"
  then have "unat (ucast a :: u32) = unat (ucast b :: u32)" by simp
  moreover have "unat (ucast x :: u32) = unat x" for x :: u8
    by (simp add: unsigned_ucast_eq take_bit_nat_eq_self less_trans [OF unat_u8_less])
  ultimately show "a = b" by (simp add: word_unat_eq_iff)
qed simp

lemma encode_packet_update:
  assumes "16 \<le> i"
  shows "(encode_packet flags body)[i := b] =
    le_bytes 4 (unat PACKET_MAGIC) @ le_bytes 2 1 @ le_bytes 2 (unat flags) @
    le_bytes 4 (length body) @ le_bytes 4 (unat (checksum32 body)) @ body[i - 16 := b]"
proof -
  have "\<not> i < 4" "\<not> i - 4 < 2" "\<not> i - 4 - 2 < 2" "\<not> i - 4 - 2 - 2 < 4" "\<not> i - 4 - 2 - 2 - 4 < 4"
    and "i - 4 - 2 - 2 - 4 - 4 = i - 16"
    using assms by arith+
  then show ?thesis by (simp add: encode_packet_def list_update_append del: diff_diff_left)
qed

text \<open>
  C17. No change of a single payload byte goes unnoticed: overwrite any byte behind the header
  of an accepted packet with a different one and the parser reports a bad checksum, with the
  declared checksum of the packet and the sum it computed.
\<close>

theorem parse_packet_detects_corruption:
  assumes ok: "parse_packet bytes = Inr p"
    and i: "PACKET_HEADER_LEN \<le> i" "i < length bytes" and b: "b \<noteq> bytes ! i"
  shows "parse_packet (bytes[i := b]) =
    Inl (BadChecksum (pk_checksum p) (pk_checksum p - ucast (bytes ! i) + ucast b))"
proof -
  from ok obtain body where small: "length body < 2 ^ 32"
    and bytes: "bytes = encode_packet (pk_flags p) body" and c: "pk_checksum p = checksum32 body"
    by (subst (asm) parse_packet_iff) (metis packet.select_convs(4))
  let ?body = "body[i - 16 := b]"
  have i16: "16 \<le> i" "i - 16 < length body"
    using i bytes by (simp_all add: PACKET_HEADER_LEN_def encode_packet_def)
  have bytes': "bytes[i := b] = le_bytes 4 (unat PACKET_MAGIC) @ le_bytes 2 1 @
      le_bytes 2 (unat (pk_flags p)) @ le_bytes 4 (length body) @
      le_bytes 4 (unat (checksum32 body)) @ ?body"
    unfolding bytes by (rule encode_packet_update [OF i16(1)])
  define h where "h = le_bytes 4 (unat PACKET_MAGIC) @ le_bytes 2 1 @ le_bytes 2 (unat (pk_flags p)) @
      le_bytes 4 (length body) @ le_bytes 4 (unat (checksum32 body))"
  have "bytes = h @ body" and "length h = 16" by (simp_all add: bytes encode_packet_def h_def)
  then have old: "bytes ! i = body ! (i - 16)" using i16 by (simp add: nth_append)
  have n: "unat (word_of_nat (length body) :: u32) = length body"
    using small by (simp add: unsigned_of_nat take_bit_nat_eq_self)
  have "read_le32 (bytes[i := b]) 0 = Inr PACKET_MAGIC" "read_le16 (bytes[i := b]) 4 = Inr 1"
    "read_le16 (bytes[i := b]) 6 = Inr (pk_flags p)"
    "read_le32 (bytes[i := b]) 8 = Inr (word_of_nat (length body))"
    "read_le32 (bytes[i := b]) 12 = Inr (checksum32 body)"
    by (simp_all add: read_le32_Inr read_le16_Inr bytes' n)
  moreover have "drop 16 (bytes[i := b]) = ?body" "\<not> length (bytes[i := b]) < 16"
    by (simp_all add: bytes')
  moreover have "checksum32 ?body = checksum32 body - ucast (bytes ! i) + ucast b"
    using checksum32_update [OF i16(2)] by (simp add: old)
  moreover have "checksum32 body \<noteq> checksum32 body - ucast (bytes ! i) + ucast b"
    using b by (simp add: algebra_simps)
  ultimately show ?thesis by (simp add: parse_packet_def PACKET_HEADER_LEN_def n c)
qed

definition hello_packet :: "u8 list" where
  "hello_packet = [0x57, 0x53, 0x47, 0x54, 1, 0, 2, 0, 5, 0, 0, 0, 0x74, 1, 0, 0,
     0x48, 0x45, 0x4C, 0x4C, 0x4F]"

lemma parse_hello_packet:
  "parse_packet hello_packet =
     Inr \<lparr>pk_version = 1, pk_flags = 2, pk_body_len = 5, pk_checksum = 0x174\<rparr>"
  by (simp add: parse_packet_def hello_packet_def PACKET_HEADER_LEN_def PACKET_MAGIC_def
      read_le32_def read_le16_def get_range_def checksum32_def)

theorem parse_packet_detects_corruption_witness:
  "parse_packet (hello_packet[20 := 0x21]) = Inl (BadChecksum 0x174 0x146)"
proof -
  have "PACKET_HEADER_LEN \<le> 20" "20 < length hello_packet" "0x21 \<noteq> hello_packet ! 20"
    by (simp_all add: PACKET_HEADER_LEN_def hello_packet_def)
  from parse_packet_detects_corruption [OF parse_hello_packet this]
  show ?thesis by (simp add: hello_packet_def)
qed

end
