(* ===== verification/Telemetry.thy ===== *)
theory Telemetry
  imports Abi
begin

text \<open>
  The evidence records of \<open>src/telemetry.rs\<close>: gates, one event per host import call, the log
  of a run, and memory snapshots.
\<close>

record gate =
  gate_name :: string
  gate_passed :: bool

definition gate_pass :: "string \<Rightarrow> gate" where
  "gate_pass n = \<lparr>gate_name = n, gate_passed = True\<rparr>"

definition gate_fail :: "string \<Rightarrow> gate" where
  "gate_fail n = \<lparr>gate_name = n, gate_passed = False\<rparr>"

lemma gate_simps [simp]:
  "gate_name (gate_pass n) = n" "gate_passed (gate_pass n)"
  "gate_name (gate_fail n) = n" "\<not> gate_passed (gate_fail n)"
  "gate_pass m = gate_pass n \<longleftrightarrow> m = n" "gate_fail m = gate_fail n \<longleftrightarrow> m = n"
  "gate_pass m \<noteq> gate_fail n" "gate_fail m \<noteq> gate_pass n"
  by (simp_all add: gate_pass_def gate_fail_def)

record import_event =
  ev_import :: string
  ev_ptr :: "u32 option"
  ev_len :: "u32 option"
  ev_align :: "u32 option"
  ev_memory_size :: "u64 option"
  ev_result_code :: i32
  ev_detail :: string
  ev_elapsed_us :: nat
  ev_gates :: "gate list"

definition decision :: "import_event \<Rightarrow> string" where
  "decision e = (if ev_result_code e = OK then ''ALLOW'' else ''DENY'')"

record telemetry =
  events :: "import_event list"
  ticks_seen :: u32

definition telemetry_default :: telemetry where
  "telemetry_default = \<lparr>events = [], ticks_seen = 0\<rparr>"

definition telemetry_push :: "import_event \<Rightarrow> telemetry \<Rightarrow> telemetry" where
  "telemetry_push e t = t\<lparr>events := events t @ [e]\<rparr>"

lemma telemetry_push_simps [simp]:
  "events (telemetry_push e t) = events t @ [e]"
  "ticks_seen (telemetry_push e t) = ticks_seen t"
  by (simp_all add: telemetry_push_def)

record memory_snapshot =
  snap_pages :: u32
  snap_bytes :: u64
  snap_data_ptr :: nat

definition memory_snapshot_default :: memory_snapshot where
  "memory_snapshot_default = \<lparr>snap_pages = 0, snap_bytes = 0, snap_data_ptr = 0\<rparr>"

definition delta_pages :: "memory_snapshot \<Rightarrow> memory_snapshot \<Rightarrow> int" where
  "delta_pages self other = uint (snap_pages other) - uint (snap_pages self)"

end
