(* ===== verification/Guest_Memory.thy ===== *)
theory Guest_Memory
  imports Telemetry
begin

text \<open>
  Access to guest linear memory, \<open>src/memory.rs\<close>: a fresh view of the memory, validation of
  the guest's range with its gates, and the borrowed slice handed to a reader or a writer.
\<close>

section \<open>Linear memory and its views\<close>

text \<open>
  The contents of a linear memory and the host address of its first byte. A WebAssembly memory
  has at most \<open>65536\<close> pages of \<open>65536\<close> bytes (\<open>wf_memory\<close>), a bound of the WebAssembly
  standard the engine enforces.
\<close>

record guest_memory =
  gm_bytes :: "u8 list"
  gm_base :: nat

definition data_size :: "guest_memory \<Rightarrow> u64" where
  "data_size m = word_of_nat (length (gm_bytes m))"

definition wf_memory :: "guest_memory \<Rightarrow> bool" where
  "wf_memory m \<longleftrightarrow> length (gm_bytes m) \<le> 2 ^ 32"

lemma unat_data_size: "wf_memory m \<Longrightarrow> unat (data_size m) = length (gm_bytes m)"
  by (simp add: wf_memory_def data_size_def unsigned_of_nat take_bit_nat_eq_self)

record guest_bytes =
  gb_bytes :: "u8 list"
  gb_range :: guest_range
  gb_memory_size :: u64
  gb_gates :: "gate list"

type_synonym guest_access_err = "abi_error \<times> u64 option \<times> gate list"

section \<open>Validation with gates\<close>

definition validate_range ::
  "u32 \<Rightarrow> u32 \<Rightarrow> u32 \<Rightarrow> u64 \<Rightarrow> u32 \<Rightarrow> guest_access_err + guest_range \<times> gate list" where
  "validate_range ptr len align memory_size max_len =
     (case checked_guest_range ptr len align memory_size max_len of
        Inr rng \<Rightarrow> Inr (rng,
          [gate_pass ''max_len'', gate_pass ''alignment'', gate_pass ''checked_add'',
           gate_pass ''bounds''])
      | Inl err \<Rightarrow> (let failed_gate = abi_error_gate err in Inl (err, Some memory_size,
          (if failed_gate \<noteq> ''max_len'' then [gate_pass ''max_len''] else []) @
          (if failed_gate \<notin> {''alignment'', ''max_len''} then [gate_pass ''alignment''] else []) @
          (if failed_gate \<notin> {''checked_add'', ''alignment'', ''max_len''}
           then [gate_pass ''checked_add''] else []) @
          [gate_fail failed_gate])))"

definition range_indices :: "guest_range \<Rightarrow> guest_access_err + nat \<times> nat" where
  "range_indices rng =
     (if usize_max < unat (gr_offset rng) then
        Inl (MemoryRead ''guest range offset does not fit host usize'', None,
             [gate_fail ''memory.index''])
      else if usize_max < unat (gr_end rng) then
        Inl (MemoryRead ''guest range end does not fit host usize'', None,
             [gate_fail ''memory.index''])
      else Inr (unat (gr_offset rng), unat (gr_end rng)))"

section \<open>Borrowing guest bytes\<close>

text \<open>
  \<open>memory\<close> is the exported memory as the view of this call sees it, \<open>None\<close> before the host
  holds a handle. The reader is a function of the borrowed slice; the writer also returns what
  it leaves in the slice, which replaces the slice in the memory. A Rust slice cannot change
  its length, so a writer keeps it (\<open>slice_writer\<close>).
\<close>

definition with_guest_bytes ::
  "guest_memory option \<Rightarrow> u32 \<Rightarrow> u32 \<Rightarrow> u32 \<Rightarrow> u32 \<Rightarrow> (guest_bytes \<Rightarrow> 'r) \<Rightarrow>
   guest_access_err + 'r" where
  "with_guest_bytes memory ptr len align max_len read =
     (case memory of
        None \<Rightarrow> Inl (MissingMemory, None, [gate_fail ''memory.export''])
      | Some view \<Rightarrow>
          (let memory_size = data_size view in
           result_bind (validate_range ptr len align memory_size max_len) (\<lambda>(rng, gates).
           result_bind (range_indices rng) (\<lambda>(start, end).
             (case get_range (gm_bytes view) start end of
                None \<Rightarrow>
                  (let err = MemoryRead ''validated range could not index MemoryView'' in
                   Inl (err, Some memory_size, gates @ [gate_fail (abi_error_gate err)]))
              | Some bytes \<Rightarrow>
                  Inr (read \<lparr>gb_bytes = bytes, gb_range = rng, gb_memory_size = memory_size,
                             gb_gates = gates @ [gate_pass ''memory.read'']\<rparr>))))))"

definition with_guest_bytes_mut ::
  "guest_memory option \<Rightarrow> u32 \<Rightarrow> u32 \<Rightarrow> u32 \<Rightarrow> u32 \<Rightarrow> (guest_bytes \<Rightarrow> 'r \<times> u8 list) \<Rightarrow>
   guest_access_err + 'r \<times> guest_memory" where
  "with_guest_bytes_mut memory ptr len align max_len write =
     (case memory of
        None \<Rightarrow> Inl (MissingMemory, None, [gate_fail ''memory.export''])
      | Some view \<Rightarrow>
          (let memory_size = data_size view in
           result_bind (validate_range ptr len align memory_size max_len) (\<lambda>(rng, gates).
           result_bind (range_indices rng) (\<lambda>(start, end).
             (case get_range (gm_bytes view) start end of
                None \<Rightarrow>
                  (let err = MemoryRead ''validated range could not mutably index MemoryView'' in
                   Inl (err, Some memory_size, gates @ [gate_fail (abi_error_gate err)]))
              | Some bytes \<Rightarrow>
                  (let (r, bytes') = write \<lparr>gb_bytes = bytes, gb_range = rng,
                         gb_memory_size = memory_size, gb_gates = gates @ [gate_pass ''memory.write'']\<rparr>
                   in Inr (r, view\<lparr>gm_bytes := put_range (gm_bytes view) start bytes'\<rparr>)))))))"

definition slice_writer :: "(guest_bytes \<Rightarrow> 'r \<times> u8 list) \<Rightarrow> bool" where
  "slice_writer write \<longleftrightarrow> (\<forall>g. length (snd (write g)) = length (gb_bytes g))"

section \<open>The contract of a range validator\<close>

text \<open>
  What borrowing needs of the validation, whatever the checks are: an accepted range is the
  requested one, without wrap-around and inside the memory it was checked against.
\<close>

locale range_validator =
  fixes check :: "u32 \<Rightarrow> u32 \<Rightarrow> u32 \<Rightarrow> u64 \<Rightarrow> u32 \<Rightarrow> 'e + guest_range"
  assumes check_end:
      "check ptr len align mem_size limit = Inr r \<Longrightarrow> unat (gr_end r) = unat ptr + unat len"
    and check_offset:
      "check ptr len align mem_size limit = Inr r \<Longrightarrow> unat (gr_offset r) = unat ptr"
    and check_inside:
      "check ptr len align mem_size limit = Inr r \<Longrightarrow> unat ptr + unat len \<le> unat mem_size"
begin

lemma accepted_indices:
  assumes "check ptr len align mem_size limit = Inr r"
  shows "range_indices r = Inr (unat ptr, unat ptr + unat len)"
proof -
  have "unat ptr + unat len < 2 ^ 32"
    using check_end [OF assms] unat_u32_less [of "gr_end r"] by simp
  then show ?thesis
    using check_end [OF assms] check_offset [OF assms]
    by (simp add: range_indices_def usize_max_def)
qed

lemma accepted_slice:
  assumes "check ptr len align (data_size m) limit = Inr r" and "wf_memory m"
  shows "get_range (gm_bytes m) (unat ptr) (unat ptr + unat len) =
    Some (take (unat len) (drop (unat ptr) (gm_bytes m)))"
  using check_inside [OF assms(1)] unat_data_size [OF assms(2)] by (simp add: get_range_def)

lemma accepted_length:
  assumes "check ptr len align (data_size m) limit = Inr r" and "wf_memory m"
  shows "length (take (unat len) (drop (unat ptr) (gm_bytes m))) = unat len"
  using check_inside [OF assms(1)] unat_data_size [OF assms(2)] by simp

lemma accepted_write_frame:
  assumes "check ptr len align (data_size m) limit = Inr r" and "wf_memory m"
    and "length ys = unat len" and "i < unat ptr \<or> unat ptr + unat len \<le> i"
  shows "put_range (gm_bytes m) (unat ptr) ys ! i = gm_bytes m ! i"
  using check_inside [OF assms(1)] unat_data_size [OF assms(2)] assms(3,4)
  by (intro nth_put_range_outside) simp_all

lemma accepted_write_length:
  assumes "check ptr len align (data_size m) limit = Inr r" and "wf_memory m"
    and "length ys = unat len"
  shows "length (put_range (gm_bytes m) (unat ptr) ys) = length (gm_bytes m)"
  using check_inside [OF assms(1)] unat_data_size [OF assms(2)] assms(3)
  by (simp add: length_put_range)

end

lemma checked_guest_range_facts:
  assumes "checked_guest_range ptr len align mem_size limit = Inr r"
  shows "unat (gr_end r) = unat ptr + unat len" "unat (gr_offset r) = unat ptr"
    "unat ptr + unat len \<le> unat mem_size"
  using assms
  by (auto simp: checked_guest_range_def result_bind_Inr less_ucast_u32_iff unat_add_u32 not_less
      split: if_splits)

interpretation abi_range: range_validator checked_guest_range
  by unfold_locales (rule checked_guest_range_facts, assumption)+

section \<open>Borrowing is memory safe\<close>

definition access_gates :: "abi_error \<Rightarrow> gate list" where
  "access_gates e = (let n = abi_error_gate e in
     (if n = ''max_len'' then [] else
        gate_pass ''max_len'' # (if n = ''alignment'' then [] else
          gate_pass ''alignment'' # (if n = ''checked_add'' then [] else [gate_pass ''checked_add'']))) @
     [gate_fail n])"

lemma validate_range_cases:
  "validate_range ptr len align mem_size limit =
     (case checked_guest_range ptr len align mem_size limit of
        Inl e \<Rightarrow> Inl (e, Some mem_size, access_gates e)
      | Inr r \<Rightarrow> Inr (r, map gate_pass [''max_len'', ''alignment'', ''checked_add'', ''bounds'']))"
  by (auto simp: validate_range_def access_gates_def Let_def split: sum.splits)

definition access_slice :: "guest_memory \<Rightarrow> u32 \<Rightarrow> u32 \<Rightarrow> u8 list" where
  "access_slice m ptr len = take (unat len) (drop (unat ptr) (gm_bytes m))"

definition passed_gates :: "string \<Rightarrow> gate list" where
  "passed_gates access =
     map gate_pass [''max_len'', ''alignment'', ''checked_add'', ''bounds'', access]"

lemma with_guest_bytes_cases:
  assumes "wf_memory m"
  shows "with_guest_bytes (Some m) ptr len align max_len read =
    (case checked_guest_range ptr len align (data_size m) max_len of
       Inl e \<Rightarrow> Inl (e, Some (data_size m), access_gates e)
     | Inr r \<Rightarrow> Inr (read \<lparr>gb_bytes = access_slice m ptr len, gb_range = r,
                          gb_memory_size = data_size m, gb_gates = passed_gates ''memory.read''\<rparr>))"
proof (cases "checked_guest_range ptr len align (data_size m) max_len")
  case (Inr r)
  then show ?thesis
    using abi_range.accepted_slice [OF Inr assms]
    by (simp add: with_guest_bytes_def validate_range_cases abi_range.accepted_indices [OF Inr]
        access_slice_def passed_gates_def)
qed (simp add: with_guest_bytes_def validate_range_cases)

text \<open>A refused access has a failed gate; an accepted one has none.\<close>

definition all_passed :: "gate list \<Rightarrow> bool" where
  "all_passed gates \<longleftrightarrow> list_all gate_passed gates"

lemma all_passed_simps [simp]:
  "all_passed []" "all_passed (g # gs) \<longleftrightarrow> gate_passed g \<and> all_passed gs"
  "all_passed (gs @ hs) \<longleftrightarrow> all_passed gs \<and> all_passed hs"
  by (simp_all add: all_passed_def)

lemma access_gates_failed [simp]: "\<not> all_passed (access_gates e)"
  by (simp add: access_gates_def Let_def)

lemma with_guest_bytes_refused:
  "with_guest_bytes m ptr len align max_len read = Inl (e, sz, gates) \<Longrightarrow> \<not> all_passed gates"
  by (auto simp: with_guest_bytes_def validate_range_cases range_indices_def Let_def
      split: option.splits sum.splits if_splits)

lemma with_guest_bytes_granted:
  "with_guest_bytes m ptr len align max_len read = Inr res \<Longrightarrow>
   \<exists>g. res = read g \<and> all_passed (gb_gates g)"
  by (fastforce simp: with_guest_bytes_def validate_range_cases Let_def result_bind_Inr
      split: option.splits sum.splits)

lemma with_guest_bytes_mut_refused:
  "with_guest_bytes_mut m ptr len align max_len write = Inl (e, sz, gates) \<Longrightarrow> \<not> all_passed gates"
  by (auto simp: with_guest_bytes_mut_def validate_range_cases range_indices_def Let_def
      split: option.splits sum.splits if_splits prod.splits)

lemma with_guest_bytes_mut_granted:
  "with_guest_bytes_mut m ptr len align max_len write = Inr (res, m') \<Longrightarrow>
   \<exists>g. res = fst (write g) \<and> all_passed (gb_gates g)"
  by (clarsimp simp: with_guest_bytes_mut_def validate_range_cases Let_def result_bind_Inr
      case_prod_unfold split: option.splits sum.splits) (rule exI, rule conjI, rule refl, simp)

text \<open>
  C13. Reading through a guest pointer is exact and never out of bounds. For a WebAssembly memory
  and any reader, a refused range gives the validator's error with the size it was checked
  against and the gates up to the failed one; an accepted range hands the reader exactly the
  bytes from the pointer on, as many as asked for, with all five gates passed. The branch for a
  validated range that does not index the view is unreachable.
\<close>

theorem with_guest_bytes_exact:
  assumes "wf_memory m"
  shows "with_guest_bytes (Some m) ptr len align max_len read =
    (case checked_guest_range ptr len align (data_size m) max_len of
       Inl e \<Rightarrow> Inl (e, Some (data_size m), access_gates e)
     | Inr r \<Rightarrow> Inr (read \<lparr>gb_bytes = access_slice m ptr len, gb_range = r,
                          gb_memory_size = data_size m, gb_gates = passed_gates ''memory.read''\<rparr>)) \<and>
    (\<forall>r. checked_guest_range ptr len align (data_size m) max_len = Inr r \<longrightarrow>
       length (access_slice m ptr len) = unat len)"
  using with_guest_bytes_cases [OF assms] abi_range.accepted_length [OF _ assms]
  by (simp add: access_slice_def)

definition page_memory :: guest_memory where
  "page_memory = \<lparr>gm_bytes = replicate 64 0 @ hello_packet @ replicate 43 7, gm_base = 0\<rparr>"

lemma wf_page_memory: "wf_memory page_memory"
  by (simp add: wf_memory_def page_memory_def hello_packet_def)

lemma data_size_page_memory: "data_size page_memory = 128"
  by (simp add: data_size_def page_memory_def hello_packet_def)

theorem with_guest_bytes_exact_witness:
  "with_guest_bytes (Some page_memory) 64 21 8 4096 gb_bytes = Inr hello_packet"
proof -
  have "checked_guest_range 64 21 8 (data_size page_memory) 4096 =
      Inr \<lparr>gr_ptr = 64, gr_len = 21, gr_end = 85, gr_offset = 64\<rparr>"
    by (simp add: data_size_page_memory checked_guest_range_def is_multiple_of_def checked_add_def)
  moreover have "access_slice page_memory 64 21 = hello_packet"
    by (simp add: access_slice_def page_memory_def hello_packet_def)
  ultimately show ?thesis
    using with_guest_bytes_exact [OF wf_page_memory, of 64 21 8 4096 gb_bytes] by simp
qed

text \<open>What borrowing mutably does, in the same form.\<close>

lemma with_guest_bytes_mut_cases:
  assumes "wf_memory m"
  shows "with_guest_bytes_mut (Some m) ptr len align max_len write =
    (case checked_guest_range ptr len align (data_size m) max_len of
       Inl e \<Rightarrow> Inl (e, Some (data_size m), access_gates e)
     | Inr r \<Rightarrow>
         (let (res, ys) = write \<lparr>gb_bytes = access_slice m ptr len, gb_range = r,
                gb_memory_size = data_size m, gb_gates = passed_gates ''memory.write''\<rparr>
          in Inr (res, m\<lparr>gm_bytes := put_range (gm_bytes m) (unat ptr) ys\<rparr>)))"
proof (cases "checked_guest_range ptr len align (data_size m) max_len")
  case (Inr r)
  then show ?thesis
    using abi_range.accepted_slice [OF Inr assms]
    by (simp add: with_guest_bytes_mut_def validate_range_cases abi_range.accepted_indices [OF Inr]
        access_slice_def passed_gates_def)
qed (simp add: with_guest_bytes_mut_def validate_range_cases)

text \<open>
  C14. Writing through a guest pointer touches nothing outside the range. When the host writes
  into a borrowed slice of a WebAssembly memory (which cannot change the slice's length), the
  memory keeps its size and its base, and every byte below the pointer or at or above the end
  of the range is what it was.
\<close>

theorem with_guest_bytes_mut_frame:
  assumes wf: "wf_memory m" and w: "slice_writer write"
    and ok: "with_guest_bytes_mut (Some m) ptr len align max_len write = Inr (res, m')"
  shows "length (gm_bytes m') = length (gm_bytes m) \<and> gm_base m' = gm_base m \<and>
    (\<forall>i. i < unat ptr \<or> unat ptr + unat len \<le> i \<longrightarrow> gm_bytes m' ! i = gm_bytes m ! i)"
proof -
  from ok obtain r where r: "checked_guest_range ptr len align (data_size m) max_len = Inr r"
    by (auto simp: with_guest_bytes_mut_cases [OF wf] split: sum.splits)
  define g where "g = \<lparr>gb_bytes = access_slice m ptr len, gb_range = r,
    gb_memory_size = data_size m, gb_gates = passed_gates ''memory.write''\<rparr>"
  from ok r have m': "m' = m\<lparr>gm_bytes := put_range (gm_bytes m) (unat ptr) (snd (write g))\<rparr>"
    by (simp add: with_guest_bytes_mut_cases [OF wf] g_def split: prod.splits)
  have "length (snd (write g)) = unat len"
    using w abi_range.accepted_length [OF r wf] by (simp add: slice_writer_def g_def access_slice_def)
  then show ?thesis
    using abi_range.accepted_write_frame [OF r wf] abi_range.accepted_write_length [OF r wf]
    by (simp add: m')
qed

definition bump_bytes :: "guest_bytes \<Rightarrow> unit \<times> u8 list" where
  "bump_bytes g = ((), map (\<lambda>b. b + 1) (gb_bytes g))"

theorem with_guest_bytes_mut_frame_witness:
  "\<exists>m'. with_guest_bytes_mut (Some page_memory) 64 2 2 4 bump_bytes = Inr ((), m') \<and>
    gm_bytes m' ! 63 = gm_bytes page_memory ! 63"
proof -
  have "checked_guest_range 64 2 2 (data_size page_memory) 4 =
      Inr \<lparr>gr_ptr = 64, gr_len = 2, gr_end = 66, gr_offset = 64\<rparr>"
    by (simp add: data_size_page_memory checked_guest_range_def is_multiple_of_def checked_add_def)
  then obtain m' where
    ok: "with_guest_bytes_mut (Some page_memory) 64 2 2 4 bump_bytes = Inr ((), m')"
    by (simp add: with_guest_bytes_mut_cases [OF wf_page_memory] bump_bytes_def)
  have "slice_writer bump_bytes" by (simp add: slice_writer_def bump_bytes_def)
  from with_guest_bytes_mut_frame [OF wf_page_memory this ok] ok show ?thesis by auto
qed

section \<open>What the gates of a refused access say\<close>

text \<open>The condition each gate of the validation stands for.\<close>

definition gate_condition :: "string \<Rightarrow> u32 \<Rightarrow> u32 \<Rightarrow> u32 \<Rightarrow> u64 \<Rightarrow> u32 \<Rightarrow> bool" where
  "gate_condition n ptr len align mem_size max_len =
     (if n = ''max_len'' then unat len \<le> unat max_len
      else if n = ''alignment'' then align \<in> {1, 2, 4, 8, 16} \<and> unat align dvd unat ptr
      else if n = ''checked_add'' then unat ptr + unat len < 2 ^ 32
      else n = ''bounds'' \<and> unat ptr + unat len \<le> unat mem_size)"

definition validation_gates :: "guest_access_err + guest_range \<times> gate list \<Rightarrow> gate list" where
  "validation_gates r = (case r of Inl (e, sz, gates) \<Rightarrow> gates | Inr (rng, gates) \<Rightarrow> gates)"

lemma access_gates_simps [simp]:
  "access_gates (InvalidAlignment a) = [gate_pass ''max_len'', gate_fail ''alignment'']"
  "access_gates (Misaligned p a) = [gate_pass ''max_len'', gate_fail ''alignment'']"
  "access_gates (TooLarge l x) = [gate_fail ''max_len'']"
  "access_gates (PtrLenOverflow p l) =
     [gate_pass ''max_len'', gate_pass ''alignment'', gate_fail ''checked_add'']"
  "access_gates (OutOfBounds p l e m) =
     [gate_pass ''max_len'', gate_pass ''alignment'', gate_pass ''checked_add'', gate_fail ''bounds'']"
  by (simp_all add: access_gates_def)

lemma checked_guest_range_errors:
  assumes "align \<in> {1, 2, 4, 8, 16}"
    and "checked_guest_range ptr len align mem_size max_len = Inl e"
  shows "e = TooLarge len max_len \<and> unat max_len < unat len \<or>
    e = Misaligned ptr align \<and> unat len \<le> unat max_len \<and> \<not> unat align dvd unat ptr \<or>
    e = PtrLenOverflow ptr len \<and> unat len \<le> unat max_len \<and> unat align dvd unat ptr \<and>
      2 ^ 32 \<le> unat ptr + unat len \<or>
    e = OutOfBounds ptr len (ptr + len) mem_size \<and> unat len \<le> unat max_len \<and>
      unat align dvd unat ptr \<and> unat ptr + unat len < 2 ^ 32 \<and>
      unat mem_size < unat ptr + unat len"
  using assms(2) pow2_align_dvd [OF assms(1), of ptr] assms(1)
  by (auto simp: checked_guest_range_def result_bind_Inl less_ucast_u32_iff unat_add_u32 not_less
      word_less_nat_alt word_le_nat_alt simp del: insert_iff split: if_splits)

text \<open>
  The gates a range check logs are the truth. With a supported alignment, every gate of the
  log, passed or failed, accepted range or refused one, is marked passed if and only if the
  condition it names (length cap, alignment, no wrap-around, in bounds) holds of the request.
\<close>

theorem validation_gates_truthful:
  assumes a: "align \<in> {1, 2, 4, 8, 16}"
    and g: "g \<in> set (validation_gates (validate_range ptr len align mem_size max_len))"
  shows "gate_passed g \<longleftrightarrow> gate_condition (gate_name g) ptr len align mem_size max_len"
proof (cases "checked_guest_range ptr len align mem_size max_len")
  case (Inl e)
  show ?thesis
    using checked_guest_range_errors [OF a Inl] g a Inl
    by (elim disjE conjE) (auto simp: validate_range_cases validation_gates_def gate_condition_def
        simp del: insert_iff)
next
  case (Inr r)
  then show ?thesis
    using g Inr [unfolded checked_guest_range_accepts_iff] a
    by (auto simp: validate_range_cases validation_gates_def gate_condition_def simp del: insert_iff)
qed

theorem validation_gates_truthful_witness:
  "gate_condition ''checked_add'' 0xFFFFFFF0 64 8 65536 4096 = False"
proof -
  have "gate_fail ''checked_add'' \<in>
      set (validation_gates (validate_range 0xFFFFFFF0 64 8 65536 4096))"
    by (simp add: validation_gates_def validate_range_cases checked_guest_range_def
        is_multiple_of_def checked_add_def)
  from validation_gates_truthful [OF _ this] show ?thesis by simp
qed

text \<open>
  The supported-alignment hypothesis is needed: with any other alignment the log says that
  the length cap passed, whatever the length, because the alignment value is refused before the
  length is looked at while the log assumes the opposite order.
\<close>

theorem unsupported_alignment_logs_max_len_passed:
  assumes "align \<notin> {1, 2, 4, 8, 16}"
  shows "validation_gates (validate_range ptr len align mem_size max_len) =
    [gate_pass ''max_len'', gate_fail ''alignment'']"
  using assms by (simp add: validation_gates_def validate_range_cases checked_guest_range_def)

theorem unsupported_alignment_logs_max_len_passed_witness:
  "gate_pass ''max_len'' \<in> set (validation_gates (validate_range 64 5000 3 65536 4096)) \<and>
   \<not> gate_condition ''max_len'' 64 5000 3 65536 4096"
  using unsupported_alignment_logs_max_len_passed [of 3 64 5000 65536 4096]
  by (simp add: gate_condition_def)

end
