(* ===== verification/Policy.thy ===== *)
theory Policy
  imports Rust_Str
begin

text \<open>
  The host policy of \<open>src/policy.rs\<close>: its limits and its exact list of path capabilities, the
  built-in default, and the parser of policy files with every error it reports.
\<close>

record policy =
  max_packet_len :: u32
  max_cap_string_len :: u32
  max_alloc :: u32
  initial_fuel :: u32
  max_memory_pages :: u32
  require_tick_import :: bool
  supervisor_timeout_ms :: u64
  allowed_paths :: "string list"

definition policy_default :: policy where
  "policy_default = \<lparr>max_packet_len = 4096, max_cap_string_len = 256, max_alloc = 64 * 1024,
     initial_fuel = 256, max_memory_pages = 16, require_tick_import = True,
     supervisor_timeout_ms = 250, allowed_paths = [''/sandbox/allowed.txt'']\<rparr>"

definition is_path_allowed :: "policy \<Rightarrow> string \<Rightarrow> bool" where
  "is_path_allowed p path = list_ex (\<lambda>allowed. allowed = path) (allowed_paths p)"

lemma is_path_allowed_iff [simp]: "is_path_allowed p path \<longleftrightarrow> path \<in> set (allowed_paths p)"
  by (auto simp: is_path_allowed_def list_ex_iff)

section \<open>Values\<close>

definition at_line :: "nat \<Rightarrow> string \<Rightarrow> string" where
  "at_line n msg = ''line '' @ show_nat n @ '': '' @ msg"

definition policy_u32 :: "string \<Rightarrow> nat \<Rightarrow> string \<Rightarrow> string + u32" where
  "policy_u32 v n key =
     map_err (\<lambda>e. at_line n (''invalid '' @ key @ '': '' @ int_error_display e)) (parse_u32 v)"

definition policy_u64 :: "string \<Rightarrow> nat \<Rightarrow> string \<Rightarrow> string + u64" where
  "policy_u64 v n key =
     map_err (\<lambda>e. at_line n (''invalid '' @ key @ '': '' @ int_error_display e)) (parse_u64 v)"

definition policy_bool :: "string \<Rightarrow> nat \<Rightarrow> string \<Rightarrow> string + bool" where
  "policy_bool v n key =
     (if v = ''true'' then Inr True
      else if v = ''false'' then Inr False
      else Inl (at_line n (''invalid '' @ key @ '': expected true or false'')))"

text \<open>The escapes of a quoted string; the manifest parser of the corpus has the same table.\<close>

definition unescape_char :: "string \<Rightarrow> char option" where
  "unescape_char e =
     (if e = [quote_char] then Some quote_char
      else if e = [backslash_char] then Some backslash_char
      else if e = ''n'' then Some lf_char
      else if e = ''r'' then Some cr_char
      else if e = ''t'' then Some tab_char
      else None)"

text \<open>
  The string array: a cursor over the characters, here the list of characters still to read.
  \<open>array_string\<close> is the inner loop from behind an opening quote to behind the closing one.
\<close>

definition skip_ws_and_commas :: "string list \<Rightarrow> string list" where
  "skip_ws_and_commas = dropWhile (\<lambda>ch. is_whitespace ch \<or> ch = '','')"

definition skip_ws :: "string list \<Rightarrow> string list" where
  "skip_ws = dropWhile is_whitespace"

fun array_string :: "nat \<Rightarrow> string list \<Rightarrow> string \<Rightarrow> string + string \<times> string list" where
  "array_string n [] path = Inl (at_line n ''unterminated string'')"
| "array_string n (ch # chs) path =
     (if ch = [quote_char] then Inr (path, chs)
      else if ch = [backslash_char] then
        (case chs of
           [] \<Rightarrow> Inl (at_line n ''trailing escape in string'')
         | e # rest \<Rightarrow>
             (case unescape_char e of
                Some c \<Rightarrow> array_string n rest (path @ [c])
              | None \<Rightarrow> Inl (at_line n (''unsupported escape '' @ [backslash_char] @ e))))
      else array_string n chs (path @ ch))"

lemma array_string_shorter:
  "array_string n chs path = Inr (path', rest) \<Longrightarrow> length rest < length chs"
proof (induction n chs path rule: array_string.induct)
  case (2 n ch chs path)
  consider "ch = [quote_char]" | "ch = [backslash_char]" | "ch \<noteq> [quote_char]" "ch \<noteq> [backslash_char]"
    by blast
  then show ?case
  proof cases
    case 2
    then show ?thesis using "2.prems" "2.IH"(1) by (fastforce split: list.splits option.splits)
  qed (use "2.prems" "2.IH"(2) in auto)
qed simp

function array_entries :: "nat \<Rightarrow> string list \<Rightarrow> string list \<Rightarrow> string + string list" where
  "array_entries n chs paths =
     (case skip_ws_and_commas chs of
        [] \<Rightarrow> Inr paths
      | q # body \<Rightarrow>
          (if q \<noteq> [quote_char] then
             Inl (at_line n ''allowed_paths entries must be quoted strings'')
           else (case array_string n body [] of
               Inl e \<Rightarrow> Inl e
             | Inr (path, rest) \<Rightarrow>
                 (case skip_ws rest of
                    [] \<Rightarrow> Inr (paths @ [path])
                  | d # ds \<Rightarrow>
                      (if d = '','' then array_entries n (d # ds) (paths @ [path])
                       else Inl (at_line n ''expected comma after allowed path''))))))"
  by pat_completeness auto
termination
proof (relation "measure (\<lambda>(n, chs, paths). length chs)", goal_cases)
  case (2 n chs paths q body r path rest d ds)
  have "length (d # ds) \<le> length rest"
    unfolding 2(5)[symmetric] skip_ws_def by (rule length_dropWhile_le)
  also have "length rest < length body" using 2(3,4) array_string_shorter by auto
  also have "length body \<le> length chs"
    using length_dropWhile_le [of "\<lambda>ch. is_whitespace ch \<or> ch = '',''" chs] 2(1)
    by (simp add: skip_ws_and_commas_def)
  finally show ?case by simp
qed simp

declare array_entries.simps [simp del]

definition parse_string_array :: "string \<Rightarrow> nat \<Rightarrow> string + string list" where
  "parse_string_array v n =
     (let value = trim v in
      if \<not> starts_with ''['' value \<or> \<not> ends_with '']'' value then
        Inl (at_line n ''allowed_paths must be a string array'')
      else array_entries n (utf8_chars (take (length value - 2) (drop 1 value))) [])"

section \<open>Files\<close>

definition set_key :: "policy \<Rightarrow> nat \<Rightarrow> string \<Rightarrow> string \<Rightarrow> string + policy" where
  "set_key p n key v =
     (if key = ''max_packet_len'' then
        result_bind (policy_u32 v n key) (\<lambda>x. Inr (p\<lparr>max_packet_len := x\<rparr>))
      else if key = ''max_cap_string_len'' then
        result_bind (policy_u32 v n key) (\<lambda>x. Inr (p\<lparr>max_cap_string_len := x\<rparr>))
      else if key = ''max_alloc'' then
        result_bind (policy_u32 v n key) (\<lambda>x. Inr (p\<lparr>max_alloc := x\<rparr>))
      else if key = ''initial_fuel'' then
        result_bind (policy_u32 v n key) (\<lambda>x. Inr (p\<lparr>initial_fuel := x\<rparr>))
      else if key = ''max_memory_pages'' then
        result_bind (policy_u32 v n key) (\<lambda>x. Inr (p\<lparr>max_memory_pages := x\<rparr>))
      else if key = ''require_tick_import'' then
        result_bind (policy_bool v n key) (\<lambda>x. Inr (p\<lparr>require_tick_import := x\<rparr>))
      else if key = ''supervisor_timeout_ms'' then
        result_bind (policy_u64 v n key) (\<lambda>x. Inr (p\<lparr>supervisor_timeout_ms := x\<rparr>))
      else if key = ''allowed_paths'' then
        result_bind (parse_string_array v n) (\<lambda>x. Inr (p\<lparr>allowed_paths := x\<rparr>))
      else Inl (at_line n (''unsupported key '' @ [CHR 0x27] @ key @ [CHR 0x27])))"

text \<open>The text of a line before the first number sign, trimmed.\<close>

definition uncomment :: "string \<Rightarrow> string" where
  "uncomment raw = trim (case split_on (CHR ''#'') raw of [] \<Rightarrow> [] | first # _ \<Rightarrow> first)"

fun policy_lines :: "policy \<Rightarrow> nat \<Rightarrow> string list \<Rightarrow> string + policy" where
  "policy_lines p n [] = Inr p"
| "policy_lines p n (raw # raws) =
     (let line = uncomment raw in
      if line = [] then policy_lines p (Suc n) raws
      else (case split_once (CHR ''='') line of
          None \<Rightarrow> Inl (at_line n ''expected key = value'')
        | Some (key, v) \<Rightarrow>
            result_bind (set_key p n (trim key) (trim v)) (\<lambda>p'. policy_lines p' (Suc n) raws)))"

definition policy_parse :: "string \<Rightarrow> string + policy" where
  "policy_parse contents =
     result_bind (policy_lines policy_default 1 (lines contents)) (\<lambda>p.
       if allowed_paths p = [] then Inl ''allowed_paths must contain at least one exact capability''
       else Inr p)"

text \<open>\<open>from_file\<close>, over the outcome of reading the file (its error message or its contents).\<close>

definition policy_from_file :: "(string \<Rightarrow> string + string) \<Rightarrow> string \<Rightarrow> string + policy" where
  "policy_from_file read_to_string path =
     result_bind (map_err (\<lambda>e. ''failed to read '' @ path @ '': '' @ e) (read_to_string path))
       (\<lambda>contents. map_err (\<lambda>e. path @ '': '' @ e) (policy_parse contents))"

section \<open>Rendered policies\<close>

text \<open>
  The text of a policy file that says what a given policy is: one line per key, paths quoted
  with the escapes the parser knows. It is the specification the parser is checked against.
\<close>

definition esc_chars :: "string \<Rightarrow> string list" where
  "esc_chars ch =
     (if ch = [quote_char] then [[backslash_char], [quote_char]]
      else if ch = [backslash_char] then [[backslash_char], [backslash_char]]
      else if ch = [lf_char] then [[backslash_char], ''n'']
      else if ch = [cr_char] then [[backslash_char], ''r'']
      else if ch = [tab_char] then [[backslash_char], ''t'']
      else [ch])"

definition quoted_chars :: "string \<Rightarrow> string list" where
  "quoted_chars s = [quote_char] # concat (map esc_chars (utf8_chars s)) @ [[quote_char]]"

fun entry_chars :: "string list \<Rightarrow> string list" where
  "entry_chars [] = []"
| "entry_chars [s] = quoted_chars s"
| "entry_chars (s # t # ss) = quoted_chars s @ '','' # '' '' # entry_chars (t # ss)"

definition policy_line :: "string \<Rightarrow> string \<Rightarrow> string" where
  "policy_line key v = key @ '' = '' @ v"

definition array_text :: "string list \<Rightarrow> string" where
  "array_text ps = ''['' @ concat (entry_chars ps) @ '']''"

definition render_policy_lines :: "policy \<Rightarrow> string list" where
  "render_policy_lines p =
     [policy_line ''max_packet_len'' (show_u32 (max_packet_len p)),
      policy_line ''max_cap_string_len'' (show_u32 (max_cap_string_len p)),
      policy_line ''max_alloc'' (show_u32 (max_alloc p)),
      policy_line ''initial_fuel'' (show_u32 (initial_fuel p)),
      policy_line ''max_memory_pages'' (show_u32 (max_memory_pages p)),
      policy_line ''require_tick_import'' (show_bool (require_tick_import p)),
      policy_line ''supervisor_timeout_ms'' (show_nat (unat (supervisor_timeout_ms p))),
      policy_line ''allowed_paths'' (array_text (allowed_paths p))]"

definition render_policy :: "policy \<Rightarrow> string" where
  "render_policy p = concat (map (\<lambda>l. l @ [lf_char]) (render_policy_lines p))"

subsection \<open>The string array\<close>

lemma esc_chars_cases:
  obtains c x where "esc_chars ch = [[backslash_char], [x]]" "unescape_char [x] = Some c"
      "ch = [c]" "x \<noteq> lf_char" "x \<noteq> cr_char" "x \<noteq> CHR ''#''" "(of_char x :: nat) < 128"
  | "esc_chars ch = [ch]" "ch \<noteq> [quote_char]" "ch \<noteq> [backslash_char]" "ch \<noteq> [lf_char]"
      "ch \<noteq> [cr_char]"
proof (cases "ch \<in> {[quote_char], [backslash_char], [lf_char], [cr_char], [tab_char]}")
  case True
  then have "\<exists>c x. esc_chars ch = [[backslash_char], [x]] \<and> unescape_char [x] = Some c \<and>
      ch = [c] \<and> x \<noteq> lf_char \<and> x \<noteq> cr_char \<and> x \<noteq> CHR ''#'' \<and> (of_char x :: nat) < 128"
    by (auto simp: esc_chars_def unescape_char_def)
  then show thesis using that(1) by blast
next
  case False
  then show thesis using that(2) by (simp add: esc_chars_def)
qed

lemma array_string_quoted:
  "array_string n (concat (map esc_chars chs) @ [quote_char] # rest) path =
     Inr (path @ concat chs, rest)"
proof (induction chs arbitrary: path)
  case (Cons ch chs)
  show ?case by (cases ch rule: esc_chars_cases) (simp_all add: Cons)
qed simp

lemma array_string_unclosed:
  "prefix cs (concat (map esc_chars chs)) \<Longrightarrow> \<exists>e. array_string n cs path = Inl e"
proof (induction chs arbitrary: cs path)
  case (Cons ch chs)
  show ?case
  proof (cases ch rule: esc_chars_cases)
    case (1 c x)
    then have "prefix cs ([backslash_char] # [x] # concat (map esc_chars chs))"
      using Cons.prems by simp
    then consider "cs = []" | "cs = [[backslash_char]]"
      | cs' where "cs = [backslash_char] # [x] # cs'" "prefix cs' (concat (map esc_chars chs))"
      by (auto simp: prefix_Cons)
    then show ?thesis by cases (use Cons.IH 1 in auto)
  next
    case 2
    then have "prefix cs (ch # concat (map esc_chars chs))" using Cons.prems by simp
    then consider "cs = []"
      | cs' where "cs = ch # cs'" "prefix cs' (concat (map esc_chars chs))"
      by (auto simp: prefix_Cons)
    then show ?thesis by cases (use Cons.IH 2 in auto)
  qed
qed simp

lemma is_whitespace_ascii [simp]: "is_whitespace [CHR '' '']"
  by (simp add: is_whitespace_def)

lemma not_whitespace [simp]:
  "\<not> is_whitespace [quote_char]" "\<not> is_whitespace [backslash_char]" "\<not> is_whitespace '','' "
  "\<not> is_whitespace ''[''" "\<not> is_whitespace '']''"
  by (simp_all add: is_whitespace_def)

lemma array_entries_chars:
  "list_all (\<lambda>ch. is_whitespace ch \<or> ch = '','') pre \<Longrightarrow>
   array_entries n (pre @ entry_chars ps) acc = Inr (acc @ ps)"
proof (induction ps arbitrary: pre acc rule: entry_chars.induct)
  case 1
  then have "skip_ws_and_commas pre = []"
    by (induction pre) (simp_all add: skip_ws_and_commas_def)
  then show ?case by (simp add: array_entries.simps)
next
  case (2 s)
  then have "skip_ws_and_commas (pre @ quoted_chars s) = quoted_chars s"
    by (induction pre) (simp_all add: skip_ws_and_commas_def quoted_chars_def)
  then show ?case using array_string_quoted [of n "utf8_chars s" "[]" "[]"]
    by (simp add: array_entries.simps quoted_chars_def skip_ws_def)
next
  case (3 s t ss)
  then have "skip_ws_and_commas (pre @ entry_chars (s # t # ss)) = entry_chars (s # t # ss)"
    by (induction pre) (simp_all add: skip_ws_and_commas_def quoted_chars_def)
  moreover have "array_entries n ('','' # '' '' # entry_chars (t # ss)) (acc @ [s]) =
      Inr (acc @ s # t # ss)"
    using "3.IH" [of "['','', '' '']" "acc @ [s]"] by simp
  ultimately show ?case
    using array_string_quoted [of n "utf8_chars s" "'','' # '' '' # entry_chars (t # ss)" "[]"]
    by (subst array_entries.simps) (simp add: quoted_chars_def skip_ws_def)
qed

subsection \<open>Lines\<close>

lemma trim_key: "solid k \<Longrightarrow> trim (k @ '' '') = k"
  using trim_core [of "[]" "map (\<lambda>c. [c]) k" "['' '']"] solid_trimmed [of k] by simp

lemma trim_value: "trimmed_chars vs \<Longrightarrow> trim (CHR '' '' # concat vs) = concat vs"
  using trim_core [of "['' '']" vs "[]"] by simp

lemma trimmed_line:
  assumes "solid k" and "trimmed_chars vs"
  shows "trimmed_chars (map (\<lambda>c. [c]) (k @ '' = '') @ vs)"
  using assms by (auto simp: trimmed_chars_def solid_def list_all_iff hd_append hd_map)

lemma split_once_key: "CHR ''='' \<notin> set k \<Longrightarrow> split_once (CHR ''='') (k @ CHR ''='' # v) = Some (k, v)"
  by (induction k) auto

lemma line_read:
  assumes k: "solid k" "set k \<inter> {CHR ''='', CHR ''#''} = {}" and v: "trimmed_chars vs"
    and "CHR ''#'' \<notin> set (concat vs)"
  shows "uncomment (policy_line k (concat vs)) = policy_line k (concat vs)"
    and "split_once (CHR ''='') (policy_line k (concat vs)) = Some (k @ '' '', CHR '' '' # concat vs)"
proof -
  have "trim (policy_line k (concat vs)) = policy_line k (concat vs)"
    using trim_trimmed [OF trimmed_line [OF k(1) v]] by (simp add: policy_line_def)
  moreover have "CHR ''#'' \<notin> set (policy_line k (concat vs))"
    using assms by (auto simp: policy_line_def)
  ultimately show "uncomment (policy_line k (concat vs)) = policy_line k (concat vs)"
    by (simp add: uncomment_def split_on_absent)
  show "split_once (CHR ''='') (policy_line k (concat vs)) = Some (k @ '' '', CHR '' '' # concat vs)"
    using split_once_key [of "k @ '' ''" "CHR '' '' # concat vs"] k by (simp add: policy_line_def)
qed

lemma policy_lines_line:
  assumes k: "solid k" "set k \<inter> {CHR ''='', CHR ''#''} = {}" and v: "trimmed_chars vs"
    and "CHR ''#'' \<notin> set (concat vs)"
  shows "policy_lines p n (policy_line k (concat vs) # ls) =
    result_bind (set_key p n k (concat vs)) (\<lambda>p'. policy_lines p' (Suc n) ls)"
  by (simp add: line_read [OF assms] Let_def trim_key [OF k(1)] trim_value [OF v])
    (simp add: policy_line_def)

lemma solid_value:
  "\<lbrakk>solid v; CHR ''#'' \<notin> set v; solid k; set k \<inter> {CHR ''='', CHR ''#''} = {}\<rbrakk> \<Longrightarrow>
   policy_lines p n (policy_line k v # ls) =
     result_bind (set_key p n k v) (\<lambda>p'. policy_lines p' (Suc n) ls)"
  using policy_lines_line [of k "map (\<lambda>c. [c]) v"] solid_trimmed [of v] by simp

lemma wf_esc_chars: "wf_char ch \<Longrightarrow> list_all wf_char (esc_chars ch)"
  by (cases ch rule: esc_chars_cases) simp_all

lemma wf_quoted_chars: "is_str s \<Longrightarrow> list_all wf_char (quoted_chars s)"
  using is_str_chars [of s] wf_esc_chars unfolding quoted_chars_def list_all_iff by fastforce

lemma wf_entry_chars: "list_all is_str ps \<Longrightarrow> list_all wf_char (entry_chars ps)"
  by (induction ps rule: entry_chars.induct) (simp_all add: wf_quoted_chars)

lemma esc_chars_no_newline: "[lf_char] \<notin> set (esc_chars ch) \<and> [cr_char] \<notin> set (esc_chars ch)"
  by (cases ch rule: esc_chars_cases) auto

lemma entry_chars_no_newline: "[lf_char] \<notin> set (entry_chars ps) \<and> [cr_char] \<notin> set (entry_chars ps)"
  using esc_chars_no_newline
  by (induction ps rule: entry_chars.induct) (auto simp: quoted_chars_def)

lemma array_text_no_newline:
  assumes "list_all is_str ps"
  shows "lf_char \<notin> set (array_text ps) \<and> cr_char \<notin> set (array_text ps)"
  using set_filter_ascii [OF wf_entry_chars [OF assms], of lf_char]
    set_filter_ascii [OF wf_entry_chars [OF assms], of cr_char] entry_chars_no_newline [of ps]
  by (simp add: array_text_def)

lemma esc_chars_no_hash: "CHR ''#'' \<notin> set ch \<Longrightarrow> CHR ''#'' \<notin> set (concat (esc_chars ch))"
  by (cases ch rule: esc_chars_cases) simp_all

lemma escaped_no_hash:
  "\<forall>ch \<in> set chs. CHR ''#'' \<notin> set ch \<Longrightarrow> CHR ''#'' \<notin> set (concat (concat (map esc_chars chs)))"
  by (induction chs) (simp_all add: esc_chars_no_hash del: set_concat)

lemma chars_no_hash: "CHR ''#'' \<notin> set s \<Longrightarrow> \<forall>ch \<in> set (utf8_chars s). CHR ''#'' \<notin> set ch"
  using set_concat [of "utf8_chars s"] by auto

lemma quoted_chars_no_hash: "CHR ''#'' \<notin> set s \<Longrightarrow> CHR ''#'' \<notin> set (concat (quoted_chars s))"
  using escaped_no_hash [OF chars_no_hash, of s] by (simp add: quoted_chars_def del: set_concat)

lemma entry_chars_no_hash:
  "\<forall>s \<in> set ps. CHR ''#'' \<notin> set s \<Longrightarrow> CHR ''#'' \<notin> set (concat (entry_chars ps))"
  by (induction ps rule: entry_chars.induct) (simp_all add: quoted_chars_no_hash del: set_concat)

lemma parse_array_text:
  assumes "list_all is_str ps"
  shows "parse_string_array (array_text ps) n = Inr ps"
proof -
  have "trimmed_chars (''['' # entry_chars ps @ ['']''])"
    using wf_entry_chars [OF assms] by (simp add: trimmed_chars_def)
  from trim_trimmed [OF this] have t: "trim (array_text ps) = array_text ps"
    by (simp add: array_text_def)
  have "utf8_chars (concat (entry_chars ps)) = entry_chars ps"
    by (rule utf8_chars_concat [OF wf_entry_chars [OF assms]])
  then show ?thesis using array_entries_chars [of "[]" n ps "[]"]
    by (simp add: parse_string_array_def t Let_def)
      (simp add: array_text_def starts_with_def ends_with_def)
qed

lemma lines_concat:
  "\<forall>l \<in> set ls. lf_char \<notin> set l \<and> cr_char \<notin> set l \<Longrightarrow>
   lines (concat (map (\<lambda>l. l @ [lf_char]) ls)) = ls"
  by (induction ls) (simp_all add: lines_line)

lemma lines_render_policy:
  assumes "list_all is_str (allowed_paths p)"
  shows "lines (render_policy p) = render_policy_lines p"
  unfolding render_policy_def using array_text_no_newline [OF assms]
  by (intro lines_concat)
    (auto simp: render_policy_lines_def policy_line_def show_nat_not_char show_bool_def)

subsection \<open>The round trip\<close>

lemma set_key_simps [simp]:
  "set_key p n ''max_packet_len'' (show_u32 x) = Inr (p\<lparr>max_packet_len := x\<rparr>)"
  "set_key p n ''max_cap_string_len'' (show_u32 x) = Inr (p\<lparr>max_cap_string_len := x\<rparr>)"
  "set_key p n ''max_alloc'' (show_u32 x) = Inr (p\<lparr>max_alloc := x\<rparr>)"
  "set_key p n ''initial_fuel'' (show_u32 x) = Inr (p\<lparr>initial_fuel := x\<rparr>)"
  "set_key p n ''max_memory_pages'' (show_u32 x) = Inr (p\<lparr>max_memory_pages := x\<rparr>)"
  "set_key p n ''require_tick_import'' (show_bool b) = Inr (p\<lparr>require_tick_import := b\<rparr>)"
  "set_key p n ''supervisor_timeout_ms'' (show_nat (unat t)) = Inr (p\<lparr>supervisor_timeout_ms := t\<rparr>)"
  by (simp_all add: set_key_def policy_u32_def policy_u64_def policy_bool_def parse_u32_show
      parse_u64_show show_bool_def)

lemma set_key_paths [simp]:
  "set_key p n ''allowed_paths'' v =
     result_bind (parse_string_array v n) (\<lambda>x. Inr (p\<lparr>allowed_paths := x\<rparr>))"
  by (simp add: set_key_def)

lemma solid_keys [simp]:
  "solid ''max_packet_len''" "solid ''max_cap_string_len''" "solid ''max_alloc''"
  "solid ''initial_fuel''" "solid ''max_memory_pages''" "solid ''require_tick_import''"
  "solid ''supervisor_timeout_ms''" "solid ''allowed_paths''"
  by (simp_all add: solid_def is_whitespace_def)

lemma show_bool_no_hash [simp]: "CHR ''#'' \<notin> set (show_bool b)"
  by (simp add: show_bool_def)

lemma rendered_scalars:
  "policy_lines policy_default (Suc 0) (render_policy_lines p) =
   policy_lines (p\<lparr>allowed_paths := allowed_paths policy_default\<rparr>) 8
     [policy_line ''allowed_paths'' (array_text (allowed_paths p))]"
  by (cases p) (simp add: render_policy_lines_def solid_value show_nat_not_char eval_nat_numeral
      policy_default_def del: policy_lines.simps)

lemma policy_paths_line:
  assumes "list_all is_str ps" and "\<forall>s \<in> set ps. CHR ''#'' \<notin> set s"
  shows "policy_lines p n [policy_line ''allowed_paths'' (array_text ps)] =
    Inr (p\<lparr>allowed_paths := ps\<rparr>)"
proof -
  let ?vs = "''['' # entry_chars ps @ ['']'']"
  have v: "trimmed_chars ?vs" "concat ?vs = array_text ps"
    using wf_entry_chars [OF assms(1)] by (simp_all add: trimmed_chars_def array_text_def)
  have "CHR ''#'' \<notin> set (concat ?vs)"
    using entry_chars_no_hash [OF assms(2)] by (simp del: set_concat)
  then show ?thesis
    using policy_lines_line [of "''allowed_paths''" ?vs p n "[]"] v
      parse_array_text [OF assms(1)] by (simp del: concat.simps)
qed

text \<open>
  C18. A policy file means what it says. For every policy with at least one granted path, paths
  being Unicode strings without a number sign, parsing the file that spells the policy out
  (paths quoted with the escapes of the format) gives exactly that policy, whatever bytes the
  paths hold.
\<close>

theorem policy_parse_render:
  assumes "list_all is_str (allowed_paths p)" and "\<forall>s \<in> set (allowed_paths p). CHR ''#'' \<notin> set s"
    and "allowed_paths p \<noteq> []"
  shows "policy_parse (render_policy p) = Inr p"
  using assms(3)
  by (simp add: policy_parse_def lines_render_policy [OF assms(1)] rendered_scalars
      policy_paths_line [OF assms(1,2)] del: policy_lines.simps)

definition two_path_policy :: policy where
  "two_path_policy = policy_default\<lparr>allowed_paths := [''/a'' @ [quote_char, lf_char], ''/b c'']\<rparr>"

theorem policy_parse_render_witness:
  "policy_parse (render_policy two_path_policy) = Inr two_path_policy"
  by (rule policy_parse_render) (simp_all add: two_path_policy_def is_str_def)

text \<open>The single quoted path of a file, cut at its first number sign.\<close>

lemma take_last_char:
  assumes "list_all wf_char (chs @ [ch])" and "ends_with '']'' (concat (chs @ [ch]))"
  shows "ch = '']''"
proof -
  have "ch \<noteq> []" "wf_char ch" using assms(1) by (auto simp: wf_char_def)
  then have "last (concat (chs @ [ch])) = last ch" by simp
  moreover have "last (concat (chs @ [ch])) = CHR '']''"
    using assms(2) \<open>ch \<noteq> []\<close> unfolding ends_with_def
    by (metis append_take_drop_id last_appendR last_ConsL list.discI)
  ultimately have "CHR '']'' \<in> set ch" using \<open>ch \<noteq> []\<close> last_in_set [of ch] by metis
  then show ?thesis using wf_char_member [OF \<open>wf_char ch\<close>] by simp
qed

lemma parse_string_array_trimmed:
  assumes "trim v = s" and "starts_with ''['' s" and "ends_with '']'' s"
  shows "parse_string_array v n = array_entries n (utf8_chars (take (length s - 2) (drop 1 s))) []"
  using assms by (simp add: parse_string_array_def Let_def)

lemma parse_open_string:
  assumes "list_all wf_char cs" and "prefix cs (concat (map esc_chars chs))"
  shows "\<exists>e. parse_string_array (''['' @ [quote_char] @ concat cs) n = Inl e"
proof -
  have wf: "list_all wf_char [''['', [quote_char]]" "trimmed_chars [''['', [quote_char]]"
    by (simp_all add: trimmed_chars_def)
  obtain cs' where cs': "prefix cs' cs"
    "trim (''['' @ [quote_char] @ concat cs) = ''['' @ [quote_char] @ concat cs'"
    using trim_tail [of "[]" "[''['', [quote_char]]" cs] wf assms(1) by auto
  show ?thesis
  proof (cases "ends_with '']'' (''['' @ [quote_char] @ concat cs')")
    case True
    have w: "list_all wf_char cs'"
      using cs'(1) assms(1) by (auto simp: prefix_def)
    have "cs' \<noteq> []" using True by (auto simp: ends_with_def)
    then obtain ds d where ds: "cs' = ds @ [d]" by (metis rev_exhaust)
    have "d = '']''"
      using take_last_char [of "[''['', [quote_char]] @ ds" d] True w by (simp add: ds)
    then have inner: "take (length (''['' @ [quote_char] @ concat cs') - 2)
        (drop 1 (''['' @ [quote_char] @ concat cs')) = concat ([quote_char] # ds)"
      by (simp add: ds)
    have "utf8_chars (concat ([quote_char] # ds)) = [quote_char] # ds"
      using w by (intro utf8_chars_concat) (simp add: ds)
    moreover have "prefix ds (concat (map esc_chars chs))"
      using cs'(1) assms(2) unfolding ds by (meson append_prefixD prefix_order.trans)
    from array_string_unclosed [OF this] have "\<exists>e. array_string n ds [] = Inl e" by blast
    then have "\<exists>e. array_entries n ([quote_char] # ds) [] = Inl e"
      by (auto simp: array_entries.simps skip_ws_and_commas_def)
    moreover have "starts_with ''['' (''['' @ [quote_char] @ concat cs')"
      by (simp add: starts_with_def)
    ultimately show ?thesis
      using parse_string_array_trimmed [OF cs'(2) _ True, of n] inner by metis
  qed (simp add: parse_string_array_def cs'(2) [simplified] Let_def)
qed


lemma esc_hash: "esc_chars ''#'' = [''#'']"
  by (simp add: esc_chars_def)

lemma hash_path_text:
  assumes "is_str a"
  obtains rest where "array_text [a @ ''#'' @ b] =
    (''['' @ [quote_char] @ concat (concat (map esc_chars (utf8_chars a)))) @ CHR ''#'' # rest"
proof -
  have "utf8_chars (a @ ''#'' @ b) = utf8_chars a @ utf8_chars (''#'' @ b)"
    by (rule utf8_chars_append [OF assms])
  also have "utf8_chars (''#'' @ b) = ''#'' # utf8_chars b"
    by (simp add: utf8_len_def)
  finally show thesis
    by (intro that [of "concat (concat (map esc_chars (utf8_chars b))) @ [quote_char] @ '']''"])
      (simp add: array_text_def quoted_chars_def esc_hash)
qed

lemma hash_path_line:
  assumes "is_str a" and "CHR ''#'' \<notin> set a"
  shows "\<exists>e. policy_lines p n [policy_line ''allowed_paths'' (array_text [a @ ''#'' @ b])] = Inl e"
proof -
  let ?cs = "concat (map esc_chars (utf8_chars a))"
  let ?hdr = "map (\<lambda>c. [c]) ''allowed_paths = '' @ [''['', [quote_char]]"
  let ?l = "policy_line ''allowed_paths'' (array_text [a @ ''#'' @ b])"
  have wf: "list_all wf_char ?cs"
    using wf_quoted_chars [OF assms(1)] by (simp add: quoted_chars_def)
  obtain rest where "array_text [a @ ''#'' @ b] = (''['' @ [quote_char] @ concat ?cs) @ CHR ''#'' # rest"
    by (rule hash_path_text [OF assms(1)])
  then have l: "?l = (''allowed_paths = ['' @ [quote_char] @ concat ?cs) @ CHR ''#'' # rest"
    by (simp add: policy_line_def)
  have "CHR ''#'' \<notin> set (''allowed_paths = ['' @ [quote_char] @ concat ?cs)"
    using escaped_no_hash [OF chars_no_hash [OF assms(2)]] by (simp del: set_concat)
  from split_on_append_sep [OF this, of rest]
  have u: "uncomment ?l = trim (''allowed_paths = ['' @ [quote_char] @ concat ?cs)"
    unfolding l by (simp add: uncomment_def)
  have "trimmed_chars ?hdr" by (simp add: trimmed_chars_def is_whitespace_def)
  from trim_tail [OF _ _ this wf, of "[]"] obtain cs1 where
    cs1: "prefix cs1 ?cs" "uncomment ?l = ''allowed_paths = ['' @ [quote_char] @ concat cs1"
    unfolding u by auto
  have "list_all wf_char cs1" using wf cs1(1) by (auto simp: prefix_def)
  from trim_tail [OF _ _ _ this, of "['' '']" "[''['', [quote_char]]"] obtain cs2 where
    cs2: "prefix cs2 cs1" "trim (CHR '' '' # CHR ''['' # quote_char # concat cs1) = ''['' @ [quote_char] @ concat cs2"
    by (auto simp: trimmed_chars_def)
  have "list_all wf_char cs2" using \<open>list_all wf_char cs1\<close> cs2(1) by (auto simp: prefix_def)
  moreover have "prefix cs2 ?cs" using cs1(1) cs2(1) by (rule prefix_order.trans [rotated])
  ultimately obtain e where e: "parse_string_array (''['' @ [quote_char] @ concat cs2) n = Inl e"
    using parse_open_string by blast
  have "trim ''allowed_paths '' = ''allowed_paths''"
    using trim_key [of "''allowed_paths''"] by simp
  then show ?thesis
    unfolding policy_lines.simps cs1(2) Let_def using e cs2(2) by simp
qed

text \<open>
  Comments are cut before strings are read, so a number sign cannot occur in a granted path:
  a file that spells out any policy whose path contains one, quoted like every other path, is
  rejected with an error.
\<close>

theorem hash_in_quoted_path_rejected:
  assumes "is_str a" and "is_str (a @ ''#'' @ b)" and "CHR ''#'' \<notin> set a"
  shows "\<exists>e. policy_parse (render_policy (p\<lparr>allowed_paths := [a @ ''#'' @ b]\<rparr>)) = Inl e"
proof -
  have "list_all is_str [a @ ''#'' @ b]" using assms(2) by simp
  then show ?thesis
    using hash_path_line [OF assms(1,3), of "p\<lparr>allowed_paths := allowed_paths policy_default\<rparr>" 8 b]
      lines_render_policy [of "p\<lparr>allowed_paths := [a @ ''#'' @ b]\<rparr>"]
      rendered_scalars [of "p\<lparr>allowed_paths := [a @ ''#'' @ b]\<rparr>"]
    by (auto simp: policy_parse_def simp del: policy_lines.simps)
qed

theorem hash_in_quoted_path_rejected_witness:
  "\<exists>e. policy_parse (render_policy (policy_default\<lparr>allowed_paths := [''/data/'' @ ''#'' @ ''1'']\<rparr>)) = Inl e"
  by (rule hash_in_quoted_path_rejected) (simp_all add: is_str_def)

section \<open>What an accepted file can change\<close>

definition policy_keys :: "string list" where
  "policy_keys = [''max_packet_len'', ''max_cap_string_len'', ''max_alloc'', ''initial_fuel'',
     ''max_memory_pages'', ''require_tick_import'', ''supervisor_timeout_ms'', ''allowed_paths'']"

text \<open>The keys a file sets, in order.\<close>

definition line_key :: "string \<Rightarrow> string option" where
  "line_key raw = map_option (\<lambda>(k, v). trim k) (split_once (CHR ''='') (uncomment raw))"

lemma set_key_known: "set_key p n key v = Inr p' \<Longrightarrow> key \<in> set policy_keys"
  by (auto simp: set_key_def policy_keys_def split: if_splits)

lemma set_key_other:
  assumes "set_key p n key v = Inr p'"
  shows "key \<noteq> ''allowed_paths'' \<Longrightarrow> allowed_paths p' = allowed_paths p"
    and "key \<noteq> ''initial_fuel'' \<Longrightarrow> initial_fuel p' = initial_fuel p"
    and "key \<noteq> ''max_memory_pages'' \<Longrightarrow> max_memory_pages p' = max_memory_pages p"
    and "key \<noteq> ''require_tick_import'' \<Longrightarrow> require_tick_import p' = require_tick_import p"
  using assms by (auto simp: set_key_def result_bind_Inr split: if_splits)

lemma policy_lines_step:
  assumes "policy_lines p n (raw # raws) = Inr p'"
  obtains "uncomment raw = []" "policy_lines p (Suc n) raws = Inr p'"
  | k v p1 where "line_key raw = Some k" "set_key p n k v = Inr p1"
      "policy_lines p1 (Suc n) raws = Inr p'"
  using assms
  by (fastforce simp: Let_def result_bind_Inr line_key_def split: if_splits option.splits)

lemma policy_lines_keys:
  "policy_lines p n raws = Inr p' \<Longrightarrow> raw \<in> set raws \<Longrightarrow>
   uncomment raw = [] \<or> (\<exists>k. line_key raw = Some k \<and> k \<in> set policy_keys)"
proof (induction raws arbitrary: p n)
  case (Cons r raws)
  from Cons.prems(1) show ?case
    by (cases rule: policy_lines_step) (use Cons set_key_known in auto)
qed simp

lemma policy_lines_other:
  assumes "\<And>p n k v p'. \<lbrakk>set_key p n k v = Inr p'; k \<noteq> key\<rbrakk> \<Longrightarrow> f p' = f p"
  shows "policy_lines p n raws = Inr p' \<Longrightarrow> Some key \<notin> line_key ` set raws \<Longrightarrow> f p' = f p"
proof (induction raws arbitrary: p n)
  case (Cons r raws)
  from Cons.prems(1) show ?case
    by (cases rule: policy_lines_step) (use Cons assms in \<open>auto simp del: policy_lines.simps\<close>)
qed simp

lemma policy_lines_frame:
  assumes "policy_lines p n raws = Inr p'"
  shows "Some ''allowed_paths'' \<notin> line_key ` set raws \<Longrightarrow> allowed_paths p' = allowed_paths p"
    and "Some ''initial_fuel'' \<notin> line_key ` set raws \<Longrightarrow> initial_fuel p' = initial_fuel p"
    and "Some ''max_memory_pages'' \<notin> line_key ` set raws \<Longrightarrow> max_memory_pages p' = max_memory_pages p"
    and "Some ''require_tick_import'' \<notin> line_key ` set raws \<Longrightarrow>
      require_tick_import p' = require_tick_import p"
  using policy_lines_other [where key = "''allowed_paths''" and f = allowed_paths, OF _ assms]
    policy_lines_other [where key = "''initial_fuel''" and f = initial_fuel, OF _ assms]
    policy_lines_other [where key = "''max_memory_pages''" and f = max_memory_pages, OF _ assms]
    policy_lines_other [where key = "''require_tick_import''" and f = require_tick_import, OF _ assms]
    set_key_other by blast+

text \<open>
  An accepted policy file grants something, and nothing by accident. When a file parses,
  its policy has at least one granted path, every line that is not blank (after cutting its
  comment) sets one of the eight known keys, and the grants, the fuel budget, the memory page
  cap and the tick requirement differ from the built-in policy only if a line sets their key.
\<close>

theorem policy_parse_frame:
  assumes "policy_parse contents = Inr p"
  shows "allowed_paths p \<noteq> [] \<and>
    (\<forall>raw \<in> set (lines contents). uncomment raw = [] \<or>
       (\<exists>k. line_key raw = Some k \<and> k \<in> set policy_keys)) \<and>
    (Some ''allowed_paths'' \<notin> line_key ` set (lines contents) \<longrightarrow>
       allowed_paths p = [''/sandbox/allowed.txt'']) \<and>
    (Some ''initial_fuel'' \<notin> line_key ` set (lines contents) \<longrightarrow> initial_fuel p = 256) \<and>
    (Some ''max_memory_pages'' \<notin> line_key ` set (lines contents) \<longrightarrow> max_memory_pages p = 16) \<and>
    (Some ''require_tick_import'' \<notin> line_key ` set (lines contents) \<longrightarrow> require_tick_import p)"
proof -
  from assms have "policy_lines policy_default 1 (lines contents) = Inr p" and "allowed_paths p \<noteq> []"
    by (auto simp: policy_parse_def result_bind_Inr split: if_splits)
  then show ?thesis
    using policy_lines_keys policy_lines_frame [of policy_default 1 "lines contents" p]
    by (simp add: policy_default_def del: policy_lines.simps)
qed

theorem policy_parse_frame_witness:
  "initial_fuel (policy_default\<lparr>max_packet_len := 64\<rparr>) = 256"
proof -
  have "policy_parse ''max_packet_len = 64 # small'' = Inr (policy_default\<lparr>max_packet_len := 64\<rparr>)"
    by code_simp
  from policy_parse_frame [OF this] show ?thesis
    by (simp add: policy_default_def)
qed

end
