(* ===== verification/Config.thy ===== *)
theory Config
  imports Rust_Str
begin

text \<open>
  The command line of \<open>src/config.rs\<close>: the enumerations with their names, the configuration
  with its defaults, and the argument loop, which ends in a configuration or in an exit status
  with the lines it prints.
\<close>

section \<open>Enumerations\<close>

datatype backend = Cranelift | Singlepass

definition backend_name :: "backend \<Rightarrow> string" where
  "backend_name b = (case b of Cranelift \<Rightarrow> ''cranelift'' | Singlepass \<Rightarrow> ''singlepass'')"

datatype isolation_mode = InProcess | Process

definition isolation_parse :: "string \<Rightarrow> isolation_mode option" where
  "isolation_parse v =
     (if v = ''none'' \<or> v = ''in-process'' \<or> v = ''inprocess'' then Some InProcess
      else if v = ''process'' \<or> v = ''supervisor'' then Some Process
      else None)"

definition isolation_name :: "isolation_mode \<Rightarrow> string" where
  "isolation_name m = (case m of InProcess \<Rightarrow> ''in-process'' | Process \<Rightarrow> ''process'')"

datatype profile = All | Interview | Campaign | AbiProfile | Capability | Resource | MemoryProfile

definition profile_parse :: "string \<Rightarrow> profile option" where
  "profile_parse v =
     (if v = ''all'' then Some All
      else if v = ''interview'' then Some Interview
      else if v = ''campaign'' \<or> v = ''adversary'' \<or> v = ''apt'' then Some Campaign
      else if v = ''abi'' then Some AbiProfile
      else if v = ''capability'' \<or> v = ''capabilities'' \<or> v = ''caps'' then Some Capability
      else if v = ''resource'' \<or> v = ''resources'' \<or> v = ''dos'' then Some Resource
      else if v = ''memory'' then Some MemoryProfile
      else None)"

definition profile_name :: "profile \<Rightarrow> string" where
  "profile_name p = (case p of All \<Rightarrow> ''all'' | Interview \<Rightarrow> ''interview'' | Campaign \<Rightarrow> ''campaign''
     | AbiProfile \<Rightarrow> ''abi'' | Capability \<Rightarrow> ''capability'' | Resource \<Rightarrow> ''resource''
     | MemoryProfile \<Rightarrow> ''memory'')"

datatype output_format = Text | Json | Markdown | Sarif

definition format_parse :: "string \<Rightarrow> output_format option" where
  "format_parse v =
     (if v = ''text'' then Some Text
      else if v = ''json'' then Some Json
      else if v = ''markdown'' \<or> v = ''md'' then Some Markdown
      else if v = ''sarif'' then Some Sarif
      else None)"

section \<open>The configuration\<close>

record config =
  cf_case :: "string option"
  cf_corpus_dir :: "string option"
  cf_emit_wasm_dir :: "string option"
  cf_interview :: bool
  cf_list :: bool
  cf_menu :: bool
  cf_no_color :: bool
  cf_output_format :: output_format
  cf_policy_path :: "string option"
  cf_allow_unmetered :: bool
  cf_isolation :: isolation_mode
  cf_profile :: profile
  cf_report_path :: "string option"
  cf_summary_only :: bool
  cf_timeout_ms :: "u64 option"
  cf_tui :: bool
  cf_tui_delay_ms :: u64
  cf_repeat :: nat
  cf_backend :: backend
  cf_worker_case :: "string option"
  cf_worker_execute_static :: bool

definition config_default :: config where
  "config_default = \<lparr>cf_case = None, cf_corpus_dir = None, cf_emit_wasm_dir = None,
     cf_interview = False, cf_list = False, cf_menu = False, cf_no_color = False,
     cf_output_format = Text, cf_policy_path = None, cf_allow_unmetered = False,
     cf_isolation = InProcess, cf_profile = All, cf_report_path = None, cf_summary_only = False,
     cf_timeout_ms = None, cf_tui = False, cf_tui_delay_ms = 120, cf_repeat = 1,
     cf_backend = Cranelift, cf_worker_case = None, cf_worker_execute_static = False\<rparr>"

section \<open>Arguments\<close>

text \<open>Leaving the process: the exit status and the lines printed.\<close>

type_synonym stop = "i32 \<times> string list"

definition require_value :: "string list \<Rightarrow> string \<Rightarrow> stop + string \<times> string list" where
  "require_value rest flag =
     (case rest of
        [] \<Rightarrow> Inl (2, [flag @ '' requires a value''])
      | v # rest' \<Rightarrow>
          (if starts_with ''--'' v then Inl (2, [flag @ '' requires a value'']) else Inr (v, rest')))"

definition parse_positive_usize :: "string \<Rightarrow> string \<Rightarrow> stop + nat" where
  "parse_positive_usize v flag =
     (case parse_uint usize_max v of
        Inr n \<Rightarrow> (if 0 < n then Inr n else Inl (2, [flag @ '' requires a positive integer'']))
      | Inl e \<Rightarrow> Inl (2, [flag @ '' requires a positive integer'']))"

definition parse_positive_u64 :: "string \<Rightarrow> string \<Rightarrow> stop + u64" where
  "parse_positive_u64 v flag =
     (case parse_u64 v of
        Inr n \<Rightarrow> (if 0 < n then Inr n else Inl (2, [flag @ '' requires a positive integer'']))
      | Inl e \<Rightarrow> Inl (2, [flag @ '' requires a positive integer'']))"

definition squote :: "string \<Rightarrow> string" where
  "squote s = CHR 0x27 # s @ [CHR 0x27]"

text \<open>The flags that take the next argument as their value, and what each does with it.\<close>

definition value_flags :: "string list" where
  "value_flags = [''--case'', ''--scenario'', ''--profile'', ''--emit-wasm-dir'', ''--corpus'',
     ''--format'', ''--report'', ''--policy'', ''--isolate'', ''--timeout-ms'', ''--backend'',
     ''--repeat'', ''--tui-delay-ms'', ''--stress'', ''--worker-case'']"

definition value_flag :: "config \<Rightarrow> string \<Rightarrow> string \<Rightarrow> stop + config" where
  "value_flag c flag v =
     (if flag = ''--case'' \<or> flag = ''--scenario'' then Inr (c\<lparr>cf_case := Some v\<rparr>)
      else if flag = ''--profile'' then
        (case profile_parse v of
           None \<Rightarrow> Inl (2, [''Unsupported profile '' @ squote v @
             ''. Use all, interview, campaign, abi, capability, resource, memory.''])
         | Some p \<Rightarrow>
             (let c = c\<lparr>cf_profile := p\<rparr> in
              Inr (if p = Interview then c\<lparr>cf_interview := True\<rparr> else c)))
      else if flag = ''--emit-wasm-dir'' then Inr (c\<lparr>cf_emit_wasm_dir := Some v\<rparr>)
      else if flag = ''--corpus'' then Inr (c\<lparr>cf_corpus_dir := Some v\<rparr>)
      else if flag = ''--format'' then
        (case format_parse v of
           None \<Rightarrow> Inl (2, [''Unsupported format '' @ squote v @ ''. Use text, json, markdown, sarif.''])
         | Some f \<Rightarrow>
             (let c = c\<lparr>cf_output_format := f\<rparr> in
              Inr (if f \<noteq> Text then c\<lparr>cf_no_color := True\<rparr> else c)))
      else if flag = ''--report'' then Inr (c\<lparr>cf_report_path := Some v\<rparr>)
      else if flag = ''--policy'' then Inr (c\<lparr>cf_policy_path := Some v\<rparr>)
      else if flag = ''--isolate'' then
        (case isolation_parse v of
           None \<Rightarrow> Inl (2, [''Unsupported isolation mode '' @ squote v @ ''. Use none or process.''])
         | Some m \<Rightarrow> Inr (c\<lparr>cf_isolation := m\<rparr>))
      else if flag = ''--timeout-ms'' then
        result_bind (parse_positive_u64 v flag) (\<lambda>t. Inr (c\<lparr>cf_timeout_ms := Some t\<rparr>))
      else if flag = ''--backend'' then
        (if v = ''cranelift'' then Inr (c\<lparr>cf_backend := Cranelift\<rparr>)
         else if v = ''singlepass'' then Inr (c\<lparr>cf_backend := Singlepass\<rparr>)
         else Inl (2, [''Unsupported backend '' @ squote v @ ''. Use cranelift or singlepass.'']))
      else if flag = ''--repeat'' then
        result_bind (parse_positive_usize v flag) (\<lambda>n. Inr (c\<lparr>cf_repeat := n\<rparr>))
      else if flag = ''--tui-delay-ms'' then
        (case parse_u64 v of
           Inr d \<Rightarrow>
             (if d \<le> 2000 then Inr (c\<lparr>cf_tui_delay_ms := d\<rparr>)
              else Inl (2, [''--tui-delay-ms requires an integer from 0 to 2000'']))
         | Inl e \<Rightarrow> Inl (2, [''--tui-delay-ms requires an integer from 0 to 2000'']))
      else if flag = ''--stress'' then
        result_bind (parse_positive_usize v flag)
          (\<lambda>n. Inr (c\<lparr>cf_repeat := n, cf_summary_only := True\<rparr>))
      else Inr (c\<lparr>cf_worker_case := Some v\<rparr>))"

definition usage_lines :: "string list" where
  "usage_lines =
    [''Usage: wasmer-demo [--case NAME] [--profile NAME] [--format F]'',
     ''  --all               run the full corpus sequentially (default)'',
     ''  --list              list hostile guest cases'',
     ''  --case NAME         run one case instead of the selected profile'',
     ''  --scenario NAME     alias for --case'',
     ''  --corpus DIR        load external .wat/.wasm corpus directory'',
     ''  --menu              interactive security console with session history and charts'',
     ''  --tui               live terminal security cockpit'',
     ''  --live              alias for --tui'',
     ''  --tui-delay-ms N    frame delay for --tui, default 120'',
     ''  --interview         curated attack -> gate -> result flow'',
     ''  --profile NAME      all, interview, campaign, abi, capability, resource, memory'',
     ''  --campaign          defensive adversary-emulation campaign profile'',
     ''  --emit-wasm-dir D   compile WAT guests to D/*.wasm and exit'',
     ''  --repeat N          repeat selected cases, default 1'',
     ''  --stress N          repeat selected cases N times with summary output'',
     ''  --format F          text, json, markdown, sarif'',
     ''  --report PATH       write selected report format to a file'',
     ''  --policy PATH       load policy limits and capabilities from TOML-like file'',
     ''  --allow-unmetered   allow modules without the host.tick CPU budget import'',
     ''  --isolate MODE      none or process; process runs cases under a supervisor'',
     ''  --timeout-ms N      process supervisor timeout, default 250'',
     ''  --backend NAME      cranelift or singlepass'',
     ''  --no-color          disable ANSI colors'',
     ''  --summary-only      print aggregate results and failing cases only'']"

definition switch_flag :: "config \<Rightarrow> string \<Rightarrow> stop + config" where
  "switch_flag c arg =
     (if arg = ''--allow-unmetered'' then Inr (c\<lparr>cf_allow_unmetered := True\<rparr>)
      else if arg = ''--tui'' \<or> arg = ''--live'' then Inr (c\<lparr>cf_tui := True\<rparr>)
      else if arg = ''--list'' then Inr (c\<lparr>cf_list := True\<rparr>)
      else if arg = ''--all'' then Inr (c\<lparr>cf_case := None, cf_profile := All\<rparr>)
      else if arg = ''--interview'' then Inr (c\<lparr>cf_interview := True, cf_profile := Interview\<rparr>)
      else if arg = ''--campaign'' \<or> arg = ''--adversary'' then
        Inr (c\<lparr>cf_interview := True, cf_profile := Campaign\<rparr>)
      else if arg = ''--menu'' then Inr (c\<lparr>cf_menu := True\<rparr>)
      else if arg = ''--no-color'' then Inr (c\<lparr>cf_no_color := True\<rparr>)
      else if arg = ''--summary-only'' then Inr (c\<lparr>cf_summary_only := True\<rparr>)
      else if arg = ''--worker-execute-static-audit'' then Inr (c\<lparr>cf_worker_execute_static := True\<rparr>)
      else if arg = ''--help'' \<or> arg = ''-h'' then Inl (0, usage_lines)
      else Inl (2, [''unknown argument '' @ squote arg, ''use --help for usage'']))"

function parse_args :: "config \<Rightarrow> string list \<Rightarrow> stop + config" where
  "parse_args c [] = Inr c"
| "parse_args c (arg # rest) =
     (if arg \<in> set value_flags then
        (case require_value rest arg of
           Inl e \<Rightarrow> Inl e
         | Inr (v, rest') \<Rightarrow>
             (case value_flag c arg v of Inl e \<Rightarrow> Inl e | Inr c' \<Rightarrow> parse_args c' rest'))
      else (case switch_flag c arg of Inl e \<Rightarrow> Inl e | Inr c' \<Rightarrow> parse_args c' rest))"
  by pat_completeness auto
termination
  by (relation "measure (\<lambda>(c, args). length args)")
    (auto simp: require_value_def split: list.splits if_splits)

declare parse_args.simps(2) [simp del]

definition from_args :: "string list \<Rightarrow> stop + config" where
  "from_args args = parse_args config_default (drop 1 args)"

section \<open>Names\<close>

text \<open>
  The names the harness prints for its modes are names the command line accepts, for the
  same mode: parsing the name of an isolation mode or of a profile gives it back.
\<close>

theorem mode_names_roundtrip:
  "isolation_parse (isolation_name m) = Some m \<and> profile_parse (profile_name p) = Some p"
  by (cases m; cases p)
    (simp_all add: isolation_parse_def isolation_name_def profile_parse_def profile_name_def)

section \<open>Accepted configurations\<close>

definition config_wf :: "config \<Rightarrow> bool" where
  "config_wf c \<longleftrightarrow> 0 < cf_repeat c \<and> cf_repeat c \<le> usize_max \<and>
     (case cf_timeout_ms c of None \<Rightarrow> True | Some t \<Rightarrow> 0 < t) \<and> cf_tui_delay_ms c \<le> 2000 \<and>
     (if cf_output_format c = Text then True else cf_no_color c) \<and>
     (if cf_profile c = Interview then cf_interview c else True)"

lemma parse_digits_bound: "\<lbrakk>parse_digits m a s = Inr n; a \<le> m\<rbrakk> \<Longrightarrow> n \<le> m"
  by (induction m a s rule: parse_digits.induct) (auto split: option.splits if_splits)

lemma parse_positive_usize_ok: "parse_positive_usize v flag = Inr n \<Longrightarrow> 0 < n \<and> n \<le> usize_max"
  by (auto simp: parse_positive_usize_def parse_uint_def simp del: parse_digits.simps
      dest!: parse_digits_bound split: sum.splits if_splits list.splits)

lemma parse_positive_u64_ok: "parse_positive_u64 v flag = Inr n \<Longrightarrow> 0 < n"
  by (auto simp: parse_positive_u64_def split: sum.splits if_splits)

text \<open>The updates the flags make, each keeping the invariant.\<close>

lemma config_wf_neutral:
  "config_wf c \<Longrightarrow> config_wf (c\<lparr>cf_case := x\<rparr>)"
  "config_wf c \<Longrightarrow> config_wf (c\<lparr>cf_corpus_dir := x\<rparr>)"
  "config_wf c \<Longrightarrow> config_wf (c\<lparr>cf_emit_wasm_dir := x\<rparr>)"
  "config_wf c \<Longrightarrow> config_wf (c\<lparr>cf_list := b\<rparr>)"
  "config_wf c \<Longrightarrow> config_wf (c\<lparr>cf_menu := b\<rparr>)"
  "config_wf c \<Longrightarrow> config_wf (c\<lparr>cf_no_color := True\<rparr>)"
  "config_wf c \<Longrightarrow> config_wf (c\<lparr>cf_policy_path := x\<rparr>)"
  "config_wf c \<Longrightarrow> config_wf (c\<lparr>cf_allow_unmetered := b\<rparr>)"
  "config_wf c \<Longrightarrow> config_wf (c\<lparr>cf_isolation := m\<rparr>)"
  "config_wf c \<Longrightarrow> config_wf (c\<lparr>cf_report_path := x\<rparr>)"
  "config_wf c \<Longrightarrow> config_wf (c\<lparr>cf_summary_only := b\<rparr>)"
  "config_wf c \<Longrightarrow> config_wf (c\<lparr>cf_tui := b\<rparr>)"
  "config_wf c \<Longrightarrow> config_wf (c\<lparr>cf_backend := k\<rparr>)"
  "config_wf c \<Longrightarrow> config_wf (c\<lparr>cf_worker_case := x\<rparr>)"
  "config_wf c \<Longrightarrow> config_wf (c\<lparr>cf_worker_execute_static := b\<rparr>)"
  by (simp_all add: config_wf_def)

lemma config_wf_guarded:
  "config_wf c \<Longrightarrow> config_wf (c\<lparr>cf_profile := p, cf_interview := True\<rparr>)"
  "config_wf c \<Longrightarrow> config_wf (c\<lparr>cf_interview := True, cf_profile := p\<rparr>)"
  "config_wf c \<Longrightarrow> p \<noteq> Interview \<Longrightarrow> config_wf (c\<lparr>cf_profile := p\<rparr>)"
  "config_wf c \<Longrightarrow> config_wf (c\<lparr>cf_case := x, cf_profile := All\<rparr>)"
  "config_wf c \<Longrightarrow> config_wf (c\<lparr>cf_output_format := f, cf_no_color := True\<rparr>)"
  "config_wf c \<Longrightarrow> config_wf (c\<lparr>cf_output_format := Text\<rparr>)"
  "config_wf c \<Longrightarrow> 0 < t \<Longrightarrow> config_wf (c\<lparr>cf_timeout_ms := Some t\<rparr>)"
  "config_wf c \<Longrightarrow> d \<le> 2000 \<Longrightarrow> config_wf (c\<lparr>cf_tui_delay_ms := d\<rparr>)"
  "config_wf c \<Longrightarrow> 0 < n \<and> n \<le> usize_max \<Longrightarrow> config_wf (c\<lparr>cf_repeat := n\<rparr>)"
  "config_wf c \<Longrightarrow> 0 < n \<and> n \<le> usize_max \<Longrightarrow>
     config_wf (c\<lparr>cf_repeat := n, cf_summary_only := b\<rparr>)"
  by (simp_all add: config_wf_def)

lemma value_flag_wf: "value_flag c flag v = Inr c' \<Longrightarrow> config_wf c \<Longrightarrow> config_wf c'"
  unfolding value_flag_def
  by (elim if_InrE; clarsimp simp: result_bind_Inr Let_def config_wf_neutral config_wf_guarded
      parse_positive_usize_ok parse_positive_u64_ok split: if_split_asm option.splits sum.splits)

lemma switch_flag_wf: "switch_flag c arg = Inr c' \<Longrightarrow> config_wf c \<Longrightarrow> config_wf c'"
  unfolding switch_flag_def
  by (elim if_InrE; clarsimp simp: config_wf_neutral config_wf_guarded)

lemma parse_args_wf: "\<lbrakk>parse_args c args = Inr c'; config_wf c\<rbrakk> \<Longrightarrow> config_wf c'"
proof (induction c args rule: parse_args.induct)
  case (2 c arg rest)
  show ?case
  proof (cases "arg \<in> set value_flags")
    case True
    then obtain v rest' c1 where r: "require_value rest arg = Inr (v, rest')"
      "value_flag c arg v = Inr c1" "parse_args c1 rest' = Inr c'"
      using "2.prems"(1) by (auto simp: parse_args.simps(2) split: sum.splits)
    then show ?thesis using "2.IH"(1) [OF True r(1) refl r(2,3)] "2.prems"(2) value_flag_wf by blast
  next
    case False
    then obtain c1 where r: "switch_flag c arg = Inr c1" "parse_args c1 rest = Inr c'"
      using "2.prems"(1) by (auto simp: parse_args.simps(2) split: sum.splits)
    then show ?thesis using "2.IH"(2) [OF False r] "2.prems"(2) switch_flag_wf by blast
  qed
qed simp

text \<open>
  C20. Whatever the command line, a configuration the argument loop accepts is usable: the repeat
  count is positive and fits the machine word, a timeout is positive, the frame delay is at most
  two seconds, colours are off for every machine-readable format, and the interview profile
  comes with the interview presentation.
\<close>

theorem from_args_wf:
  assumes "from_args args = Inr c"
  shows "config_wf c"
  using assms parse_args_wf [of config_default "drop 1 args" c]
  by (simp add: from_args_def config_wf_def config_default_def usize_max_def)

theorem from_args_wf_witness:
  "config_wf (config_default\<lparr>cf_repeat := 9, cf_summary_only := True, cf_output_format := Json,
     cf_no_color := True\<rparr>)"
proof -
  have "from_args [''wasmer-demo'', ''--stress'', ''9'', ''--format'', ''json''] =
      Inr (config_default\<lparr>cf_repeat := 9, cf_summary_only := True, cf_output_format := Json,
        cf_no_color := True\<rparr>)" by code_simp
  then show ?thesis by (rule from_args_wf)
qed

end
