(* ===== verification/Guests.thy ===== *)
theory Guests
  imports Abi Config
begin

text \<open>
  The built-in guest corpus of \<open>src/guests.rs\<close>: the case table with its threat intelligence,
  lookup by name and the profiles. The WebAssembly text a case embeds at build time
  (\<open>include_str!\<close>) is the argument \<open>guest_file\<close>, from the file name to its contents; the
  conversion of text to a binary module is the argument \<open>wat_parse\<close>.
\<close>

section \<open>Cases\<close>

datatype case_kind = RunExport | GrowthProbe | StaticAudit

datatype guest_source = Wat string | Wasm "u8 list"

definition wasm_bytes :: "(string \<Rightarrow> string + u8 list) \<Rightarrow> guest_source \<Rightarrow> string + u8 list" where
  "wasm_bytes wat_parse s =
     (case s of
        Wat wat \<Rightarrow> map_err (\<lambda>e. ''WAT parse failed: '' @ e) (wat_parse wat)
      | Wasm bytes \<Rightarrow> Inr bytes)"

record guest_case =
  gc_name :: string
  gc_description :: string
  gc_expected_code :: i32
  gc_kind :: case_kind
  gc_category :: string
  gc_severity :: string
  gc_control :: string
  gc_stage :: string
  gc_ttp :: string
  gc_detection :: string
  gc_source_path :: string
  gc_source :: guest_source

section \<open>Threat intelligence\<close>

record threat_intel =
  ti_stage :: string
  ti_ttp :: string
  ti_detection :: string

definition intel :: "string \<Rightarrow> string \<Rightarrow> string \<Rightarrow> threat_intel" where
  "intel s t d = \<lparr>ti_stage = s, ti_ttp = t, ti_detection = d\<rparr>"

definition default_threat_intel :: "string \<Rightarrow> threat_intel" where
  "default_threat_intel category =
     (if category = ''abi'' then
       intel ''abi probing'' ''guest-host-contract-abuse''
         ''ABI gates reject malformed import arguments before host work''
      else if category = ''capability'' then
       intel ''capability escalation'' ''host-capability-abuse''
         ''capability policy denies ungranted host-side authority''
      else if category = ''resource'' then
       intel ''resource pressure'' ''sandbox-resource-exhaustion''
         ''resource gates deny CPU, memory, or allocation abuse''
      else if category = ''memory'' then
       intel ''memory-boundary probing'' ''guest-pointer-confusion''
         ''memory gates deny unsafe linear-memory access''
      else intel ''host-boundary validation'' ''host-import-abuse''
         ''host import telemetry records the boundary decision'')"

definition threat_intel_of :: "string \<Rightarrow> string \<Rightarrow> threat_intel" where
  "threat_intel_of name category =
     (if name = ''good_packet'' \<or> name = ''boundary_valid_packet'' \<or> name = ''capability_allowed'' then
       intel ''baseline'' ''positive-control''
         ''valid traffic proves controls are precise, not blanket-deny''
      else if name = ''bad_version'' then
       intel ''supply-chain validation'' ''abi-contract-drift''
         ''unsupported guest ABI version is denied before payload parsing''
      else if name = ''bad_magic'' \<or> name = ''truncated_header'' \<or> name = ''zero_length_packet'' then
       intel ''payload validation'' ''malformed-abi-message''
         ''fixed packet header gates reject malformed guest-controlled ranges''
      else if name = ''body_len_mismatch'' \<or> name = ''checksum_mismatch'' then
       intel ''payload integrity'' ''schema-confusion''
         ''nested packet length and checksum gates catch forged payload metadata''
      else if name = ''unaligned_packet'' \<or> name = ''invalid_align_param'' then
       intel ''abi probing'' ''misaligned-host-read''
         ''alignment gates reject invalid structured reads before memory access''
      else if name = ''ptr_len_overflow'' \<or> name = ''out_of_bounds'' then
       intel ''memory-boundary probing'' ''guest-pointer-confusion''
         ''checked arithmetic and MemoryView bounds gates deny unsafe ranges''
      else if name = ''memory_grow_probe'' then
       intel ''runtime state mutation'' ''linear-memory-growth''
         ''telemetry records memory growth and fresh MemoryView reacquisition''
      else if name = ''zero_copy_write_probe'' then
       intel ''host-boundary validation'' ''guest-pointer-output-buffer''
         ''host writes are scoped to validated MemoryView ranges and logged as direct memory writes''
      else if name = ''capability_escape'' \<or> name = ''path_traversal'' \<or> name = ''null_byte_capability'' then
       intel ''capability escalation'' ''host-capability-abuse''
         ''exact allow-list capability checks deny path escape attempts''
      else if name = ''invalid_utf8_path'' then
       intel ''capability escalation'' ''string-decoder-confusion''
         ''fallible UTF-8 decoding runs before capability policy decisions''
      else if name = ''cap_string_too_large'' then
       intel ''capability escalation'' ''oversized-string-copy''
         ''string length cap denies copy before host allocation''
      else if name = ''excessive_alloc'' then
       intel ''resource pressure'' ''host-allocation-pressure''
         ''allocation cap denies request before Vec reserve''
      else if name = ''cpu_metered_loop'' then
       intel ''resource pressure'' ''cooperative-cpu-exhaustion''
         ''host.tick fuel records guest progress and denies after budget exhaustion''
      else if name = ''non_cooperative_loop'' then
       intel ''containment validation'' ''unmetered-cpu-loop''
         ''static audit blocks in-process execution; supervisor can enforce timeout''
      else if name = ''excessive_memory'' then
       intel ''containment validation'' ''memory-declaration-abuse''
         ''module audit rejects over-large memory before instantiation''
      else default_threat_intel category)"

definition guest_path :: "string \<Rightarrow> string" where
  "guest_path name = ''guests/'' @ name @ ''.wat''"

definition case_of ::
  "string \<Rightarrow> string \<Rightarrow> i32 \<Rightarrow> case_kind \<Rightarrow> string \<Rightarrow> string \<Rightarrow> string \<Rightarrow> string \<Rightarrow> guest_case" where
  "case_of name description expected_code kind category severity control wat =
     (let i = threat_intel_of name category in
      \<lparr>gc_name = name, gc_description = description, gc_expected_code = expected_code,
       gc_kind = kind, gc_category = category, gc_severity = severity, gc_control = control,
       gc_stage = ti_stage i, gc_ttp = ti_ttp i, gc_detection = ti_detection i,
       gc_source_path = guest_path name, gc_source = Wat wat\<rparr>)"

section \<open>The case table\<close>

text \<open>The table in the order of the code, cut into four parts.\<close>

definition abi_cases :: "(string \<Rightarrow> string) \<Rightarrow> guest_case list" where
  "abi_cases guest_file =
    [case_of ''good_packet''
       ''valid repr(C)-style packet, aligned ptr, checked checksum''
       OK RunExport ''abi'' ''info''
       ''positive control: valid packet crosses the boundary''
       (guest_file ''../guests/good_packet.wat''),
     case_of ''boundary_valid_packet''
       ''valid packet placed near the end of linear memory''
       OK RunExport ''memory'' ''info''
       ''positive control: near-boundary reads are allowed only when fully in-bounds''
       (guest_file ''../guests/boundary_valid_packet.wat''),
     case_of ''unaligned_packet''
       ''guest passes ptr+1 with align=8''
       ERR_ALIGN RunExport ''abi'' ''high''
       ''reject misaligned structured ABI reads before touching memory''
       (guest_file ''../guests/unaligned_packet.wat''),
     case_of ''invalid_align_param''
       ''guest passes unsupported alignment value align=3''
       ERR_ALIGN RunExport ''abi'' ''medium''
       ''reject invalid ABI contracts rather than normalizing them silently''
       (guest_file ''../guests/invalid_align_param.wat'')]"

definition boundary_cases :: "(string \<Rightarrow> string) \<Rightarrow> guest_case list" where
  "boundary_cases guest_file =
    [case_of ''ptr_len_overflow''
       ''ptr + len wraps 32-bit linear-memory address space''
       ERR_BOUNDS RunExport ''memory'' ''critical''
       ''use checked_add for every guest-controlled pointer range''
       (guest_file ''../guests/ptr_len_overflow.wat''),
     case_of ''out_of_bounds''
       ''range fits u32 but exceeds current linear memory''
       ERR_BOUNDS RunExport ''memory'' ''critical''
       ''compare checked end offset against current MemoryView size''
       (guest_file ''../guests/out_of_bounds.wat''),
     case_of ''bad_magic''
       ''aligned and in-bounds packet with invalid ABI magic''
       ERR_HEADER RunExport ''abi'' ''medium''
       ''validate fixed header magic before interpreting payload''
       (guest_file ''../guests/bad_magic.wat''),
     case_of ''bad_version''
       ''valid magic with unsupported ABI version''
       ERR_HEADER RunExport ''abi'' ''medium''
       ''version explicit ABI formats and reject unsupported contracts''
       (guest_file ''../guests/bad_version.wat''),
     case_of ''body_len_mismatch''
       ''packet declares a body length that does not match payload bytes''
       ERR_HEADER RunExport ''abi'' ''high''
       ''validate nested lengths after the outer range has passed''
       (guest_file ''../guests/body_len_mismatch.wat''),
     case_of ''checksum_mismatch''
       ''packet body length is valid but checksum does not match''
       ERR_HEADER RunExport ''integrity'' ''medium''
       ''validate integrity fields after parsing little-endian layout''
       (guest_file ''../guests/checksum_mismatch.wat''),
     case_of ''packet_too_large''
       ''guest asks host to copy more bytes than ABI policy allows''
       ERR_TOO_LARGE RunExport ''resource'' ''high''
       ''cap host-side copies before allocating buffers''
       (guest_file ''../guests/packet_too_large.wat''),
     case_of ''truncated_header''
       ''guest points at too few bytes for the fixed ABI header''
       ERR_HEADER RunExport ''abi'' ''medium''
       ''minimum fixed-header length is checked before field reads''
       (guest_file ''../guests/truncated_header.wat''),
     case_of ''zero_length_packet''
       ''guest passes an empty range to a structured packet import''
       ERR_HEADER RunExport ''abi'' ''medium''
       ''zero-length ranges cannot bypass minimum header validation''
       (guest_file ''../guests/zero_length_packet.wat'')]"

definition capability_cases :: "(string \<Rightarrow> string) \<Rightarrow> guest_case list" where
  "capability_cases guest_file =
    [case_of ''capability_escape''
       ''guest asks host import for /etc/passwd without a capability''
       ERR_CAPABILITY RunExport ''capability'' ''critical''
       ''default deny: no host path access without explicit allow-list''
       (guest_file ''../guests/capability_escape.wat''),
     case_of ''path_traversal''
       ''guest tries a traversal-looking sandbox path''
       ERR_CAPABILITY RunExport ''capability'' ''high''
       ''capability strings are exact grants, not path-prefix guesses''
       (guest_file ''../guests/path_traversal.wat''),
     case_of ''capability_allowed''
       ''same import path shape, but with explicit allow-list capability''
       OK RunExport ''capability'' ''info''
       ''positive control: only the granted path is accepted''
       (guest_file ''../guests/capability_allowed.wat''),
     case_of ''null_byte_capability''
       ''guest embeds a NUL byte after an allowed-looking path prefix''
       ERR_CAPABILITY RunExport ''capability'' ''high''
       ''treat strings as length-delimited UTF-8, never C-string prefixes''
       (guest_file ''../guests/null_byte_capability.wat''),
     case_of ''invalid_utf8_path''
       ''guest sends non-UTF8 bytes into a string ABI''
       ERR_UTF8 RunExport ''capability'' ''medium''
       ''decode guest strings as fallible UTF-8 before policy decisions''
       (guest_file ''../guests/invalid_utf8_path.wat''),
     case_of ''cap_string_too_large''
       ''guest passes an oversized string length to a capability import''
       ERR_TOO_LARGE RunExport ''resource'' ''high''
       ''cap string lengths before copying guest memory''
       (guest_file ''../guests/cap_string_too_large.wat'')]"

definition resource_cases :: "(string \<Rightarrow> string) \<Rightarrow> guest_case list" where
  "resource_cases guest_file =
    [case_of ''excessive_alloc''
       ''guest tries to force a large host allocation through an import''
       ERR_ALLOC RunExport ''resource'' ''high''
       ''apply allocation caps before Vec reserve or host-side allocation''
       (guest_file ''../guests/excessive_alloc.wat''),
     case_of ''cpu_metered_loop''
       ''guest burns host fuel via tick import and gets stopped deterministically''
       ERR_BUDGET RunExport ''resource'' ''high''
       ''budget guest-driven host imports; using Singlepass for JIT-bomb protection''
       (guest_file ''../guests/cpu_metered_loop.wat''),
     case_of ''excessive_memory''
       ''guest requests more memory pages than policy allows''
       ERR_TOO_LARGE RunExport ''resource'' ''high''
       ''reject over-large memories during static module audit before instantiation''
       (guest_file ''../guests/excessive_memory.wat''),
     case_of ''non_cooperative_loop''
       ''guest has an infinite loop and no cooperative tick import''
       ERR_TIMEOUT StaticAudit ''resource'' ''high''
       ''reject unmetered modules before an in-process run can hang the host''
       (guest_file ''../guests/non_cooperative_loop.wat''),
     case_of ''memory_grow_probe''
       ''guest grows memory; host telemetry reacquires a fresh MemoryView''
       OK GrowthProbe ''memory'' ''high''
       ''drop stale MemoryView state and reacquire views after guest calls''
       (guest_file ''../guests/memory_grow_probe.wat''),
     case_of ''zero_copy_write_probe''
       ''host writes a marker directly into guest linear memory''
       OK RunExport ''memory'' ''info''
       ''positive control: host writes through a validated guest pointer without an intermediate buffer''
       (guest_file ''../guests/zero_copy_write_probe.wat'')]"

definition all_cases :: "(string \<Rightarrow> string) \<Rightarrow> guest_case list" where
  "all_cases guest_file = abi_cases guest_file @ boundary_cases guest_file @
     capability_cases guest_file @ resource_cases guest_file"

definition find_case :: "(string \<Rightarrow> string) \<Rightarrow> string \<Rightarrow> guest_case option" where
  "find_case guest_file name = find (\<lambda>c. gc_name c = name) (all_cases guest_file)"

section \<open>Profiles\<close>

definition interview_names :: "string list" where
  "interview_names =
    [''good_packet'', ''ptr_len_overflow'', ''invalid_align_param'',
     ''out_of_bounds'', ''body_len_mismatch'', ''checksum_mismatch'',
     ''capability_escape'', ''capability_allowed'', ''null_byte_capability'',
     ''excessive_alloc'', ''cpu_metered_loop'', ''non_cooperative_loop'',
     ''excessive_memory'', ''zero_length_packet'', ''memory_grow_probe'',
     ''zero_copy_write_probe'']"

definition interview_cases :: "(string \<Rightarrow> string) \<Rightarrow> guest_case list" where
  "interview_cases guest_file = List.map_filter (find_case guest_file) interview_names"

definition campaign_names :: "string list" where
  "campaign_names =
    [''good_packet'', ''bad_version'', ''body_len_mismatch'',
     ''checksum_mismatch'', ''ptr_len_overflow'', ''out_of_bounds'',
     ''capability_escape'', ''path_traversal'', ''null_byte_capability'',
     ''cap_string_too_large'', ''excessive_alloc'', ''cpu_metered_loop'',
     ''non_cooperative_loop'', ''excessive_memory'', ''memory_grow_probe'',
     ''zero_copy_write_probe'']"

definition campaign_cases :: "(string \<Rightarrow> string) \<Rightarrow> guest_case list" where
  "campaign_cases guest_file = List.map_filter (find_case guest_file) campaign_names"

definition cases_by_category :: "(string \<Rightarrow> string) \<Rightarrow> string list \<Rightarrow> guest_case list" where
  "cases_by_category guest_file categories =
     filter (\<lambda>c. gc_category c \<in> set categories) (all_cases guest_file)"

definition profile_cases :: "(string \<Rightarrow> string) \<Rightarrow> profile \<Rightarrow> guest_case list" where
  "profile_cases guest_file p =
     (case p of
        All \<Rightarrow> all_cases guest_file
      | Interview \<Rightarrow> interview_cases guest_file
      | Campaign \<Rightarrow> campaign_cases guest_file
      | AbiProfile \<Rightarrow> cases_by_category guest_file [''abi'', ''integrity'']
      | Capability \<Rightarrow> cases_by_category guest_file [''capability'']
      | Resource \<Rightarrow> cases_by_category guest_file [''resource'']
      | MemoryProfile \<Rightarrow> cases_by_category guest_file [''memory''])"

section \<open>Lookup\<close>

lemmas corpus_defs = all_cases_def abi_cases_def boundary_cases_def capability_cases_def
  resource_cases_def

lemma case_of_simps [simp]:
  "gc_name (case_of n d c k g s t w) = n" "gc_expected_code (case_of n d c k g s t w) = c"
  "gc_kind (case_of n d c k g s t w) = k" "gc_category (case_of n d c k g s t w) = g"
  "gc_source (case_of n d c k g s t w) = Wat w"
  "gc_source_path (case_of n d c k g s t w) = guest_path n"
  by (simp_all add: case_of_def Let_def)

definition corpus_names :: "string list" where
  "corpus_names =
  [''good_packet'', ''boundary_valid_packet'', ''unaligned_packet'',
   ''invalid_align_param'', ''ptr_len_overflow'', ''out_of_bounds'',
   ''bad_magic'', ''bad_version'', ''body_len_mismatch'',
   ''checksum_mismatch'', ''packet_too_large'', ''truncated_header'',
   ''zero_length_packet'', ''capability_escape'', ''path_traversal'',
   ''capability_allowed'', ''null_byte_capability'', ''invalid_utf8_path'',
   ''cap_string_too_large'', ''excessive_alloc'', ''cpu_metered_loop'',
   ''excessive_memory'', ''non_cooperative_loop'', ''memory_grow_probe'',
   ''zero_copy_write_probe'']"

lemma all_cases_names: "map gc_name (all_cases guest_file) = corpus_names"
  by (simp add: corpus_defs corpus_names_def)

lemma distinct_corpus_names: "distinct corpus_names"
  by (simp add: corpus_names_def)

lemma find_by_name:
  assumes "distinct (map f xs)" and "x \<in> set xs"
  shows "find (\<lambda>y. f y = f x) xs = Some x"
  using assms by (induction xs) (auto simp: image_iff)

lemma find_case_member: "c \<in> set (all_cases guest_file) \<Longrightarrow> find_case guest_file (gc_name c) = Some c"
  using find_by_name [of gc_name "all_cases guest_file" c] distinct_corpus_names
  by (simp add: find_case_def all_cases_names)

lemma find_case_Some: "find_case guest_file n = Some c \<Longrightarrow> c \<in> set (all_cases guest_file) \<and> gc_name c = n"
  by (auto simp: find_case_def find_Some_iff)

lemma find_case_known: "find_case guest_file n \<noteq> None \<longleftrightarrow> n \<in> set corpus_names"
  using all_cases_names [of guest_file]
  by (auto simp: find_case_def find_None_iff simp flip: all_cases_names [of guest_file])

text \<open>
  The name of a built-in case is its key: looking up the name of each case of the table, in
  order, gives that very case, and the lookup succeeds for exactly the 25 names of the table.
\<close>

theorem find_case_keys:
  "map (\<lambda>c. find_case guest_file (gc_name c)) (all_cases guest_file) =
     map Some (all_cases guest_file) \<and>
   (find_case guest_file n \<noteq> None \<longleftrightarrow> n \<in> set corpus_names)"
  using find_case_member find_case_known by simp

lemma map_filter_names:
  assumes "list_all (\<lambda>n. n \<in> set corpus_names) ns"
  shows "map gc_name (List.map_filter (find_case guest_file) ns) = ns"
  using assms
proof (induction ns)
  case (Cons n ns)
  then obtain c where "find_case guest_file n = Some c" "gc_name c = n"
    using find_case_known [of guest_file n] find_case_Some [of guest_file n] by auto
  then show ?case using Cons by (simp add: List.map_filter_simps)
qed (simp add: List.map_filter_simps)

lemma map_filter_member:
  "c \<in> set (List.map_filter (find_case guest_file) ns) \<Longrightarrow> c \<in> set (all_cases guest_file)"
  using find_case_Some by (auto simp: List.map_filter_def)

lemma curated_names:
  "map gc_name (interview_cases guest_file) = interview_names"
  "map gc_name (campaign_cases guest_file) = campaign_names"
  unfolding interview_cases_def campaign_cases_def
  by (rule map_filter_names, simp add: interview_names_def campaign_names_def corpus_names_def)+

text \<open>The category of a case decides which of the four category profiles runs it.\<close>

definition category_profiles :: "profile list" where
  "category_profiles = [AbiProfile, Capability, Resource, MemoryProfile]"

lemma category_once:
  "list_all (\<lambda>c. length (filter (\<lambda>p. c \<in> set (profile_cases guest_file p)) category_profiles) = 1)
     (all_cases guest_file)"
proof -
  have "gc_category c \<in> {''abi'', ''integrity'', ''capability'', ''resource'', ''memory''}"
    if "c \<in> set (all_cases guest_file)" for c
    using that by (auto simp: corpus_defs)
  then show ?thesis
    by (fastforce simp: list_all_iff category_profiles_def profile_cases_def cases_by_category_def)
qed

text \<open>
  No profile loses or invents a case. The interview and campaign lists name only cases that
  exist, so each runs all its sixteen, in the listed order; every profile runs cases of the
  table; and each case of the table is in exactly one of the four category profiles.
\<close>

theorem profiles_cover_corpus:
  "map gc_name (profile_cases guest_file Interview) = interview_names \<and>
   map gc_name (profile_cases guest_file Campaign) = campaign_names \<and>
   set (profile_cases guest_file p) \<subseteq> set (all_cases guest_file) \<and>
   list_all (\<lambda>c. length (filter (\<lambda>p. c \<in> set (profile_cases guest_file p)) category_profiles) = 1)
     (all_cases guest_file)"
proof -
  have "set (profile_cases guest_file p) \<subseteq> set (all_cases guest_file)"
    using map_filter_member
    by (cases p) (auto simp: profile_cases_def cases_by_category_def interview_cases_def
        campaign_cases_def)
  then show ?thesis
    using curated_names category_once by (simp add: profile_cases_def del: distinct.simps)
qed

end
