(* ===== verification/Host_Imports.thy ===== *)
theory Host_Imports
  imports Guest_Memory Policy
begin

text \<open>
  The host functions a guest may call, from \<open>src/runner.rs\<close>: the state behind them, the five
  handlers with the evidence each logs, and the contract they share.
\<close>

section \<open>State\<close>

text \<open>
  \<open>HostState\<close>. The code keeps an optional handle to the guest's exported memory; the bytes are
  in the engine's store. Here the handle is a flag and the machine holds the bytes beside the
  host state, so the view a handler takes is \<open>memory_view\<close>. Elapsed times are arguments.
\<close>

record host_state =
  hs_memory :: bool
  hs_policy :: policy
  hs_telemetry :: telemetry
  hs_fuel_remaining :: u32

record machine =
  mc_host :: host_state
  mc_memory :: guest_memory

definition host_state_new :: "policy \<Rightarrow> host_state" where
  "host_state_new p = \<lparr>hs_memory = False, hs_policy = p, hs_telemetry = telemetry_default,
     hs_fuel_remaining = initial_fuel p\<rparr>"

definition memory_view :: "machine \<Rightarrow> guest_memory option" where
  "memory_view s = (if hs_memory (mc_host s) then Some (mc_memory s) else None)"

definition record_event :: "import_event \<Rightarrow> machine \<Rightarrow> machine" where
  "record_event e s = s\<lparr>mc_host := (mc_host s)\<lparr>hs_telemetry :=
     telemetry_push e (hs_telemetry (mc_host s))\<rparr>\<rparr>"

abbreviation log_of :: "machine \<Rightarrow> import_event list" where
  "log_of s \<equiv> events (hs_telemetry (mc_host s))"

abbreviation ticks_of :: "machine \<Rightarrow> u32" where
  "ticks_of s \<equiv> ticks_seen (hs_telemetry (mc_host s))"

abbreviation fuel_of :: "machine \<Rightarrow> u32" where
  "fuel_of s \<equiv> hs_fuel_remaining (mc_host s)"

abbreviation policy_of :: "machine \<Rightarrow> policy" where
  "policy_of s \<equiv> hs_policy (mc_host s)"

lemma record_event_simps [simp]:
  "log_of (record_event e s) = log_of s @ [e]"
  "ticks_of (record_event e s) = ticks_of s"
  "fuel_of (record_event e s) = fuel_of s"
  "policy_of (record_event e s) = policy_of s"
  "hs_memory (mc_host (record_event e s)) = hs_memory (mc_host s)"
  "mc_memory (record_event e s) = mc_memory s"
  by (simp_all add: record_event_def)

section \<open>Outcomes\<close>

text \<open>Result code, memory size, gates and detail, as the handlers' closures return them.\<close>

type_synonym outcome = "i32 \<times> u64 option \<times> gate list \<times> string"

definition range_rejected :: "guest_access_err \<Rightarrow> outcome" where
  "range_rejected r = (case r of (err, memory_size, gates) \<Rightarrow>
     (abi_error_code err, memory_size, gates, ''range rejected: '' @ abi_error_display err))"

definition validate_packet_from_guest :: "guest_bytes \<Rightarrow> outcome" where
  "validate_packet_from_guest g =
     (case parse_packet (gb_bytes g) of
        Inr pk \<Rightarrow>
          (OK, Some (gb_memory_size g),
           gb_gates g @ [gate_pass ''packet.header''] @ [gate_pass ''packet.checksum''],
           ''packet ptr=0x'' @ hex8 (gr_ptr (gb_range g)) @ '' end=0x'' @ hex8 (gr_end (gb_range g)) @
           '' version='' @ show_nat (unat (pk_version pk)) @
           '' flags=0x'' @ hex_pad 4 (unat (pk_flags pk)) @
           '' body_len='' @ show_u32 (pk_body_len pk) @ '' checksum=0x'' @ hex8 (pk_checksum pk))
      | Inl err \<Rightarrow>
          (abi_error_code err, Some (gb_memory_size g), gb_gates g @ [gate_fail (abi_error_gate err)],
           ''packet rejected: '' @ abi_error_display err))"

definition validate_capability_from_guest :: "policy \<Rightarrow> guest_bytes \<Rightarrow> outcome" where
  "validate_capability_from_guest p g =
     (case from_utf8 (gb_bytes g) of
        Some path \<Rightarrow>
          (if is_path_allowed p path then
             (OK, Some (gb_memory_size g), gb_gates g @ [gate_pass ''utf8''] @ [gate_pass ''capability''],
              ''path capability allowed ptr=0x'' @ hex8 (gr_ptr (gb_range g)) @
              '' end=0x'' @ hex8 (gr_end (gb_range g)) @ '' path='' @ path)
           else
             (let err = CapabilityDenied path in
              (abi_error_code err, Some (gb_memory_size g),
               gb_gates g @ [gate_pass ''utf8''] @ [gate_fail (abi_error_gate err)],
               ''path rejected: '' @ abi_error_display err)))
      | None \<Rightarrow>
          (let err = InvalidUtf8 in
           (abi_error_code err, Some (gb_memory_size g), gb_gates g @ [gate_fail (abi_error_gate err)],
            ''string rejected: '' @ abi_error_display err)))"

definition HOST_WRITE_MARKER :: "u8 list" where
  "HOST_WRITE_MARKER = [0x57, 0x53, 0x45, 0x43]"

definition write_marker_to_guest :: "guest_bytes \<Rightarrow> outcome \<times> u8 list" where
  "write_marker_to_guest g =
     (if length (gb_bytes g) \<noteq> length HOST_WRITE_MARKER then
        ((ERR_HEADER, Some (gb_memory_size g), gb_gates g @ [gate_fail ''marker.len''],
          ''marker write rejected: len='' @ show_nat (length (gb_bytes g)) @
          '' required='' @ show_nat (length HOST_WRITE_MARKER)), gb_bytes g)
      else
        ((OK, Some (gb_memory_size g), gb_gates g @ [gate_pass ''marker.write''],
          ''marker written directly into guest memory ptr=0x'' @ hex8 (gr_ptr (gb_range g)) @
          '' end=0x'' @ hex8 (gr_end (gb_range g))), HOST_WRITE_MARKER))"

section \<open>Handlers\<close>

definition access_event ::
  "string \<Rightarrow> u32 \<Rightarrow> u32 \<Rightarrow> u32 \<Rightarrow> nat \<Rightarrow> outcome \<Rightarrow> import_event" where
  "access_event imp ptr len align us outc = (case outc of (result, memory_size, gates, detail) \<Rightarrow>
     \<lparr>ev_import = imp, ev_ptr = Some ptr, ev_len = Some len, ev_align = Some align,
      ev_memory_size = memory_size, ev_result_code = result, ev_detail = detail,
      ev_elapsed_us = us, ev_gates = gates\<rparr>)"

definition host_accept_packet ::
  "u32 \<Rightarrow> u32 \<Rightarrow> u32 \<Rightarrow> nat \<Rightarrow> machine \<Rightarrow> i32 \<times> machine" where
  "host_accept_packet ptr len align us s =
     (let outc = (case with_guest_bytes (memory_view s) ptr len align (max_packet_len (policy_of s))
                    validate_packet_from_guest of
                  Inr o' \<Rightarrow> o' | Inl r \<Rightarrow> range_rejected r)
      in (fst outc, record_event (access_event ''host.accept_packet'' ptr len align us outc) s))"

definition host_read_cap :: "u32 \<Rightarrow> u32 \<Rightarrow> nat \<Rightarrow> machine \<Rightarrow> i32 \<times> machine" where
  "host_read_cap ptr len us s =
     (let outc = (case with_guest_bytes (memory_view s) ptr len 1 (max_cap_string_len (policy_of s))
                    (validate_capability_from_guest (policy_of s)) of
                  Inr o' \<Rightarrow> o' | Inl r \<Rightarrow> range_rejected r)
      in (fst outc, record_event (access_event ''host.read_cap'' ptr len 1 us outc) s))"

definition host_write_marker ::
  "u32 \<Rightarrow> u32 \<Rightarrow> u32 \<Rightarrow> nat \<Rightarrow> machine \<Rightarrow> i32 \<times> machine" where
  "host_write_marker ptr len align us s =
     (let (outc, m') = (case with_guest_bytes_mut (memory_view s) ptr len align
                          (word_of_nat (length HOST_WRITE_MARKER)) write_marker_to_guest of
                        Inr (o', m') \<Rightarrow> (o', m') | Inl r \<Rightarrow> (range_rejected r, mc_memory s))
      in (fst outc, record_event (access_event ''host.write_marker'' ptr len align us outc)
                      (s\<lparr>mc_memory := m'\<rparr>)))"

definition host_alloc_cap :: "u32 \<Rightarrow> nat \<Rightarrow> machine \<Rightarrow> i32 \<times> machine" where
  "host_alloc_cap requested us s =
     (let (result, gates, detail) =
        (if max_alloc (policy_of s) < requested then
           (let err = AllocationTooLarge requested (max_alloc (policy_of s)) in
            (abi_error_code err, [gate_fail (abi_error_gate err)],
             ''allocation rejected before Vec reserve: '' @ abi_error_display err))
         else
           (OK, [gate_pass ''alloc.cap''],
            ''allocation request '' @ show_u32 requested @ '' within cap '' @
            show_u32 (max_alloc (policy_of s))))
      in (result, record_event
           \<lparr>ev_import = ''host.alloc_cap'', ev_ptr = None, ev_len = Some requested, ev_align = None,
            ev_memory_size = None, ev_result_code = result, ev_detail = detail,
            ev_elapsed_us = us, ev_gates = gates\<rparr> s))"

definition should_record_tick :: "u32 \<Rightarrow> i32 \<Rightarrow> bool" where
  "should_record_tick tick result \<longleftrightarrow> result \<noteq> OK \<or> tick \<le> 5 \<or> is_multiple_of tick 64"

definition count_tick :: "machine \<Rightarrow> machine" where
  "count_tick s = s\<lparr>mc_host := (mc_host s)\<lparr>hs_telemetry := (hs_telemetry (mc_host s))
     \<lparr>ticks_seen := saturating_add (ticks_of s) 1\<rparr>\<rparr>\<rparr>"

definition burn_fuel :: "machine \<Rightarrow> machine" where
  "burn_fuel s = s\<lparr>mc_host := (mc_host s)\<lparr>hs_fuel_remaining := fuel_of s - 1\<rparr>\<rparr>"

definition host_tick :: "nat \<Rightarrow> machine \<Rightarrow> i32 \<times> machine" where
  "host_tick us s0 =
     (let s = count_tick s0;
          (result, gates, detail, s) =
            (if fuel_of s = 0 then
               (let err = BudgetExhausted in
                (abi_error_code err, [gate_fail (abi_error_gate err)],
                 ''fuel exhausted after '' @ show_u32 (ticks_of s) @ '' guest ticks'', s))
             else
               (let s = burn_fuel s in
                (OK, [gate_pass ''fuel''],
                 ''fuel tick='' @ show_u32 (ticks_of s) @ '' remaining='' @ show_u32 (fuel_of s), s)))
      in (result,
          if should_record_tick (ticks_of s) result then
            record_event
              \<lparr>ev_import = ''host.tick'', ev_ptr = None, ev_len = None, ev_align = None,
               ev_memory_size = None, ev_result_code = result, ev_detail = detail,
               ev_elapsed_us = us, ev_gates = gates\<rparr> s
          else s))"

lemma tick_state_simps [simp]:
  "log_of (count_tick s) = log_of s" "log_of (burn_fuel s) = log_of s"
  "ticks_of (count_tick s) = saturating_add (ticks_of s) 1" "ticks_of (burn_fuel s) = ticks_of s"
  "fuel_of (count_tick s) = fuel_of s" "fuel_of (burn_fuel s) = fuel_of s - 1"
  "policy_of (count_tick s) = policy_of s" "policy_of (burn_fuel s) = policy_of s"
  "hs_memory (mc_host (count_tick s)) = hs_memory (mc_host s)"
  "hs_memory (mc_host (burn_fuel s)) = hs_memory (mc_host s)"
  "mc_memory (count_tick s) = mc_memory s" "mc_memory (burn_fuel s) = mc_memory s"
  by (simp_all add: count_tick_def burn_fuel_def)

section \<open>The contract of a host import\<close>

text \<open>
  An event is consistent when it allows exactly if all its gates passed. The fuel account is
  balanced when what is left is the budget less the ticks counted (nothing, once the ticks have
  used it up).
\<close>

definition event_consistent :: "import_event \<Rightarrow> bool" where
  "event_consistent e \<longleftrightarrow> (ev_result_code e = OK \<longleftrightarrow> all_passed (ev_gates e))"

definition fuel_balanced :: "machine \<Rightarrow> bool" where
  "fuel_balanced s \<longleftrightarrow> unat (fuel_of s) = unat (initial_fuel (policy_of s)) - unat (ticks_of s)"

definition same_shape :: "guest_memory \<Rightarrow> guest_memory \<Rightarrow> bool" where
  "same_shape m m' \<longleftrightarrow> length (gm_bytes m') = length (gm_bytes m) \<and> gm_base m' = gm_base m"

lemma same_shape_refl [simp]: "same_shape m m"
  by (simp add: same_shape_def)

locale host_import =
  fixes call :: "'a \<Rightarrow> nat \<Rightarrow> machine \<Rightarrow> i32 \<times> machine"
  assumes authority: "call a us s = (r, s') \<Longrightarrow>
      policy_of s' = policy_of s \<and> hs_memory (mc_host s') = hs_memory (mc_host s)"
    and evidence: "call a us s = (r, s') \<Longrightarrow>
      (log_of s' = log_of s \<and> r = OK) \<or>
      (\<exists>e. log_of s' = log_of s @ [e] \<and> ev_result_code e = r \<and> event_consistent e)"
    and budget: "\<lbrakk>call a us s = (r, s'); fuel_balanced s\<rbrakk> \<Longrightarrow> fuel_balanced s'"
    and shape: "\<lbrakk>call a us s = (r, s'); wf_memory (mc_memory s)\<rbrakk> \<Longrightarrow>
      same_shape (mc_memory s) (mc_memory s')"
    and denied_no_write: "\<lbrakk>call a us s = (r, s'); wf_memory (mc_memory s); r \<noteq> OK\<rbrakk> \<Longrightarrow>
      mc_memory s' = mc_memory s"
begin

lemma wf_kept: "\<lbrakk>call a us s = (r, s'); wf_memory (mc_memory s)\<rbrakk> \<Longrightarrow> wf_memory (mc_memory s')"
  using shape by (auto simp: wf_memory_def same_shape_def)

lemma denial_logged:
  "\<lbrakk>call a us s = (r, s'); r \<noteq> OK\<rbrakk> \<Longrightarrow>
   \<exists>e. log_of s' = log_of s @ [e] \<and> decision e = ''DENY'' \<and> \<not> all_passed (ev_gates e)"
  using evidence by (fastforce simp: event_consistent_def decision_def)

lemma log_extends: "call a us s = (r, s') \<Longrightarrow> prefix (log_of s) (log_of s')"
  using evidence by (fastforce simp: prefix_def)

lemma log_consistent:
  "\<lbrakk>call a us s = (r, s'); list_all event_consistent (log_of s)\<rbrakk> \<Longrightarrow>
   list_all event_consistent (log_of s')"
  using evidence [of a us s r s'] by auto

end

section \<open>The five imports keep it\<close>

text \<open>An outcome is fair when its code is OK exactly if all its gates passed.\<close>

definition fair :: "outcome \<Rightarrow> bool" where
  "fair outc = (case outc of (r, sz, gates, detail) \<Rightarrow> (r = OK \<longleftrightarrow> all_passed gates))"

lemma fair_range_rejected: "\<not> all_passed gates \<Longrightarrow> fair (range_rejected (e, sz, gates))"
  by (simp add: fair_def range_rejected_def)

lemma fair_packet: "all_passed (gb_gates g) \<Longrightarrow> fair (validate_packet_from_guest g)"
  by (simp add: fair_def validate_packet_from_guest_def split: sum.splits)

lemma fair_capability: "all_passed (gb_gates g) \<Longrightarrow> fair (validate_capability_from_guest p g)"
  by (simp add: fair_def validate_capability_from_guest_def Let_def code_defs split: option.splits)

lemma fair_marker: "all_passed (gb_gates g) \<Longrightarrow> fair (fst (write_marker_to_guest g))"
  by (simp add: fair_def write_marker_to_guest_def code_defs)

lemma fair_event: "fair outc \<Longrightarrow> event_consistent (access_event imp ptr len align us outc)"
  by (auto simp: fair_def event_consistent_def access_event_def)

lemma access_event_code [simp]: "ev_result_code (access_event imp ptr len align us outc) = fst outc"
  by (cases outc) (auto simp: access_event_def)

lemma fair_read:
  assumes "\<And>g. all_passed (gb_gates g) \<Longrightarrow> fair (read g)"
  shows "fair (case with_guest_bytes m ptr len align max_len read of
    Inr o' \<Rightarrow> o' | Inl r \<Rightarrow> range_rejected r)"
proof (cases "with_guest_bytes m ptr len align max_len read")
  case (Inl r)
  then show ?thesis
    using with_guest_bytes_refused by (cases r) (fastforce intro: fair_range_rejected)
next
  case (Inr o')
  then show ?thesis using with_guest_bytes_granted [OF Inr] assms by auto
qed

lemma fair_write:
  assumes "\<And>g. all_passed (gb_gates g) \<Longrightarrow> fair (fst (write g))"
  shows "fair (fst (case with_guest_bytes_mut m ptr len align max_len write of
    Inr (o', m') \<Rightarrow> (o', m') | Inl r \<Rightarrow> (range_rejected r, mem)))"
proof (cases "with_guest_bytes_mut m ptr len align max_len write")
  case (Inl r)
  then show ?thesis
    using with_guest_bytes_mut_refused by (cases r) (fastforce intro: fair_range_rejected)
next
  case (Inr p)
  then show ?thesis using with_guest_bytes_mut_granted assms by (cases p) fastforce
qed

lemma fuel_balanced_record [simp]: "fuel_balanced (record_event e s) = fuel_balanced s"
  by (simp add: fuel_balanced_def)

lemma host_accept_packet_event:
  "host_accept_packet ptr len align us s = (r, s') \<Longrightarrow>
   \<exists>e. s' = record_event e s \<and> ev_result_code e = r \<and> event_consistent e"
  unfolding host_accept_packet_def Let_def prod.inject
  by (elim conjE, intro exI conjI, erule sym, simp, rule fair_event [OF fair_read [OF fair_packet]])

lemma host_read_cap_event:
  "host_read_cap ptr len us s = (r, s') \<Longrightarrow>
   \<exists>e. s' = record_event e s \<and> ev_result_code e = r \<and> event_consistent e"
  unfolding host_read_cap_def Let_def prod.inject
  by (elim conjE, intro exI conjI, erule sym, simp, rule fair_event [OF fair_read [OF fair_capability]])

lemma host_alloc_cap_event:
  "host_alloc_cap n us s = (r, s') \<Longrightarrow>
   \<exists>e. s' = record_event e s \<and> ev_result_code e = r \<and> event_consistent e"
  unfolding host_alloc_cap_def Let_def case_prod_unfold prod.inject
  by (elim conjE, intro exI conjI, erule sym, simp)
    (cases "max_alloc (policy_of s) < n"; simp add: event_consistent_def code_defs)

lemma host_write_marker_event:
  assumes "host_write_marker ptr len align us s = (r, s')"
  shows "\<exists>e m'. s' = record_event e (s\<lparr>mc_memory := m'\<rparr>) \<and> ev_result_code e = r \<and> event_consistent e"
proof -
  obtain outc m' where o: "(case with_guest_bytes_mut (memory_view s) ptr len align
      (word_of_nat (length HOST_WRITE_MARKER)) write_marker_to_guest of
    Inr (o', m') \<Rightarrow> (o', m') | Inl r \<Rightarrow> (range_rejected r, mc_memory s)) = (outc, m')"
    by (rule prod.exhaust)
  have f: "fair outc"
    using fair_write [of write_marker_to_guest "mc_memory s" "memory_view s" ptr len align
      "word_of_nat (length HOST_WRITE_MARKER)"] fair_marker unfolding o by simp
  have s': "s' = record_event (access_event ''host.write_marker'' ptr len align us outc) (s\<lparr>mc_memory := m'\<rparr>)"
    and r: "fst outc = r"
    using assms unfolding host_write_marker_def o Let_def by simp_all
  show ?thesis
    by (intro exI conjI, rule s') (simp_all add: r fair_event [OF f])
qed

interpretation accept_packet_import: host_import "\<lambda>(ptr, len, align). host_accept_packet ptr len align"
  by unfold_locales (auto dest!: host_accept_packet_event)

interpretation read_cap_import: host_import "\<lambda>(ptr, len). host_read_cap ptr len"
  by unfold_locales (auto dest!: host_read_cap_event)

interpretation alloc_cap_import: host_import host_alloc_cap
  by unfold_locales (auto dest!: host_alloc_cap_event)

lemma put_same_slice: "s + l \<le> length xs \<Longrightarrow> put_range xs s (take l (drop s xs)) = xs"
  by (simp add: put_range_def) (metis add.commute append_take_drop_id drop_drop)

lemma write_marker_slice: "slice_writer write_marker_to_guest"
  by (simp add: slice_writer_def write_marker_to_guest_def)

lemma host_write_marker_memory:
  assumes c: "host_write_marker ptr len align us s = (r, s')" and wf: "wf_memory (mc_memory s)"
  shows "same_shape (mc_memory s) (mc_memory s') \<and> (r \<noteq> OK \<longrightarrow> mc_memory s' = mc_memory s)"
proof (cases "with_guest_bytes_mut (memory_view s) ptr len align
    (word_of_nat (length HOST_WRITE_MARKER)) write_marker_to_guest")
  case (Inl e)
  then show ?thesis using c by (auto simp: host_write_marker_def Let_def)
next
  case (Inr p)
  obtain outc m' where p: "p = (outc, m')" by (cases p)
  from Inr have v: "memory_view s = Some (mc_memory s)"
    by (auto simp: memory_view_def with_guest_bytes_mut_def split: if_splits)
  have s': "mc_memory s' = m'" "r = fst outc"
    using c unfolding host_write_marker_def Inr p Let_def by auto
  note ok = Inr [unfolded v p]
  obtain rng where
    rng: "checked_guest_range ptr len align (data_size (mc_memory s))
      (word_of_nat (length HOST_WRITE_MARKER)) = Inr rng"
    using ok [unfolded with_guest_bytes_mut_cases [OF wf]] by (auto split: sum.splits)
  let ?g = "\<lparr>gb_bytes = access_slice (mc_memory s) ptr len, gb_range = rng,
    gb_memory_size = data_size (mc_memory s), gb_gates = passed_gates ''memory.write''\<rparr>"
  have w: "outc = fst (write_marker_to_guest ?g)"
    "m' = (mc_memory s)\<lparr>gm_bytes := put_range (gm_bytes (mc_memory s)) (unat ptr)
       (snd (write_marker_to_guest ?g))\<rparr>"
    using ok by (simp_all add: with_guest_bytes_mut_cases [OF wf] rng case_prod_unfold Let_def)
  have len: "length (snd (write_marker_to_guest ?g)) = unat len"
    using abi_range.accepted_length [OF rng wf] write_marker_slice
    by (simp add: slice_writer_def access_slice_def)
  have "same_shape (mc_memory s) m'"
    using abi_range.accepted_write_length [OF rng wf len] w(2) by (simp add: same_shape_def)
  moreover have "m' = mc_memory s" if "r \<noteq> OK"
  proof -
    have "snd (write_marker_to_guest ?g) = access_slice (mc_memory s) ptr len"
      using that s'(2) w(1) by (auto simp: write_marker_to_guest_def)
    moreover have "unat ptr + unat len \<le> length (gm_bytes (mc_memory s))"
      using abi_range.check_inside [OF rng] unat_data_size [OF wf] by simp
    ultimately show ?thesis by (simp add: w(2) access_slice_def put_same_slice)
  qed
  ultimately show ?thesis using s'(1) by simp
qed

lemma host_write_marker_authority:
  assumes "host_write_marker ptr len align us s = (r, s')"
  shows "policy_of s' = policy_of s \<and> hs_memory (mc_host s') = hs_memory (mc_host s) \<and>
    fuel_of s' = fuel_of s \<and> ticks_of s' = ticks_of s"
  using host_write_marker_event [OF assms] by auto

interpretation write_marker_import:
  host_import "\<lambda>(ptr, len, align). host_write_marker ptr len align"
proof (unfold_locales, goal_cases)
  case (1 a us s r s')
  then show ?case using host_write_marker_authority by (auto split: prod.splits)
next
  case (2 a us s r s')
  then show ?case by (auto dest!: host_write_marker_event split: prod.splits)
next
  case (3 a us s r s')
  then show ?case using host_write_marker_authority
    by (fastforce simp: fuel_balanced_def split: prod.splits)
next
  case (4 a us s r s')
  then show ?case using host_write_marker_memory by (auto split: prod.splits)
next
  case (5 a us s r s')
  then show ?case using host_write_marker_memory by (auto split: prod.splits)
qed

lemma host_tick_cases:
  obtains (denied) e where "fuel_of s = 0" "host_tick us s = (ERR_BUDGET, record_event e (count_tick s))"
      "ev_result_code e = ERR_BUDGET" "event_consistent e"
  | (logged) e where "fuel_of s \<noteq> 0"
      "host_tick us s = (OK, record_event e (burn_fuel (count_tick s)))"
      "ev_result_code e = OK" "event_consistent e"
  | (silent) "fuel_of s \<noteq> 0" "host_tick us s = (OK, burn_fuel (count_tick s))"
proof (cases "fuel_of s = 0")
  case True
  then show thesis
    by (intro denied) (auto simp: host_tick_def Let_def should_record_tick_def event_consistent_def code_defs)
next
  case False
  show thesis
  proof (cases "should_record_tick (saturating_add (ticks_of s) 1) OK")
    case True
    then show thesis using False
      by (intro logged) (auto simp: host_tick_def Let_def event_consistent_def)
  next
    case silence: False
    then show thesis using False by (intro silent) (auto simp: host_tick_def Let_def)
  qed
qed

lemma fuel_balanced_tick:
  assumes "fuel_balanced s"
  shows "fuel_of s = 0 \<Longrightarrow> fuel_balanced (count_tick s)"
    and "fuel_of s \<noteq> 0 \<Longrightarrow> fuel_balanced (burn_fuel (count_tick s))"
proof -
  assume "fuel_of s = 0"
  then show "fuel_balanced (count_tick s)"
    using assms unat_u32_le [of "initial_fuel (policy_of s)"]
    by (simp add: fuel_balanced_def unat_saturating_add del: unat_u32_le)
next
  assume f: "fuel_of s \<noteq> 0"
  then have "1 \<le> unat (fuel_of s)" by (simp add: Suc_le_eq unat_gt_0)
  then have "unat (fuel_of s - 1) = unat (fuel_of s) - 1"
    by (simp add: unat_sub word_le_nat_alt)
  moreover have "unat (ticks_of s) < unat (initial_fuel (policy_of s))"
    using assms \<open>1 \<le> unat (fuel_of s)\<close> by (simp add: fuel_balanced_def)
  ultimately show "fuel_balanced (burn_fuel (count_tick s))"
    using assms unat_u32_le [of "initial_fuel (policy_of s)"]
    by (simp add: fuel_balanced_def unat_saturating_add del: unat_u32_le)
qed

interpretation tick_import: host_import "\<lambda>_ :: unit. host_tick"
proof (unfold_locales, goal_cases)
  case (1 a us s r s')
  then show ?case by (cases rule: host_tick_cases [of s us]) auto
next
  case (2 a us s r s')
  then show ?case by (cases rule: host_tick_cases [of s us]) auto
next
  case (3 a us s r s')
  then show ?case
    by (cases rule: host_tick_cases [of s us]) (auto simp: fuel_balanced_tick)
next
  case (4 a us s r s')
  then show ?case by (cases rule: host_tick_cases [of s us]) auto
next
  case (5 a us s r s')
  then show ?case by (cases rule: host_tick_cases [of s us]) auto
qed

section \<open>The import table\<close>

datatype host_call =
    AcceptPacket u32 u32 u32
  | ReadCap u32 u32
  | AllocCap u32
  | WriteMarker u32 u32 u32
  | Tick

fun host_dispatch :: "host_call \<Rightarrow> nat \<Rightarrow> machine \<Rightarrow> i32 \<times> machine" where
  "host_dispatch (AcceptPacket ptr len align) = host_accept_packet ptr len align"
| "host_dispatch (ReadCap ptr len) = host_read_cap ptr len"
| "host_dispatch (AllocCap requested) = host_alloc_cap requested"
| "host_dispatch (WriteMarker ptr len align) = host_write_marker ptr len align"
| "host_dispatch Tick = host_tick"

interpretation host: host_import host_dispatch
proof (unfold_locales, goal_cases)
  case (1 a us s r s')
  then show ?case
    using accept_packet_import.authority [of "(_, _, _)"] read_cap_import.authority [of "(_, _)"]
      alloc_cap_import.authority write_marker_import.authority [of "(_, _, _)"] tick_import.authority
    by (cases a) simp_all
next
  case (2 a us s r s')
  then show ?case
    using accept_packet_import.evidence [of "(_, _, _)"] read_cap_import.evidence [of "(_, _)"]
      alloc_cap_import.evidence write_marker_import.evidence [of "(_, _, _)"] tick_import.evidence
    by (cases a) simp_all
next
  case (3 a us s r s')
  then show ?case
    using accept_packet_import.budget [of "(_, _, _)"] read_cap_import.budget [of "(_, _)"]
      alloc_cap_import.budget write_marker_import.budget [of "(_, _, _)"] tick_import.budget
    by (cases a) simp_all
next
  case (4 a us s r s')
  then show ?case
    using accept_packet_import.shape [of "(_, _, _)"] read_cap_import.shape [of "(_, _)"]
      alloc_cap_import.shape write_marker_import.shape [of "(_, _, _)"] tick_import.shape
    by (cases a) simp_all
next
  case (5 a us s r s')
  then show ?case
    using accept_packet_import.denied_no_write [of "(_, _, _)"]
      read_cap_import.denied_no_write [of "(_, _)"] alloc_cap_import.denied_no_write
      write_marker_import.denied_no_write [of "(_, _, _)"] tick_import.denied_no_write
    by (cases a) simp_all
qed

section \<open>What each import decides\<close>

lemma memory_view_Some: "hs_memory (mc_host s) \<Longrightarrow> memory_view s = Some (mc_memory s)"
  by (simp add: memory_view_def)

lemma fst_range_rejected [simp]: "fst (range_rejected (e, sz, gates)) = abi_error_code e"
  by (simp add: range_rejected_def)

lemma fst_validate_packet:
  "fst (validate_packet_from_guest g) =
     (case parse_packet (gb_bytes g) of Inl e \<Rightarrow> abi_error_code e | Inr pk \<Rightarrow> OK)"
  by (simp add: validate_packet_from_guest_def split: sum.splits)

lemma host_accept_packet_result:
  assumes "hs_memory (mc_host s)" and "wf_memory (mc_memory s)"
  shows "fst (host_accept_packet ptr len align us s) =
    (case checked_guest_range ptr len align (data_size (mc_memory s)) (max_packet_len (policy_of s)) of
       Inl e \<Rightarrow> abi_error_code e
     | Inr r \<Rightarrow> (case parse_packet (access_slice (mc_memory s) ptr len) of
                   Inl e \<Rightarrow> abi_error_code e | Inr pk \<Rightarrow> OK))"
  unfolding host_accept_packet_def Let_def fst_conv memory_view_Some [OF assms(1)]
    with_guest_bytes_cases [OF assms(2)]
  by (simp add: fst_validate_packet split: sum.split)

lemma record_event_memory: "snd (host_accept_packet ptr len align us s) = s' \<Longrightarrow> mc_memory s' = mc_memory s"
  by (auto simp: host_accept_packet_def Let_def)

text \<open>
  C2. The packet import accepts a packet exactly when it is one. With the exported memory in
  hand, the result code is the code of the range error if the range is refused, the code of the
  parse error if the bytes are not a packet, and OK otherwise; in the OK case the bytes at the
  pointer are the encoding of some flags and body. The guest's memory is not changed.
\<close>

theorem host_accept_packet_decides:
  assumes "hs_memory (mc_host s)" and "wf_memory (mc_memory s)"
  shows "fst (host_accept_packet ptr len align us s) =
      (case checked_guest_range ptr len align (data_size (mc_memory s)) (max_packet_len (policy_of s)) of
         Inl e \<Rightarrow> abi_error_code e
       | Inr r \<Rightarrow> (case parse_packet (access_slice (mc_memory s) ptr len) of
                     Inl e \<Rightarrow> abi_error_code e | Inr pk \<Rightarrow> OK)) \<and>
    (fst (host_accept_packet ptr len align us s) = OK \<longrightarrow>
       (\<exists>flags body. access_slice (mc_memory s) ptr len = encode_packet flags body)) \<and>
    mc_memory (snd (host_accept_packet ptr len align us s)) = mc_memory s"
  using host_accept_packet_result [OF assms] parse_packet_iff record_event_memory
  by (auto split: sum.splits)

definition page_machine :: machine where
  "page_machine = \<lparr>mc_host = (host_state_new policy_default)\<lparr>hs_memory := True\<rparr>, mc_memory = page_memory\<rparr>"

lemma page_machine_simps [simp]:
  "hs_memory (mc_host page_machine)" "mc_memory page_machine = page_memory"
  "policy_of page_machine = policy_default"
  by (simp_all add: page_machine_def host_state_new_def)

theorem host_accept_packet_decides_witness:
  "fst (host_accept_packet 64 21 8 0 page_machine) = OK"
proof -
  have "hs_memory (mc_host page_machine)" and "wf_memory (mc_memory page_machine)"
    by (simp_all add: wf_page_memory)
  note decides = host_accept_packet_decides [OF this, of 64 21 8 0]
  have "checked_guest_range 64 21 8 (data_size page_memory) 4096 =
      Inr \<lparr>gr_ptr = 64, gr_len = 21, gr_end = 85, gr_offset = 64\<rparr>"
    by (simp add: data_size_page_memory checked_guest_range_def is_multiple_of_def checked_add_def)
  moreover have "access_slice page_memory 64 21 = hello_packet"
    by (simp add: access_slice_def page_memory_def hello_packet_def)
  moreover have "\<exists>pk. parse_packet hello_packet = Inr pk" using parse_hello_packet by blast
  ultimately show ?thesis using decides by (auto simp: policy_default_def)
qed

lemma fst_validate_capability:
  "fst (validate_capability_from_guest p g) =
     (if \<not> valid_utf8 (gb_bytes g) then ERR_UTF8
      else if string_of_bytes (gb_bytes g) \<in> set (allowed_paths p) then OK else ERR_CAPABILITY)"
  by (simp add: validate_capability_from_guest_def from_utf8_def Let_def)

text \<open>
  C3. A capability is granted only by exact match. With the exported memory in hand, the string
  import answers OK if and only if the length is within the string cap, the bytes lie in the
  guest's memory without wrapping, they are valid UTF-8, and they are, byte for byte, one of the
  paths the policy grants: no prefix, no normalisation, no C string ending at a zero byte.
\<close>

theorem host_read_cap_grants_exactly:
  assumes "hs_memory (mc_host s)" and "wf_memory (mc_memory s)"
  shows "fst (host_read_cap ptr len us s) = OK \<longleftrightarrow>
    unat len \<le> unat (max_cap_string_len (policy_of s)) \<and> unat ptr + unat len < 2 ^ 32 \<and>
    unat ptr + unat len \<le> length (gm_bytes (mc_memory s)) \<and>
    valid_utf8 (access_slice (mc_memory s) ptr len) \<and>
    string_of_bytes (access_slice (mc_memory s) ptr len) \<in> set (allowed_paths (policy_of s))"
proof -
  have "fst (host_read_cap ptr len us s) =
    (case checked_guest_range ptr len 1 (data_size (mc_memory s)) (max_cap_string_len (policy_of s)) of
       Inl e \<Rightarrow> abi_error_code e
     | Inr r \<Rightarrow> (if \<not> valid_utf8 (access_slice (mc_memory s) ptr len) then ERR_UTF8
         else if string_of_bytes (access_slice (mc_memory s) ptr len) \<in> set (allowed_paths (policy_of s))
         then OK else ERR_CAPABILITY))"
    unfolding host_read_cap_def Let_def fst_conv memory_view_Some [OF assms(1)]
      with_guest_bytes_cases [OF assms(2)]
    by (simp add: fst_validate_capability split: sum.split)
  then show ?thesis
    using checked_guest_range_accepts_iff [of ptr len 1 "data_size (mc_memory s)"
        "max_cap_string_len (policy_of s)"] unat_data_size [OF assms(2)]
    by (cases "checked_guest_range ptr len 1 (data_size (mc_memory s)) (max_cap_string_len (policy_of s))")
      auto
qed

text \<open>The packet bytes are no path, so the grant list refuses them.\<close>

theorem host_read_cap_grants_exactly_witness:
  "fst (host_read_cap 64 21 0 page_machine) \<noteq> OK"
proof -
  have "access_slice page_memory 64 21 = hello_packet"
    by (simp add: access_slice_def page_memory_def hello_packet_def)
  then have "string_of_bytes (access_slice page_memory 64 21) \<notin> set (allowed_paths policy_default)"
    by (simp add: hello_packet_def policy_default_def)
  then show ?thesis
    using host_read_cap_grants_exactly [of page_machine 64 21 0] by (simp add: wf_page_memory)
qed

section \<open>The marker\<close>

lemma checked_marker_range:
  "checked_guest_range ptr len align mem_size 4 = Inr r \<Longrightarrow> unat len \<le> 4"
  using checked_guest_range_accepts_iff [of ptr len align mem_size 4 r] by simp

lemma host_write_marker_result:
  assumes "hs_memory (mc_host s)" and "wf_memory (mc_memory s)"
  shows "host_write_marker ptr len align us s = (r, s') \<Longrightarrow>
    r = (case checked_guest_range ptr len align (data_size (mc_memory s)) 4 of
       Inl e \<Rightarrow> abi_error_code e | Inr rng \<Rightarrow> if len = 4 then OK else ERR_HEADER) \<and>
    (r = OK \<longrightarrow> mc_memory s' = (mc_memory s)\<lparr>gm_bytes :=
       put_range (gm_bytes (mc_memory s)) (unat ptr) HOST_WRITE_MARKER\<rparr>)"
proof (cases "checked_guest_range ptr len align (data_size (mc_memory s)) 4")
  case (Inl e)
  moreover assume "host_write_marker ptr len align us s = (r, s')"
  moreover have "(word_of_nat (length HOST_WRITE_MARKER) :: u32) = 4"
    by (simp add: HOST_WRITE_MARKER_def)
  ultimately show ?thesis
    by (auto simp: host_write_marker_def memory_view_Some [OF assms(1)]
        with_guest_bytes_mut_cases [OF assms(2)] Let_def)
next
  case (Inr rng)
  moreover assume c: "host_write_marker ptr len align us s = (r, s')"
  moreover have w: "(word_of_nat (length HOST_WRITE_MARKER) :: u32) = 4"
    by (simp add: HOST_WRITE_MARKER_def)
  moreover have "length (access_slice (mc_memory s) ptr len) = unat len"
    using abi_range.accepted_length [OF Inr assms(2)] by (simp add: access_slice_def)
  moreover have "unat len = 4 \<longleftrightarrow> len = 4"
    using word_unat_eq_iff [of len 4] by simp
  ultimately show ?thesis
    by (auto simp: host_write_marker_def memory_view_Some [OF assms(1)]
        with_guest_bytes_mut_cases [OF assms(2)] Let_def write_marker_to_guest_def
        HOST_WRITE_MARKER_def split: if_splits)
qed

text \<open>
  C11. The marker import writes all of the marker or nothing. With the exported memory in hand it
  answers OK if and only if exactly four bytes are requested in a valid, supported range; then
  the guest's memory is what it was with the four marker bytes at the pointer, and after any
  other answer the memory is unchanged.
\<close>

theorem host_write_marker_exact:
  assumes "hs_memory (mc_host s)" and "wf_memory (mc_memory s)"
    and "host_write_marker ptr len align us s = (r, s')"
  shows "(r = OK \<longleftrightarrow> len = 4 \<and> align \<in> {1, 2, 4, 8, 16} \<and> unat align dvd unat ptr \<and>
      unat ptr + 4 < 2 ^ 32 \<and> unat ptr + 4 \<le> length (gm_bytes (mc_memory s))) \<and>
    mc_memory s' = (if r = OK then (mc_memory s)\<lparr>gm_bytes :=
       put_range (gm_bytes (mc_memory s)) (unat ptr) HOST_WRITE_MARKER\<rparr> else mc_memory s)"
proof -
  have "r = OK \<longleftrightarrow> len = 4 \<and> (\<exists>rng. checked_guest_range ptr len align (data_size (mc_memory s)) 4 = Inr rng)"
    using host_write_marker_result [OF assms] by (auto split: sum.splits if_splits)
  also have "\<dots> \<longleftrightarrow> len = 4 \<and> align \<in> {1, 2, 4, 8, 16} \<and> unat align dvd unat ptr \<and>
      unat ptr + 4 < 2 ^ 32 \<and> unat ptr + 4 \<le> length (gm_bytes (mc_memory s))"
    unfolding checked_guest_range_accepts_iff unat_data_size [OF assms(2)]
    by (rule conj_cong [OF refl]) (simp del: insert_iff)
  finally show ?thesis
    using host_write_marker_result [OF assms] host_write_marker_memory [OF assms(3,2)]
    by (cases "r = OK") simp_all
qed

theorem host_write_marker_exact_witness:
  "gm_bytes (mc_memory (snd (host_write_marker 8 4 4 0 page_machine))) =
    put_range (gm_bytes page_memory) 8 HOST_WRITE_MARKER"
proof -
  obtain r s' where c: "host_write_marker 8 4 4 0 page_machine = (r, s')" by fastforce
  have l: "length (gm_bytes page_memory) = 128"
    by (simp add: page_memory_def hello_packet_def)
  show ?thesis
    using host_write_marker_exact [OF _ _ c] by (simp add: c wf_page_memory l)
qed

section \<open>Before the memory is known\<close>

lemma rejected_event [simp]:
  "ev_gates (access_event imp ptr len align us (range_rejected (e, sz, gates))) = gates"
  "decision (access_event imp ptr len align us (range_rejected (e, sz, gates))) = ''DENY''"
  by (simp_all add: access_event_def range_rejected_def decision_def)

text \<open>
  Nothing reads or writes guest memory before the host holds the exported memory: a guest's
  start function that calls one of the three memory imports, with any arguments, gets
  ERR_INTERNAL, its memory is untouched, and the denial is logged with the failed gate
  memory.export.
\<close>

theorem imports_denied_without_memory:
  assumes "\<not> hs_memory (mc_host s)"
    and "c \<in> {AcceptPacket ptr len align, ReadCap ptr len, WriteMarker ptr len align}"
    and "host_dispatch c us s = (r, s')"
  shows "r = ERR_INTERNAL \<and> mc_memory s' = mc_memory s \<and>
    (\<exists>e. log_of s' = log_of s @ [e] \<and> decision e = ''DENY'' \<and> ev_gates e = [gate_fail ''memory.export''])"
  using assms
  by (auto simp: host_accept_packet_def host_read_cap_def host_write_marker_def memory_view_def
      with_guest_bytes_def with_guest_bytes_mut_def Let_def)

theorem imports_denied_without_memory_witness:
  "fst (host_dispatch (ReadCap 0 5) 3
     \<lparr>mc_host = host_state_new policy_default, mc_memory = page_memory\<rparr>) = ERR_INTERNAL"
proof -
  let ?s = "\<lparr>mc_host = host_state_new policy_default, mc_memory = page_memory\<rparr>"
  obtain r s' where c: "host_dispatch (ReadCap 0 5) 3 ?s = (r, s')" by fastforce
  have "\<not> hs_memory (mc_host ?s)" by (simp add: host_state_new_def)
  then show ?thesis
    using imports_denied_without_memory [of ?s "ReadCap 0 5" 0 5 1 3 r s'] c by simp
qed

section \<open>The tick budget\<close>

text \<open>A guest that ticks and ticks: the answers to a sequence of calls, with their times.\<close>

fun run_ticks :: "nat list \<Rightarrow> machine \<Rightarrow> i32 list \<times> machine" where
  "run_ticks [] s = ([], s)"
| "run_ticks (us # uss) s =
     (let (r, s1) = host_tick us s; (rs, s2) = run_ticks uss s1 in (r # rs, s2))"

lemma host_tick_result:
  "fst (host_tick us s) = (if fuel_of s = 0 then ERR_BUDGET else OK)"
  "fuel_of (snd (host_tick us s)) = (if fuel_of s = 0 then 0 else fuel_of s - 1)"
  by (cases rule: host_tick_cases [of s us]; simp)+

lemma run_ticks_results:
  "fst (run_ticks uss s) =
     replicate (min (length uss) (unat (fuel_of s))) OK @
     replicate (length uss - unat (fuel_of s)) ERR_BUDGET"
proof (induction uss arbitrary: s)
  case (Cons us uss)
  obtain r s1 where c: "host_tick us s = (r, s1)" by fastforce
  show ?case
  proof (cases "fuel_of s = 0")
    case True
    then have "fuel_of s1 = 0" "r = ERR_BUDGET" using host_tick_result [of us s] c by simp_all
    then show ?thesis using Cons [of s1] True by (simp add: c case_prod_unfold)
  next
    case False
    then have "0 < unat (fuel_of s)" by (simp add: unat_gt_0)
    moreover from False have "fuel_of s1 = fuel_of s - 1" "r = OK"
      using host_tick_result [of us s] c by simp_all
    moreover have "unat (fuel_of s - 1) = unat (fuel_of s) - 1"
      using False by (simp add: unat_minus_one)
    ultimately show ?thesis using Cons [of s1] False
      by (cases "unat (fuel_of s)") (simp_all add: c case_prod_unfold)
  qed
qed simp

text \<open>
  The tick budget is exact. From a state with some fuel, a guest that ticks any number of
  times is answered OK exactly as often as there is fuel, and ERR_BUDGET every time after that,
  however long it goes on.
\<close>

theorem tick_budget_exact:
  "fst (run_ticks uss s) =
     replicate (min (length uss) (unat (fuel_of s))) OK @
     replicate (length uss - unat (fuel_of s)) ERR_BUDGET"
  by (rule run_ticks_results)

section \<open>Every denial is evidence\<close>

text \<open>
  C12. No denial goes unlogged and no denial has an effect on the guest. Whenever any of the five
  imports answers anything but OK, in any state with a WebAssembly memory, it has appended
  exactly one event, which decides DENY, carries that result code and has a failed gate, and the
  guest's memory and the policy are what they were.
\<close>

theorem denial_is_logged:
  assumes "host_dispatch c us s = (r, s')" and "wf_memory (mc_memory s)" and "r \<noteq> OK"
  shows "(\<exists>e. log_of s' = log_of s @ [e] \<and> ev_result_code e = r \<and> decision e = ''DENY'' \<and>
      \<not> all_passed (ev_gates e)) \<and>
    mc_memory s' = mc_memory s \<and> policy_of s' = policy_of s"
  using host.evidence [OF assms(1)] host.denied_no_write [OF assms] host.authority [OF assms(1)]
    assms(3)
  by (auto simp: event_consistent_def decision_def)

theorem denial_is_logged_witness:
  "\<exists>e. log_of (snd (host_dispatch (AllocCap 65537) 9 page_machine)) = [e] \<and> decision e = ''DENY''"
proof -
  obtain r s' where c: "host_dispatch (AllocCap 65537) 9 page_machine = (r, s')" by fastforce
  then have "r \<noteq> OK" by (auto simp: host_alloc_cap_def Let_def policy_default_def)
  moreover have "log_of page_machine = []"
    by (simp add: page_machine_def host_state_new_def telemetry_default_def)
  ultimately show ?thesis using denial_is_logged [OF c] by (auto simp: c [simplified] wf_page_memory)
qed

end
