(* ===== verification/Runner.thy ===== *)
theory Runner
  imports Host_Imports Guests
begin

text \<open>
  Running one case, \<open>src/runner.rs\<close>: the audit of the module, the execution of the guest against
  the host imports, and the reports. The WebAssembly engine is an argument: what it compiles a
  binary to is a \<open>wasm_module\<close>, and what a guest function does, call by call, is a \<open>guest\<close>.
\<close>

section \<open>Guests\<close>

text \<open>
  A guest function as the host sees it: it returns, traps, calls a host import (the elapsed time
  of the call is the number) and goes on with the answer, or does something with its own memory.
  A guest can go on for ever, so the type is a codatatype.
\<close>

codatatype guest =
    Done i32
  | Trap string
  | HostCall host_call nat "i32 \<Rightarrow> guest"
  | Compute "guest_memory \<Rightarrow> guest_memory \<times> guest"

text \<open>Calling an exported function. \<open>None\<close>: the call does not return.\<close>

partial_function (option) exec_guest :: "guest \<Rightarrow> machine \<Rightarrow> ((string + i32) \<times> machine) option" where
  "exec_guest g s = (case g of
      Done c \<Rightarrow> Some (Inr c, s)
    | Trap e \<Rightarrow> Some (Inl e, s)
    | HostCall c us k \<Rightarrow> (let (r, s') = host_dispatch c us s in exec_guest (k r) s')
    | Compute f \<Rightarrow> (let (m', g') = f (mc_memory s) in exec_guest g' (s\<lparr>mc_memory := m'\<rparr>)))"

lemma exec_guest_simps [simp]:
  "exec_guest (Done code) s = Some (Inr code, s)"
  "exec_guest (Trap e) s = Some (Inl e, s)"
  "exec_guest (HostCall c us k) s = (let (r, s') = host_dispatch c us s in exec_guest (k r) s')"
  "exec_guest (Compute f) s = (let (m', g') = f (mc_memory s) in exec_guest g' (s\<lparr>mc_memory := m'\<rparr>))"
  by (subst exec_guest.simps; simp)+

section \<open>Modules\<close>

text \<open>
  An instance: its memory after the data segments, what the start function does (\<open>Done\<close> when
  there is none), whether \<open>memory\<close> is exported, and the exports \<open>grow_only\<close> and \<open>run\<close> as the
  lookup of a typed function gives them.
\<close>

record wasm_instance =
  wi_memory :: guest_memory
  wi_start :: guest
  wi_memory_export :: "string + unit"
  wi_grow_only :: "string + guest"
  wi_run :: "string + guest"

record wasm_module =
  wm_import_memories :: "u32 list"
  wm_export_memories :: "u32 list"
  wm_import_functions :: "(string \<times> string) list"
  wm_instance :: "string + wasm_instance"

text \<open>The engine: the WAT parser and, for each backend, the compiler.\<close>

record wasm_engine =
  en_wat :: "string \<Rightarrow> string + u8 list"
  en_compile :: "backend \<Rightarrow> u8 list \<Rightarrow> string + wasm_module"

text \<open>The elapsed times of a run, read from the clock.\<close>

record timings =
  tm_compile :: nat
  tm_audit :: nat
  tm_instantiate :: nat
  tm_grow :: nat
  tm_run :: nat

section \<open>Audit\<close>

record audit_denial =
  ad_result_code :: i32
  ad_detail :: string
  ad_gates :: "gate list"

definition memory_pages_denial :: "string \<Rightarrow> u32 \<Rightarrow> policy \<Rightarrow> audit_denial" where
  "memory_pages_denial direction requested p =
     \<lparr>ad_result_code = ERR_TOO_LARGE,
      ad_detail = direction @ '' minimum memory '' @ show_u32 requested @
        '' pages exceeds policy max_memory_pages '' @ show_u32 (max_memory_pages p),
      ad_gates = [gate_fail ''module.memory_min_pages'']\<rparr>"

definition tick_import_denial :: audit_denial where
  "tick_import_denial =
     \<lparr>ad_result_code = ERR_BUDGET,
      ad_detail = ''module does not import host.tick; refusing in-process run without CPU budget hook'',
      ad_gates = [gate_pass ''module.memory_min_pages'', gate_fail ''module.tick_import'']\<rparr>"

definition audit_module :: "wasm_module \<Rightarrow> policy \<Rightarrow> audit_denial + unit" where
  "audit_module m p =
     (case find (\<lambda>minimum. max_memory_pages p < minimum) (wm_import_memories m) of
        Some minimum \<Rightarrow> Inl (memory_pages_denial ''imported'' minimum p)
      | None \<Rightarrow>
         (case find (\<lambda>minimum. max_memory_pages p < minimum) (wm_export_memories m) of
            Some minimum \<Rightarrow> Inl (memory_pages_denial ''exported'' minimum p)
          | None \<Rightarrow>
             (if require_tick_import p \<and> \<not> list_ex (\<lambda>i. i = (''host'', ''tick'')) (wm_import_functions m)
              then Inl tick_import_denial else Inr ())))"

section \<open>Reports\<close>

record case_report =
  cr_name :: string
  cr_description :: string
  cr_category :: string
  cr_severity :: string
  cr_control :: string
  cr_stage :: string
  cr_ttp :: string
  cr_detection :: string
  cr_source_path :: string
  cr_backend :: backend
  cr_expected_code :: i32
  cr_actual_code :: "i32 option"
  cr_host_error :: "string option"
  cr_compile_us :: nat
  cr_instantiate_us :: nat
  cr_run_us :: nat
  cr_wasm_bytes :: nat
  cr_memory_before :: memory_snapshot
  cr_memory_after :: memory_snapshot
  cr_telemetry :: telemetry

definition passed :: "case_report \<Rightarrow> bool" where
  "passed r \<longleftrightarrow> cr_host_error r = None \<and> cr_actual_code r = Some (cr_expected_code r)"

definition error_report :: "guest_case \<Rightarrow> backend \<Rightarrow> string \<Rightarrow> case_report" where
  "error_report c b host_error =
     \<lparr>cr_name = gc_name c, cr_description = gc_description c, cr_category = gc_category c,
      cr_severity = gc_severity c, cr_control = gc_control c, cr_stage = gc_stage c,
      cr_ttp = gc_ttp c, cr_detection = gc_detection c, cr_source_path = gc_source_path c,
      cr_backend = b, cr_expected_code = gc_expected_code c, cr_actual_code = None,
      cr_host_error = Some host_error, cr_compile_us = 0, cr_instantiate_us = 0, cr_run_us = 0,
      cr_wasm_bytes = 0, cr_memory_before = memory_snapshot_default,
      cr_memory_after = memory_snapshot_default, cr_telemetry = telemetry_default\<rparr>"

definition audit_denial_report ::
  "guest_case \<Rightarrow> backend \<Rightarrow> nat \<Rightarrow> nat \<Rightarrow> nat \<Rightarrow> audit_denial \<Rightarrow> case_report" where
  "audit_denial_report c b wasm_len compile_us audit_us denial =
     \<lparr>cr_name = gc_name c, cr_description = gc_description c, cr_category = gc_category c,
      cr_severity = gc_severity c, cr_control = gc_control c, cr_stage = gc_stage c,
      cr_ttp = gc_ttp c, cr_detection = gc_detection c, cr_source_path = gc_source_path c,
      cr_backend = b, cr_expected_code = gc_expected_code c,
      cr_actual_code = Some (ad_result_code denial), cr_host_error = None,
      cr_compile_us = compile_us, cr_instantiate_us = 0, cr_run_us = 0, cr_wasm_bytes = wasm_len,
      cr_memory_before = memory_snapshot_default, cr_memory_after = memory_snapshot_default,
      cr_telemetry = \<lparr>events =
        [\<lparr>ev_import = ''host.audit.module'', ev_ptr = None, ev_len = None, ev_align = None,
          ev_memory_size = None, ev_result_code = ad_result_code denial,
          ev_detail = ad_detail denial, ev_elapsed_us = audit_us, ev_gates = ad_gates denial\<rparr>],
        ticks_seen = 0\<rparr>\<rparr>"

definition snapshot_memory :: "guest_memory \<Rightarrow> memory_snapshot" where
  "snapshot_memory m =
     \<lparr>snap_pages = word_of_nat (length (gm_bytes m) div 65536), snap_bytes = data_size m,
      snap_data_ptr = gm_base m\<rparr>"

section \<open>The growth probe\<close>

text \<open>A grow function that traps is ERR_INTERNAL, as is a missing one. \<open>None\<close>: no return.\<close>

definition run_growth_probe :: "wasm_instance \<Rightarrow> nat \<Rightarrow> machine \<Rightarrow> machine option" where
  "run_growth_probe inst us s =
     (let before = snapshot_memory (mc_memory s) in
      map_option (\<lambda>(grow_raw, s').
        let after = snapshot_memory (mc_memory s');
            result = (if 0 \<le> grow_raw then OK else ERR_INTERNAL);
            detail = ''pre-run grow_only raw_return='' @ show_int grow_raw @
              '' pages '' @ show_u32 (snap_pages before) @ ''->'' @ show_u32 (snap_pages after) @
              '' bytes '' @ show_nat (unat (snap_bytes before)) @ ''->'' @
              show_nat (unat (snap_bytes after)) @
              ''; old MemoryView intentionally dropped before call''
        in record_event
             \<lparr>ev_import = ''host.runner.grow_probe'', ev_ptr = None, ev_len = None, ev_align = None,
              ev_memory_size = Some (snap_bytes after), ev_result_code = result,
              ev_detail = detail, ev_elapsed_us = us,
              ev_gates = [gate_pass ''drop_stale_view'', gate_pass ''reacquire_view'']\<rparr> s')
       (case wi_grow_only inst of
          Inl e \<Rightarrow> Some (ERR_INTERNAL, s)
        | Inr g \<Rightarrow> map_option (\<lambda>(r, s'). (case r of Inr c \<Rightarrow> c | Inl e \<Rightarrow> ERR_INTERNAL, s'))
                    (exec_guest g s)))"

section \<open>Running a case\<close>

definition static_fixture_denial :: audit_denial where
  "static_fixture_denial =
     \<lparr>ad_result_code = ERR_TIMEOUT,
      ad_detail = ''static audit fixture is intentionally not executed in-process'',
      ad_gates = [gate_pass ''module.memory_min_pages'', gate_fail ''module.tick_import'',
        gate_pass ''runner.no_execute'']\<rparr>"

text \<open>
  The run proper, from instantiation on. The start function runs during instantiation, when the
  host does not yet hold the memory; the growth probe runs before \<open>run\<close> is looked up.
\<close>

definition completed_report ::
  "guest_case \<Rightarrow> backend \<Rightarrow> timings \<Rightarrow> nat \<Rightarrow> memory_snapshot \<Rightarrow> i32 \<Rightarrow> machine \<Rightarrow> case_report" where
  "completed_report c b tm wasm_len memory_before code s =
     \<lparr>cr_name = gc_name c, cr_description = gc_description c, cr_category = gc_category c,
      cr_severity = gc_severity c, cr_control = gc_control c, cr_stage = gc_stage c,
      cr_ttp = gc_ttp c, cr_detection = gc_detection c, cr_source_path = gc_source_path c,
      cr_backend = b, cr_expected_code = gc_expected_code c, cr_actual_code = Some code,
      cr_host_error = None, cr_compile_us = tm_compile tm, cr_instantiate_us = tm_instantiate tm,
      cr_run_us = tm_run tm, cr_wasm_bytes = wasm_len, cr_memory_before = memory_before,
      cr_memory_after = snapshot_memory (mc_memory s), cr_telemetry = hs_telemetry (mc_host s)\<rparr>"

definition run_exports ::
  "guest_case \<Rightarrow> backend \<Rightarrow> timings \<Rightarrow> nat \<Rightarrow> wasm_instance \<Rightarrow> machine \<Rightarrow>
   (case_report + case_report) option" where
  "run_exports c b tm wasm_len inst s0 =
     (case wi_memory_export inst of
        Inl err \<Rightarrow> Some (Inl (error_report c b (''missing memory export: '' @ err)))
      | Inr _ \<Rightarrow>
         (let s1 = s0\<lparr>mc_host := (mc_host s0)\<lparr>hs_memory := True\<rparr>\<rparr>;
              memory_before = snapshot_memory (mc_memory s1)
          in Option.bind
               (if gc_kind c = GrowthProbe then run_growth_probe inst (tm_grow tm) s1 else Some s1)
               (\<lambda>s2. case wi_run inst of
                   Inl err \<Rightarrow> Some (Inl (error_report c b (''missing run export: '' @ err)))
                 | Inr run \<Rightarrow>
                    map_option (\<lambda>(r, s3). case r of
                        Inl err \<Rightarrow> Inl (error_report c b (''guest trapped during run: '' @ err))
                      | Inr code \<Rightarrow> Inr (completed_report c b tm wasm_len memory_before code s3))
                    (exec_guest run s2))))"

definition run_instance ::
  "guest_case \<Rightarrow> backend \<Rightarrow> timings \<Rightarrow> nat \<Rightarrow> wasm_module \<Rightarrow> policy \<Rightarrow>
   (case_report + case_report) option" where
  "run_instance c b tm wasm_len m p =
     (case wm_instance m of
        Inl err \<Rightarrow> Some (Inl (error_report c b (''Wasmer instantiate failed: '' @ err)))
      | Inr inst \<Rightarrow>
         Option.bind
           (exec_guest (wi_start inst) \<lparr>mc_host = host_state_new p, mc_memory = wi_memory inst\<rparr>)
           (\<lambda>(r, s0). case r of
               Inl err \<Rightarrow> Some (Inl (error_report c b (''Wasmer instantiate failed: '' @ err)))
             | Inr _ \<Rightarrow> run_exports c b tm wasm_len inst s0))"

definition run_case_inner ::
  "wasm_engine \<Rightarrow> timings \<Rightarrow> guest_case \<Rightarrow> backend \<Rightarrow> policy \<Rightarrow> bool \<Rightarrow>
   (case_report + case_report) option" where
  "run_case_inner en tm c b p execute_static_fixture =
     (case wasm_bytes (en_wat en) (gc_source c) of
        Inl err \<Rightarrow> Some (Inl (error_report c b err))
      | Inr wasm \<Rightarrow>
         (case en_compile en b wasm of
            Inl err \<Rightarrow> Some (Inl (error_report c b (''Wasmer compile failed: '' @ err)))
          | Inr m \<Rightarrow>
             (if gc_kind c = StaticAudit \<and> \<not> execute_static_fixture then
                Some (Inr (audit_denial_report c b (length wasm) (tm_compile tm) 0 static_fixture_denial))
              else (case audit_module m p of
                  Inl denial \<Rightarrow>
                    Some (Inr (audit_denial_report c b (length wasm) (tm_compile tm) (tm_audit tm) denial))
                | Inr _ \<Rightarrow> run_instance c b tm (length wasm) m p))))"

definition run_case_with_static_mode ::
  "wasm_engine \<Rightarrow> timings \<Rightarrow> guest_case \<Rightarrow> backend \<Rightarrow> policy \<Rightarrow> bool \<Rightarrow> case_report option" where
  "run_case_with_static_mode en tm c b p execute_static_fixture =
     map_option (\<lambda>r. case r of Inr report \<Rightarrow> report | Inl report \<Rightarrow> report)
       (run_case_inner en tm c b p execute_static_fixture)"

definition run_case ::
  "wasm_engine \<Rightarrow> timings \<Rightarrow> guest_case \<Rightarrow> backend \<Rightarrow> policy \<Rightarrow> case_report option" where
  "run_case en tm c b p = run_case_with_static_mode en tm c b p False"

definition run_case_executing_static_fixture ::
  "wasm_engine \<Rightarrow> timings \<Rightarrow> guest_case \<Rightarrow> backend \<Rightarrow> policy \<Rightarrow> case_report option" where
  "run_case_executing_static_fixture en tm c b p = run_case_with_static_mode en tm c b p True"

section \<open>What any guest can and cannot do\<close>

text \<open>
  A guest respects its sandbox when its own computations only ever leave it with a WebAssembly
  memory. That is the engine's guarantee, not the host's, and it is stated on the guest tree.
\<close>

coinductive sandboxed :: "guest \<Rightarrow> bool" where
  "sandboxed (Done code)"
| "sandboxed (Trap e)"
| "(\<And>r. sandboxed (k r)) \<Longrightarrow> sandboxed (HostCall c us k)"
| "(\<And>m. wf_memory m \<Longrightarrow> wf_memory (fst (f m)) \<and> sandboxed (snd (f m))) \<Longrightarrow> sandboxed (Compute f)"

inductive_cases sandboxed_HostCallE: "sandboxed (HostCall c us k)"
inductive_cases sandboxed_ComputeE: "sandboxed (Compute f)"

text \<open>
  What every call sequence keeps, whatever the guest is: the policy, the handle, the balance of
  the fuel account, and a log that only grows, by consistent events.
\<close>

definition host_invariant :: "machine \<Rightarrow> machine \<Rightarrow> bool" where
  "host_invariant s s' \<longleftrightarrow> policy_of s' = policy_of s \<and>
     hs_memory (mc_host s') = hs_memory (mc_host s) \<and>
     (\<exists>new. log_of s' = log_of s @ new \<and> list_all event_consistent new) \<and>
     (fuel_balanced s \<longrightarrow> fuel_balanced s')"

lemma host_invariant_refl: "host_invariant s s"
  by (simp add: host_invariant_def)

lemma host_invariant_trans: "host_invariant s s' \<Longrightarrow> host_invariant s' s'' \<Longrightarrow> host_invariant s s''"
  unfolding host_invariant_def by (metis append.assoc list_all_append)

lemma host_invariant_call: "host_dispatch c us s = (r, s') \<Longrightarrow> host_invariant s s'"
  using host.authority host.evidence [of c us s r s'] host.budget
  unfolding host_invariant_def by fastforce

lemma host_invariant_compute: "host_invariant s (s\<lparr>mc_memory := m\<rparr>)"
  by (simp add: host_invariant_def fuel_balanced_def)

text \<open>Induction over a call that returns.\<close>

lemma exec_guest_induct [consumes 1, case_names Done Trap HostCall Compute]:
  assumes "exec_guest g s = Some (r, s')"
    and "\<And>code s. P (Done code) s (Inr code) s"
    and "\<And>e s. P (Trap e) s (Inl e) s"
    and "\<And>c us k s a s1 r s'. \<lbrakk>host_dispatch c us s = (a, s1); P (k a) s1 r s'\<rbrakk> \<Longrightarrow>
      P (HostCall c us k) s r s'"
    and "\<And>f s m1 g1 r s'. \<lbrakk>f (mc_memory s) = (m1, g1); P g1 (s\<lparr>mc_memory := m1\<rparr>) r s'\<rbrakk> \<Longrightarrow>
      P (Compute f) s r s'"
  shows "P g s r s'"
proof -
  have "(\<lambda>g s p. P g s (fst p) (snd p)) g s (r, s')"
  proof (rule exec_guest.raw_induct [OF _ assms(1)])
    fix exec g s p
    assume IH: "\<And>g s p. exec g s = Some p \<Longrightarrow> P g s (fst p) (snd p)"
      and step: "(case g of Done c \<Rightarrow> Some (Inr c, s) | Trap e \<Rightarrow> Some (Inl e, s)
        | HostCall c us k \<Rightarrow> (let (r, s') = host_dispatch c us s in exec (k r) s')
        | Compute f \<Rightarrow> (let (m', g') = f (mc_memory s) in exec g' (s\<lparr>mc_memory := m'\<rparr>))) = Some p"
    show "P g s (fst p) (snd p)"
      using step assms(2,3) IH
      by (cases g) (auto split: prod.splits intro!: assms(4,5))
  qed
  then show ?thesis by simp
qed

lemma exec_guest_invariant: "exec_guest g s = Some (r, s') \<Longrightarrow> host_invariant s s'"
proof (induction rule: exec_guest_induct)
  case (HostCall c us k s a s1 r s')
  then show ?case using host_invariant_call host_invariant_trans by blast
next
  case (Compute f s m1 g1 r s')
  then show ?case using host_invariant_compute host_invariant_trans by blast
qed (rule host_invariant_refl)+

lemma fresh_host: "fuel_balanced \<lparr>mc_host = host_state_new p, mc_memory = m\<rparr>"
  by (simp add: fuel_balanced_def host_state_new_def telemetry_default_def)

text \<open>
  C4. No guest escapes its policy or its fuel. Whatever code a guest is and whatever the host's
  state (during instantiation without the memory's handle, in \<open>grow_only\<close> and \<open>run\<close> with it, fuel
  and log as the calls before left them), if a call of it returns, with a result or a trap, then
  the policy and the handle are those it started with; the log is the old one and new events
  after it, each of which says ALLOW exactly if all its gates passed; and if the fuel left was the
  budget less the ticks counted, as it is in a fresh host, so it is afterwards.
\<close>

theorem guest_cannot_exceed_policy:
  assumes "exec_guest g s = Some (r, s')"
  shows "policy_of s' = policy_of s \<and> hs_memory (mc_host s') = hs_memory (mc_host s) \<and>
    (\<exists>new. log_of s' = log_of s @ new \<and>
       list_all (\<lambda>e. decision e = ''ALLOW'' \<longleftrightarrow> all_passed (ev_gates e)) new) \<and>
    (unat (fuel_of s) = unat (initial_fuel (policy_of s)) - unat (ticks_of s) \<longrightarrow>
       unat (fuel_of s') = unat (initial_fuel (policy_of s)) - unat (ticks_of s'))"
proof -
  have c: "event_consistent = (\<lambda>e. decision e = ''ALLOW'' \<longleftrightarrow> all_passed (ev_gates e))"
    by (simp add: fun_eq_iff event_consistent_def decision_def)
  from exec_guest_invariant [OF assms] obtain new where "log_of s' = log_of s @ new" "list_all event_consistent new"
      "policy_of s' = policy_of s" "hs_memory (mc_host s') = hs_memory (mc_host s)"
      "fuel_balanced s \<longrightarrow> fuel_balanced s'"
    by (auto simp: host_invariant_def)
  then show ?thesis unfolding c fuel_balanced_def by (intro conjI exI [of _ new]) simp_all
qed

definition greedy_guest :: guest where
  "greedy_guest = HostCall (ReadCap 64 21) 1 (\<lambda>r. HostCall Tick 1 (\<lambda>r. HostCall Tick 1 (\<lambda>r. Done r)))"

lemma exec_greedy_guest:
  "exec_guest greedy_guest s =
     (let (r0, s0) = host_read_cap 64 21 1 s; (r1, s1) = host_tick 1 s0; (r2, s2) = host_tick 1 s1
      in Some (Inr r2, s2))"
  by (simp add: greedy_guest_def case_prod_unfold Let_def)

definition run_state :: machine where
  "run_state = \<lparr>mc_host = (host_state_new (policy_default\<lparr>initial_fuel := 1\<rparr>))\<lparr>hs_memory := True\<rparr>,
     mc_memory = page_memory\<rparr>"

text \<open>With the handle set a guest names a path it may not read, then ticks more often than it has fuel.\<close>

theorem guest_cannot_exceed_policy_witness:
  "\<exists>s'. exec_guest greedy_guest run_state = Some (Inr ERR_BUDGET, s') \<and>
     policy_of s' = policy_default\<lparr>initial_fuel := 1\<rparr> \<and> unat (fuel_of s') = 1 - unat (ticks_of s') \<and>
     list_all (\<lambda>e. decision e = ''ALLOW'' \<longleftrightarrow> all_passed (ev_gates e)) (log_of s') \<and> log_of s' \<noteq> []"
proof -
  let ?s0 = "snd (host_read_cap 64 21 1 run_state)"
  obtain r s' where e: "exec_guest greedy_guest run_state = Some (r, s')"
    by (simp add: exec_greedy_guest case_prod_unfold Let_def)
  have "fuel_of ?s0 = 1"
    by (simp add: run_state_def host_state_new_def host_read_cap_def record_event_def Let_def case_prod_unfold)
  then have last: "host_tick 1 (snd (host_tick 1 ?s0)) = (ERR_BUDGET, s')" and r: "r = Inr ERR_BUDGET"
    using e host_tick_result [of 1 ?s0] host_tick_result [of 1 "snd (host_tick 1 ?s0)"]
    by (auto simp: exec_greedy_guest case_prod_unfold Let_def prod_eq_iff)
  have "log_of s' \<noteq> []"
    using host.denial_logged [of Tick 1 "snd (host_tick 1 ?s0)" ERR_BUDGET s'] last by (auto simp: code_defs)
  moreover have "policy_of run_state = policy_default\<lparr>initial_fuel := 1\<rparr>" "log_of run_state = []"
    "fuel_of run_state = 1" "ticks_of run_state = 0"
    by (simp_all add: run_state_def host_state_new_def telemetry_default_def)
  ultimately show ?thesis using guest_cannot_exceed_policy [OF e] e r by auto
qed

section \<open>The audit\<close>

definition audit_clean :: "wasm_module \<Rightarrow> policy \<Rightarrow> bool" where
  "audit_clean m p \<longleftrightarrow>
     list_all (\<lambda>n. n \<le> max_memory_pages p) (wm_import_memories m @ wm_export_memories m) \<and>
     (if require_tick_import p then (''host'', ''tick'') \<in> set (wm_import_functions m) else True)"

lemma find_None_not: "find P xs = None \<longleftrightarrow> list_all (\<lambda>x. \<not> P x) xs"
  by (auto simp: find_None_iff list_all_iff)

lemma find_Some_not: "find P xs = Some x \<Longrightarrow> \<not> list_all (\<lambda>x. \<not> P x) xs"
  by (auto simp flip: find_None_not)

lemma audit_module_ok: "audit_module m p = Inr () \<longleftrightarrow> audit_clean m p"
  by (auto simp: audit_module_def audit_clean_def find_None_not list_ex_iff not_less
      dest!: find_Some_not split: option.splits)

lemma audit_module_code:
  "audit_module m p = Inl d \<Longrightarrow>
     (ad_result_code d = ERR_TOO_LARGE \<or> ad_result_code d = ERR_BUDGET) \<and> \<not> all_passed (ad_gates d)"
  by (auto simp: audit_module_def memory_pages_denial_def tick_import_denial_def
      split: option.splits if_splits)

section \<open>Refused modules\<close>

lemma run_case_compiled:
  assumes "wasm_bytes (en_wat en) (gc_source c) = Inr wasm" and "en_compile en b wasm = Inr m"
  shows "run_case_with_static_mode en tm c b p x =
    (if gc_kind c = StaticAudit \<and> \<not> x then
       Some (audit_denial_report c b (length wasm) (tm_compile tm) 0 static_fixture_denial)
     else (case audit_module m p of
         Inl d \<Rightarrow> Some (audit_denial_report c b (length wasm) (tm_compile tm) (tm_audit tm) d)
       | Inr _ \<Rightarrow> map_option (\<lambda>r. case r of Inr report \<Rightarrow> report | Inl report \<Rightarrow> report)
                    (run_instance c b tm (length wasm) m p)))"
  using assms
  by (simp add: run_case_with_static_mode_def run_case_inner_def split: sum.splits)

text \<open>The engine with the compiled module's instance replaced by another.\<close>

definition with_instance :: "wasm_engine \<Rightarrow> wasm_module \<Rightarrow> string + wasm_instance \<Rightarrow> wasm_engine" where
  "with_instance en m i = en\<lparr>en_compile := \<lambda>b wasm. Inr (m\<lparr>wm_instance := i\<rparr>)\<rparr>"

lemma audit_module_instance [simp]: "audit_module (m\<lparr>wm_instance := i\<rparr>) p = audit_module m p"
  unfolding audit_module_def by (simp cong: option.case_cong)

text \<open>
  C5. A module the audit refuses is never instantiated and none of its code runs. If a module
  declares more memory than the policy allows, or lacks the tick import the policy requires,
  then the run of its case returns at once, even when static fixtures are executed, with one
  DENY event that has a failed gate, and with the same report whatever the module's instance
  would have done (fail, trap, loop for ever).
\<close>

theorem refused_module_never_runs:
  assumes "wasm_bytes (en_wat en) (gc_source c) = Inr wasm" and "en_compile en b wasm = Inr m"
    and "gc_kind c \<noteq> StaticAudit \<or> x" and "\<not> audit_clean m p"
  shows "\<exists>r e. run_case_with_static_mode en tm c b p x = Some r \<and>
    run_case_with_static_mode (with_instance en m i) tm c b p x = Some r \<and>
    events (cr_telemetry r) = [e] \<and> decision e = ''DENY'' \<and> \<not> all_passed (ev_gates e) \<and>
    cr_actual_code r = Some (ev_result_code e) \<and> ev_result_code e \<in> {ERR_TOO_LARGE, ERR_BUDGET}"
proof -
  obtain d where d: "audit_module m p = Inl d"
    using assms(4) audit_module_ok [of m p] by (cases "audit_module m p") auto
  have w: "wasm_bytes (en_wat (with_instance en m i)) (gc_source c) = Inr wasm"
    "en_compile (with_instance en m i) b wasm = Inr (m\<lparr>wm_instance := i\<rparr>)"
    using assms(1) by (simp_all add: with_instance_def)
  show ?thesis
    using audit_module_code [OF d] assms(3) d
    by (auto simp: run_case_compiled [OF assms(1,2)] run_case_compiled [OF w] audit_denial_report_def
        decision_def)
qed

definition trivial_instance :: "guest \<Rightarrow> wasm_instance" where
  "trivial_instance g = \<lparr>wi_memory = page_memory, wi_start = Done 0, wi_memory_export = Inr (),
     wi_grow_only = Inl ''no export'', wi_run = Inr g\<rparr>"

definition module_running :: "(string \<times> string) list \<Rightarrow> u32 \<Rightarrow> guest \<Rightarrow> wasm_module" where
  "module_running imps pages g = \<lparr>wm_import_memories = [], wm_export_memories = [pages],
     wm_import_functions = imps, wm_instance = Inr (trivial_instance g)\<rparr>"

definition engine_of :: "wasm_module \<Rightarrow> wasm_engine" where
  "engine_of m = \<lparr>en_wat = (\<lambda>t. Inr (bytes_of_string t)), en_compile = (\<lambda>b w. Inr m)\<rparr>"

definition demo_case :: "case_kind \<Rightarrow> guest_case" where
  "demo_case k = case_of ''demo'' ''demo'' OK k ''abi'' ''info'' ''demo'' ''(module)''"

lemma demo_case_simps [simp]:
  "gc_kind (demo_case k) = k" "gc_source (demo_case k) = Wat ''(module)''"
  by (simp_all add: demo_case_def)

lemma engine_of_simps [simp]:
  "wasm_bytes (en_wat (engine_of m)) (Wat t) = Inr (bytes_of_string t)"
  "en_compile (engine_of m) b w = Inr m"
  by (simp_all add: engine_of_def wasm_bytes_def)

definition no_timings :: timings where
  "no_timings = \<lparr>tm_compile = 0, tm_audit = 0, tm_instantiate = 0, tm_grow = 0, tm_run = 0\<rparr>"

theorem refused_module_never_runs_witness:
  "run_case_with_static_mode (engine_of (module_running [] 100 (Done 0))) no_timings
     (demo_case RunExport) Cranelift policy_default False \<noteq> None"
proof -
  have "\<not> audit_clean (module_running [] 100 (Done 0)) policy_default"
    by (simp add: audit_clean_def module_running_def policy_default_def)
  then show ?thesis
    using refused_module_never_runs [of "engine_of (module_running [] 100 (Done 0))"
        "demo_case RunExport" "bytes_of_string ''(module)''" Cranelift
        "module_running [] 100 (Done 0)" False policy_default no_timings] by auto
qed

text \<open>
  A static-audit fixture is never executed by a normal run, and its evidence says nothing of
  its module: whatever the fixture compiles to, the run returns ERR_TIMEOUT with one event whose
  gates claim that the memory minimum passed and that the tick import is missing.
\<close>

theorem static_fixture_report_fixed:
  assumes "wasm_bytes (en_wat en) (gc_source c) = Inr wasm" and "en_compile en b wasm = Inr m"
    and "gc_kind c = StaticAudit"
  shows "\<exists>r e. run_case en tm c b p = Some r \<and> cr_actual_code r = Some ERR_TIMEOUT \<and>
    events (cr_telemetry r) = [e] \<and>
    ev_gates e = [gate_pass ''module.memory_min_pages'', gate_fail ''module.tick_import'',
      gate_pass ''runner.no_execute'']"
  using assms(3)
  by (simp add: run_case_def run_case_compiled [OF assms(1,2)] audit_denial_report_def
      static_fixture_denial_def)

text \<open>A fixture that declares too much memory and does import the tick: both gates are wrong.\<close>

theorem static_fixture_report_fixed_witness:
  "\<exists>r e. run_case (engine_of (module_running [(''host'', ''tick'')] 100 (Done 0))) no_timings
      (demo_case StaticAudit) Cranelift policy_default = Some r \<and> events (cr_telemetry r) = [e] \<and>
    gate_pass ''module.memory_min_pages'' \<in> set (ev_gates e) \<and>
    gate_fail ''module.tick_import'' \<in> set (ev_gates e)"
  using static_fixture_report_fixed [of "engine_of (module_running [(''host'', ''tick'')] 100 (Done 0))"
      "demo_case StaticAudit" "bytes_of_string ''(module)''" Cranelift _ no_timings policy_default]
  by fastforce

section \<open>Guests that never return\<close>

primcorec spin :: guest where
  "spin = Compute (\<lambda>m. (m, spin))"

lemma exec_spin: "exec_guest spin s = None"
proof (cases "exec_guest spin s")
  case (Some p)
  have "g \<noteq> spin" if "exec_guest g s = Some (r, s')" for g r s'
    using that
  proof (induction rule: exec_guest_induct)
    case (Compute f s m1 g1 r s')
    show ?case
    proof
      assume "Compute f = spin"
      then have "f = (\<lambda>m. (m, spin))" using spin.code by (metis guest.inject(4))
      then show False using Compute by simp
    qed
  qed (use spin.code in \<open>metis guest.distinct\<close>)+
  then show ?thesis using Some by (cases p) auto
qed simp

text \<open>
  C19. The static gate is not a CPU bound. For every policy with at least one page, a module that
  declares one page and the tick import passes the audit, and if its \<open>run\<close> loops without ever
  calling the import then running its case in-process does not return; only the process
  supervisor's timeout bounds it.
\<close>

theorem audited_guest_can_hang:
  assumes "1 \<le> max_memory_pages p"
  shows "audit_clean (module_running [(''host'', ''tick'')] 1 spin) p \<and>
    run_case (engine_of (module_running [(''host'', ''tick'')] 1 spin)) tm (demo_case RunExport) b p = None"
proof -
  let ?m = "module_running [(''host'', ''tick'')] 1 spin"
  have a: "audit_clean ?m p"
    using assms by (simp add: audit_clean_def module_running_def)
  moreover have "run_case (engine_of ?m) tm (demo_case RunExport) b p = None"
    using a [folded audit_module_ok]
    by (simp add: run_case_def run_case_compiled [where wasm = "bytes_of_string ''(module)''" and m = ?m])
      (simp add: run_instance_def run_exports_def module_running_def trivial_instance_def exec_spin)
  ultimately show ?thesis by simp
qed

theorem audited_guest_can_hang_witness:
  "run_case (engine_of (module_running [(''host'', ''tick'')] 1 spin)) no_timings
     (demo_case RunExport) Cranelift policy_default = None"
  using audited_guest_can_hang [of policy_default] by (simp add: policy_default_def)

section \<open>Reports\<close>

lemma report_identity [simp]:
  "cr_name (error_report c b e) = gc_name c" "cr_name (audit_denial_report c b n u a d) = gc_name c"
  "cr_name (completed_report c b tm n snap code s) = gc_name c"
  "cr_expected_code (error_report c b e) = gc_expected_code c"
  "cr_expected_code (audit_denial_report c b n u a d) = gc_expected_code c"
  "cr_expected_code (completed_report c b tm n snap code s) = gc_expected_code c"
  by (simp_all add: error_report_def audit_denial_report_def completed_report_def)

text \<open>
  What a report may hold: exactly one of a code and a host error, and a log whose events, the
  growth probe's apart, decide ALLOW exactly if all their gates passed.
\<close>

definition probe_event :: "import_event \<Rightarrow> bool" where
  "probe_event e \<longleftrightarrow> ev_import e = ''host.runner.grow_probe''"

definition report_sound :: "guest_case \<Rightarrow> backend \<Rightarrow> case_report \<Rightarrow> bool" where
  "report_sound c b r \<longleftrightarrow> cr_name r = gc_name c \<and> cr_expected_code r = gc_expected_code c \<and>
     cr_backend r = b \<and> (cr_host_error r = None \<longleftrightarrow> cr_actual_code r \<noteq> None) \<and>
     list_all (\<lambda>e. if probe_event e then True else event_consistent e) (events (cr_telemetry r))"

lemma error_report_sound: "report_sound c b (error_report c b e)"
  by (simp add: report_sound_def error_report_def telemetry_default_def)

lemma denial_report_sound:
  "\<lbrakk>ad_result_code d \<noteq> OK; \<not> all_passed (ad_gates d)\<rbrakk> \<Longrightarrow>
   report_sound c b (audit_denial_report c b n u a d)"
  by (simp add: report_sound_def audit_denial_report_def event_consistent_def)

definition honest_log :: "machine \<Rightarrow> bool" where
  "honest_log s \<longleftrightarrow> list_all (\<lambda>e. if probe_event e then True else event_consistent e) (log_of s)"

lemma exec_guest_honest: "\<lbrakk>exec_guest g s = Some (r, s'); honest_log s\<rbrakk> \<Longrightarrow> honest_log s'"
  using exec_guest_invariant [of g s r s']
  by (auto simp: honest_log_def host_invariant_def list_all_iff split: if_splits)

lemma probe_event_honest: "\<lbrakk>probe_event e; honest_log s\<rbrakk> \<Longrightarrow> honest_log (record_event e s)"
  by (simp add: honest_log_def)

lemma growth_probe_honest:
  assumes "run_growth_probe inst us s = Some s'" and "honest_log s"
  shows "honest_log s'"
proof -
  obtain raw s1 where s1: "(case wi_grow_only inst of Inl e \<Rightarrow> Some (ERR_INTERNAL, s)
      | Inr g \<Rightarrow> map_option (\<lambda>(r, s'). (case r of Inr c \<Rightarrow> c | Inl e \<Rightarrow> ERR_INTERNAL, s')) (exec_guest g s))
    = Some (raw, s1)"
    using assms(1) unfolding run_growth_probe_def Let_def by (auto simp: case_prod_unfold)
  have "honest_log s1"
  proof (cases "wi_grow_only inst")
    case (Inr g)
    with s1 have "\<exists>r. exec_guest g s = Some (r, s1)" by (auto simp: case_prod_unfold)
    then show ?thesis using assms(2) exec_guest_honest by blast
  qed (use s1 assms(2) in simp)
  moreover have "\<exists>e. probe_event e \<and> s' = record_event e s1"
    using assms(1) unfolding run_growth_probe_def Let_def s1
    by (intro exI [where P = "\<lambda>e. probe_event e \<and> s' = record_event e s1"] conjI [rotated])
      (simp only: option.map option.inject prod.case eq_commute, simp add: probe_event_def)
  ultimately show ?thesis using probe_event_honest by blast
qed

lemma completed_report_sound:
  "honest_log s \<Longrightarrow> report_sound c b (completed_report c b tm n snap code s)"
  by (simp add: report_sound_def completed_report_def honest_log_def)

lemma honest_handle: "honest_log s \<Longrightarrow> honest_log (s\<lparr>mc_host := (mc_host s)\<lparr>hs_memory := True\<rparr>\<rparr>)"
  by (simp add: honest_log_def)

lemma honest_fresh: "honest_log \<lparr>mc_host = host_state_new p, mc_memory = m\<rparr>"
  by (simp add: honest_log_def host_state_new_def telemetry_default_def)

abbreviation report_of :: "case_report + case_report \<Rightarrow> case_report" where
  "report_of r \<equiv> (case r of Inr report \<Rightarrow> report | Inl report \<Rightarrow> report)"

lemma run_exports_sound:
  assumes "run_exports c b tm n inst s = Some r" and "honest_log s"
  shows "report_sound c b (report_of r)"
proof (cases "wi_memory_export inst")
  case (Inr u)
  let ?s1 = "s\<lparr>mc_host := (mc_host s)\<lparr>hs_memory := True\<rparr>\<rparr>"
  obtain s2 where s2: "(if gc_kind c = GrowthProbe then run_growth_probe inst (tm_grow tm) ?s1 else Some ?s1) = Some s2"
    using assms(1) Inr by (auto simp: run_exports_def Let_def bind_eq_Some_conv)
  then have "honest_log s2"
    using growth_probe_honest honest_handle [OF assms(2)] by (auto split: if_splits)
  have r: "(case wi_run inst of
      Inl err \<Rightarrow> Some (Inl (error_report c b (''missing run export: '' @ err)))
    | Inr run \<Rightarrow> map_option (\<lambda>(r, s3). case r of
          Inl err \<Rightarrow> Inl (error_report c b (''guest trapped during run: '' @ err))
        | Inr code \<Rightarrow> Inr (completed_report c b tm n (snapshot_memory (mc_memory ?s1)) code s3))
      (exec_guest run s2)) = Some r"
    using assms(1) unfolding run_exports_def Inr Let_def sum.case s2 by simp
  show ?thesis
  proof (cases "wi_run inst")
    case (Inr run)
    then obtain rr s3 where e: "exec_guest run s2 = Some (rr, s3)" using r by auto
    have "honest_log s3" by (rule exec_guest_honest [OF e \<open>honest_log s2\<close>])
    then show ?thesis using r Inr e
      by (cases rr) (auto simp: error_report_sound completed_report_sound)
  qed (use r in \<open>auto simp: error_report_sound\<close>)
qed (use assms in \<open>auto simp: run_exports_def error_report_sound\<close>)

lemma run_instance_sound:
  assumes "run_instance c b tm n m p = Some r"
  shows "report_sound c b (report_of r)"
  using assms run_exports_sound exec_guest_honest [OF _ honest_fresh]
  by (fastforce simp: run_instance_def bind_eq_Some_conv error_report_sound split: sum.splits)

lemma run_case_sound:
  assumes "run_case_with_static_mode en tm c b p x = Some r"
  shows "report_sound c b r"
proof (cases "wasm_bytes (en_wat en) (gc_source c)")
  case (Inl e)
  then show ?thesis using assms
    by (auto simp: run_case_with_static_mode_def run_case_inner_def error_report_sound)
next
  case wasm: (Inr wasm)
  show ?thesis
  proof (cases "en_compile en b wasm")
    case (Inl e)
    then show ?thesis using assms wasm
      by (auto simp: run_case_with_static_mode_def run_case_inner_def error_report_sound)
  next
    case (Inr m)
    have "report_sound c b (audit_denial_report c b n u a static_fixture_denial)" for n u a
      by (rule denial_report_sound) (simp_all add: static_fixture_denial_def)
    moreover have "report_sound c b (audit_denial_report c b n u a d)"
      if "audit_module m p = Inl d" for n u a d
      using audit_module_code [OF that] by (intro denial_report_sound) auto
    ultimately show ?thesis
      using assms run_instance_sound
      by (cases "audit_module m p") (auto simp: run_case_compiled [OF wasm Inr] split: if_splits)
  qed
qed

text \<open>
  C15. Every report is sound, whatever the engine and the guest do. If the run of a case returns,
  its report carries the case's name and expected code, has either a result code or a host
  error and never both, and every event of its log but the growth probe's decides ALLOW exactly
  if all its gates passed.
\<close>

theorem run_case_report_sound:
  assumes "run_case_with_static_mode en tm c b p x = Some r"
  shows "report_sound c b r"
  by (rule run_case_sound [OF assms])

theorem run_case_report_sound_witness:
  "\<exists>r. run_case_with_static_mode (engine_of (module_running [(''host'', ''tick'')] 1 (Trap ''unreachable'')))
      no_timings (demo_case RunExport) Cranelift policy_default False = Some r \<and>
    cr_host_error r \<noteq> None \<and> cr_actual_code r = None"
proof -
  let ?m = "module_running [(''host'', ''tick'')] 1 (Trap ''unreachable'')"
  have "audit_clean ?m policy_default"
    by (simp add: audit_clean_def module_running_def policy_default_def)
  then obtain r where r: "run_case_with_static_mode (engine_of ?m) no_timings (demo_case RunExport)
      Cranelift policy_default False = Some r" and "cr_host_error r \<noteq> None"
    by (simp add: run_case_compiled [where wasm = "bytes_of_string ''(module)''" and m = ?m]
        audit_module_ok [symmetric])
      (simp add: run_instance_def run_exports_def module_running_def trivial_instance_def
        error_report_def)
  then show ?thesis using run_case_report_sound [OF r] by (auto simp: report_sound_def)
qed

section \<open>What the page cap bounds\<close>

definition growing_guest :: "nat \<Rightarrow> guest" where
  "growing_guest n =
     Compute (\<lambda>m. (m\<lparr>gm_bytes := gm_bytes m @ replicate (65536 * n) 0\<rparr>, Done OK))"

text \<open>
  The page cap of the policy bounds what a module declares, not what it reaches. For every
  cap a memory can exceed, a module that declares one page and the tick import passes the audit,
  and when its \<open>run\<close> grows the memory by more pages than the cap and returns OK, the report
  passes while its own snapshot shows more pages than the policy allows.
\<close>

theorem page_cap_is_static:
  assumes "1 \<le> max_memory_pages p" and "unat (max_memory_pages p) < 65535"
  shows "\<exists>r. let m = module_running [(''host'', ''tick'')] 1 (growing_guest (Suc (unat (max_memory_pages p))))
    in audit_clean m p \<and> run_case (engine_of m) tm (demo_case RunExport) b p = Some r \<and> passed r \<and>
       max_memory_pages p < snap_pages (cr_memory_after r)"
proof -
  let ?n = "Suc (unat (max_memory_pages p))"
  let ?m = "module_running [(''host'', ''tick'')] 1 (growing_guest ?n)"
  have a: "audit_clean ?m p"
    using assms by (simp add: audit_clean_def module_running_def)
  let ?mem = "page_memory\<lparr>gm_bytes := gm_bytes page_memory @ replicate (65536 * ?n) 0\<rparr>"
  have "length (gm_bytes ?mem) div 65536 = ?n"
    by (simp add: page_memory_def hello_packet_def div_add1_eq [of 128])
  then have pages: "max_memory_pages p < snap_pages (snapshot_memory ?mem)"
    using assms(2) unfolding snapshot_memory_def word_less_nat_alt
    by (simp add: unsigned_of_nat take_bit_nat_eq_self del: of_nat_Suc gm_bytes_update_def)
  let ?s = "\<lparr>mc_host = (host_state_new p)\<lparr>hs_memory := True\<rparr>, mc_memory = ?mem\<rparr>"
  have "run_case (engine_of ?m) tm (demo_case RunExport) b p = Some
      (completed_report (demo_case RunExport) b tm (length (bytes_of_string ''(module)'')) (snapshot_memory page_memory) OK ?s)"
    using a [folded audit_module_ok]
    by (simp add: run_case_def run_case_compiled [where wasm = "bytes_of_string ''(module)''" and m = ?m])
      (simp add: run_instance_def run_exports_def module_running_def trivial_instance_def
        growing_guest_def Let_def)
  moreover have "passed (completed_report (demo_case RunExport) b tm (length (bytes_of_string ''(module)'')) (snapshot_memory page_memory) OK ?s)"
    by (simp add: passed_def completed_report_def demo_case_def)
  ultimately show ?thesis using a pages by (simp add: Let_def completed_report_def)
qed

theorem page_cap_is_static_witness:
  "\<exists>m r. audit_clean m policy_default \<and>
     run_case (engine_of m) no_timings (demo_case RunExport) Cranelift policy_default = Some r \<and>
     16 < snap_pages (cr_memory_after r)"
proof -
  have "1 \<le> max_memory_pages policy_default" and "unat (max_memory_pages policy_default) < 65535"
    by (simp_all add: policy_default_def)
  from page_cap_is_static [OF this, of no_timings Cranelift] show ?thesis
    unfolding Let_def by (auto simp: policy_default_def)
qed

end
