(* ===== verification/Supervisor.thy ===== *)
theory Supervisor
  imports Runner
begin

text \<open>
  The process supervisor of \<open>src/supervisor.rs\<close>: the worker's command line, the line a worker
  prints and the supervisor parses, the wait loop with its timeout, and the reports. Spawning,
  polling and killing the child are arguments: the status each poll finds and the elapsed time.
\<close>

section \<open>Escaped fields\<close>

definition escape_field_char :: "string \<Rightarrow> string" where
  "escape_field_char ch =
     (if ch = [backslash_char] then [backslash_char, backslash_char]
      else if ch = [tab_char] then [backslash_char, CHR ''t'']
      else if ch = [lf_char] then [backslash_char, CHR ''n'']
      else if ch = [cr_char] then [backslash_char, CHR ''r'']
      else ch)"

definition escape_field :: "string \<Rightarrow> string" where
  "escape_field v = concat (map escape_field_char (utf8_chars v))"

fun unescape_chars :: "string list \<Rightarrow> string option" where
  "unescape_chars [] = Some []"
| "unescape_chars (ch # chs) =
     (if ch \<noteq> [backslash_char] then map_option (\<lambda>out. ch @ out) (unescape_chars chs)
      else (case chs of
          [] \<Rightarrow> None
        | e # rest \<Rightarrow>
            (if e = [backslash_char] then map_option (\<lambda>out. backslash_char # out) (unescape_chars rest)
             else if e = ''t'' then map_option (\<lambda>out. tab_char # out) (unescape_chars rest)
             else if e = ''n'' then map_option (\<lambda>out. lf_char # out) (unescape_chars rest)
             else if e = ''r'' then map_option (\<lambda>out. cr_char # out) (unescape_chars rest)
             else None)))"

definition unescape_field :: "string \<Rightarrow> string option" where
  "unescape_field v = unescape_chars (utf8_chars v)"

definition MAX_DETAIL_CHARS :: nat where "MAX_DETAIL_CHARS = 512"

definition truncate_chars :: "string \<Rightarrow> nat \<Rightarrow> string" where
  "truncate_chars v max_chars =
     (if length (utf8_chars v) \<le> max_chars then v
      else concat (take (max_chars - 3) (utf8_chars v)) @ ''...'')"

section \<open>The worker's report line\<close>

definition WORKER_PREFIX :: string where "WORKER_PREFIX = ''WASMER_DEMO_WORKER_V1''"

record worker_summary =
  ws_actual_code :: "i32 option"
  ws_compile_us :: nat
  ws_instantiate_us :: nat
  ws_run_us :: nat
  ws_wasm_bytes :: nat
  ws_ticks_seen :: u32
  ws_events_logged :: nat
  ws_last_import :: string
  ws_last_result_code :: i32
  ws_last_detail :: string
  ws_host_error :: "string option"

definition last_event :: "case_report \<Rightarrow> import_event option" where
  "last_event r = (let es = events (cr_telemetry r) in if es = [] then None else Some (last es))"

definition encode_worker_report :: "case_report \<Rightarrow> string" where
  "encode_worker_report r =
     (let final = last_event r;
          actual = (case cr_actual_code r of Some code \<Rightarrow> show_int code | None \<Rightarrow> []);
          host_error = unwrap_or (cr_host_error r) [];
          last_import = (case final of Some e \<Rightarrow> ev_import e | None \<Rightarrow> []);
          last_result = (case final of Some e \<Rightarrow> ev_result_code e | None \<Rightarrow> ERR_INTERNAL);
          last_detail = (case final of Some e \<Rightarrow> ev_detail e | None \<Rightarrow> [])
      in join [tab_char]
        [WORKER_PREFIX, actual, show_nat (cr_compile_us r), show_nat (cr_instantiate_us r),
         show_nat (cr_run_us r), show_nat (cr_wasm_bytes r),
         show_u32 (ticks_seen (cr_telemetry r)), show_nat (length (events (cr_telemetry r))),
         escape_field last_import, show_int last_result, escape_field last_detail,
         escape_field host_error])"

text \<open>Parsing a number out of a field: \<open>parse().ok()\<close> for \<open>u128\<close>, \<open>usize\<close>, \<open>u32\<close> and \<open>i32\<close>.\<close>

definition field_u128 :: "string \<Rightarrow> nat option" where
  "field_u128 v = result_ok (parse_uint (2 ^ 128 - 1) v)"

definition field_usize :: "string \<Rightarrow> nat option" where
  "field_usize v = result_ok (parse_uint usize_max v)"

definition parse_actual :: "string \<Rightarrow> i32 option option" where
  "parse_actual v = (if v = [] then Some None else map_option Some (result_ok (parse_i32 v)))"

definition parse_summary_fields :: "string list \<Rightarrow> worker_summary option" where
  "parse_summary_fields fs =
     (case fs of
        p # actual # c # i # r # w # t # n # li # lr # ld # he # _ \<Rightarrow>
          (if p \<noteq> WORKER_PREFIX then None
           else Option.bind (parse_actual actual) (\<lambda>actual_code.
             Option.bind (field_u128 c) (\<lambda>compile_us.
             Option.bind (field_u128 i) (\<lambda>instantiate_us.
             Option.bind (field_u128 r) (\<lambda>run_us.
             Option.bind (field_usize w) (\<lambda>wasm_len.
             Option.bind (result_ok (parse_u32 t)) (\<lambda>ticks.
             Option.bind (field_usize n) (\<lambda>events_logged.
             Option.bind (unescape_field li) (\<lambda>last_import.
             Option.bind (result_ok (parse_i32 lr)) (\<lambda>last_result.
             Option.bind (unescape_field ld) (\<lambda>last_detail.
             Option.bind (unescape_field he) (\<lambda>host_error_raw.
               Some \<lparr>ws_actual_code = actual_code, ws_compile_us = compile_us,
                 ws_instantiate_us = instantiate_us, ws_run_us = run_us, ws_wasm_bytes = wasm_len,
                 ws_ticks_seen = ticks, ws_events_logged = events_logged,
                 ws_last_import = last_import, ws_last_result_code = last_result,
                 ws_last_detail = last_detail,
                 ws_host_error = (if host_error_raw = [] then None else Some host_error_raw)\<rparr>))))))))))))
      | _ \<Rightarrow> None)"

definition parse_worker_summary :: "string \<Rightarrow> worker_summary option" where
  "parse_worker_summary stdout =
     Option.bind (find (starts_with WORKER_PREFIX) (lines stdout))
       (\<lambda>line. parse_summary_fields (split_on tab_char line))"

section \<open>Reports\<close>

record process_output =
  po_status :: string
  po_stdout :: "u8 list"
  po_stderr :: "u8 list"

text \<open>The report all supervisor outcomes share: one event of the supervisor.\<close>

definition supervisor_event ::
  "i32 \<Rightarrow> string \<Rightarrow> nat \<Rightarrow> gate list \<Rightarrow> import_event" where
  "supervisor_event result detail elapsed_us gates =
     \<lparr>ev_import = ''host.supervisor.process'', ev_ptr = None, ev_len = None, ev_align = None,
      ev_memory_size = None, ev_result_code = result, ev_detail = detail,
      ev_elapsed_us = elapsed_us, ev_gates = gates\<rparr>"

definition supervisor_error_report :: "guest_case \<Rightarrow> backend \<Rightarrow> string \<Rightarrow> case_report" where
  "supervisor_error_report c b host_error =
     \<lparr>cr_name = gc_name c, cr_description = gc_description c, cr_category = gc_category c,
      cr_severity = gc_severity c, cr_control = gc_control c, cr_stage = gc_stage c,
      cr_ttp = gc_ttp c, cr_detection = gc_detection c, cr_source_path = gc_source_path c,
      cr_backend = b, cr_expected_code = gc_expected_code c, cr_actual_code = Some ERR_INTERNAL,
      cr_host_error = Some host_error, cr_compile_us = 0, cr_instantiate_us = 0, cr_run_us = 0,
      cr_wasm_bytes = 0, cr_memory_before = memory_snapshot_default,
      cr_memory_after = memory_snapshot_default,
      cr_telemetry = \<lparr>events = [supervisor_event ERR_INTERNAL host_error 0
        [gate_fail ''supervisor.error'']], ticks_seen = 0\<rparr>\<rparr>"

definition timeout_report :: "guest_case \<Rightarrow> backend \<Rightarrow> u64 \<Rightarrow> u32 \<Rightarrow> nat \<Rightarrow> case_report" where
  "timeout_report c b timeout_ms pid elapsed_us =
     \<lparr>cr_name = gc_name c, cr_description = gc_description c, cr_category = gc_category c,
      cr_severity = gc_severity c, cr_control = gc_control c, cr_stage = gc_stage c,
      cr_ttp = gc_ttp c, cr_detection = gc_detection c, cr_source_path = gc_source_path c,
      cr_backend = b, cr_expected_code = gc_expected_code c, cr_actual_code = Some ERR_TIMEOUT,
      cr_host_error = None, cr_compile_us = 0, cr_instantiate_us = 0, cr_run_us = elapsed_us,
      cr_wasm_bytes = 0, cr_memory_before = memory_snapshot_default,
      cr_memory_after = memory_snapshot_default,
      cr_telemetry = \<lparr>events = [supervisor_event ERR_TIMEOUT
        (''worker pid='' @ show_u32 pid @ '' exceeded '' @ show_nat (unat timeout_ms) @
         ''ms supervisor timeout and was killed'') elapsed_us
        [gate_pass ''supervisor.spawn'', gate_fail ''supervisor.timeout'',
         gate_pass ''supervisor.kill'']], ticks_seen = 0\<rparr>\<rparr>"

definition completion_gates :: "worker_summary \<Rightarrow> gate list" where
  "completion_gates w =
     [gate_pass ''supervisor.spawn'', gate_pass ''supervisor.timeout'', gate_pass ''supervisor.exit'',
      gate_pass ''supervisor.protocol''] @
     (if ws_host_error w \<noteq> None \<or> ws_actual_code w = None
      then [gate_fail ''worker.host_error''] else [])"

definition completion_detail :: "string \<Rightarrow> nat \<Rightarrow> worker_summary \<Rightarrow> string" where
  "completion_detail status elapsed_us w =
     ''worker exited status='' @ status @ '' elapsed='' @ show_nat elapsed_us @ ''us child_actual='' @
     (case ws_actual_code w of Some code \<Rightarrow> code_name code | None \<Rightarrow> ''HOST_ERROR'') @
     '' child_events='' @ show_nat (ws_events_logged w) @ '' child_ticks='' @
     show_u32 (ws_ticks_seen w) @ '' child_boundary='' @ ws_last_import w @ '' child_result='' @
     code_name (ws_last_result_code w) @ '' child_detail='' @
     truncate_chars (ws_last_detail w) MAX_DETAIL_CHARS"

definition supervised_completion_report ::
  "guest_case \<Rightarrow> backend \<Rightarrow> process_output \<Rightarrow> nat \<Rightarrow> case_report" where
  "supervised_completion_report c b out elapsed_us =
     (case parse_worker_summary (from_utf8_lossy (po_stdout out)) of
        None \<Rightarrow> supervisor_error_report c b
          (''worker protocol missing status='' @ po_status out @ '' stderr='' @
           truncate_chars (from_utf8_lossy (po_stderr out)) MAX_DETAIL_CHARS)
      | Some w \<Rightarrow>
          \<lparr>cr_name = gc_name c, cr_description = gc_description c, cr_category = gc_category c,
           cr_severity = gc_severity c, cr_control = gc_control c, cr_stage = gc_stage c,
           cr_ttp = gc_ttp c, cr_detection = gc_detection c, cr_source_path = gc_source_path c,
           cr_backend = b, cr_expected_code = gc_expected_code c,
           cr_actual_code = ws_actual_code w, cr_host_error = ws_host_error w,
           cr_compile_us = ws_compile_us w, cr_instantiate_us = ws_instantiate_us w,
           cr_run_us = ws_run_us w, cr_wasm_bytes = ws_wasm_bytes w,
           cr_memory_before = memory_snapshot_default, cr_memory_after = memory_snapshot_default,
           cr_telemetry = \<lparr>events = [supervisor_event (unwrap_or (ws_actual_code w) ERR_INTERNAL)
             (completion_detail (po_status out) elapsed_us w) elapsed_us (completion_gates w)],
             ticks_seen = ws_ticks_seen w\<rparr>\<rparr>)"

section \<open>The child process\<close>

record supervisor_options =
  so_policy_path :: "string option"
  so_corpus_dir :: "string option"
  so_allow_unmetered :: bool

definition worker_args :: "guest_case \<Rightarrow> backend \<Rightarrow> supervisor_options \<Rightarrow> string list" where
  "worker_args c b opts =
     [''--worker-case'', gc_name c, ''--backend'', backend_name b, ''--no-color''] @
     (case so_policy_path opts of Some path \<Rightarrow> [''--policy'', path] | None \<Rightarrow> []) @
     (case so_corpus_dir opts of Some dir \<Rightarrow> [''--corpus'', dir] | None \<Rightarrow> []) @
     (if so_allow_unmetered opts then [''--allow-unmetered''] else []) @
     (if gc_kind c = StaticAudit then [''--allow-unmetered'', ''--worker-execute-static-audit''] else [])"

text \<open>
  What the supervisor can see of a child: what the poll of each round of the loop finds, the time
  since the start in microseconds at the guard of the round and at its report, and the output,
  which is absent if waiting for it never ends (a process the worker left behind may hold its
  pipes open, or the kill may have failed).
\<close>

datatype wait_result = Exited | Running | WaitFailed string

record child =
  ch_pid :: u32
  ch_poll :: "nat \<Rightarrow> wait_result"
  ch_elapsed :: "nat \<Rightarrow> nat"
  ch_report_elapsed :: "nat \<Rightarrow> nat"
  ch_output :: "(string + process_output) option"

partial_function (option) wait_loop ::
  "guest_case \<Rightarrow> backend \<Rightarrow> u64 \<Rightarrow> child \<Rightarrow> nat \<Rightarrow> case_report option" where
  "wait_loop c b timeout_ms ch n =
     (case ch_poll ch n of
        Exited \<Rightarrow> map_option (\<lambda>output. case output of
            Inl err \<Rightarrow> supervisor_error_report c b (''worker output collection failed: '' @ err)
          | Inr out \<Rightarrow> supervised_completion_report c b out (ch_report_elapsed ch n)) (ch_output ch)
      | Running \<Rightarrow>
          (if 1000 * unat timeout_ms \<le> ch_elapsed ch n
           then map_option (\<lambda>_. timeout_report c b timeout_ms (ch_pid ch) (ch_report_elapsed ch n)) (ch_output ch)
           else wait_loop c b timeout_ms ch (Suc n))
      | WaitFailed err \<Rightarrow> Some (supervisor_error_report c b (''worker wait failed: '' @ err)))"

definition run_case_supervised ::
  "string + string \<Rightarrow> (string \<Rightarrow> string list \<Rightarrow> string + child) \<Rightarrow> guest_case \<Rightarrow> backend \<Rightarrow> policy \<Rightarrow>
   supervisor_options \<Rightarrow> case_report option" where
  "run_case_supervised current_exe spawn c b p opts =
     (case current_exe of
        Inl err \<Rightarrow> Some (supervisor_error_report c b (''current_exe failed: '' @ err))
      | Inr path \<Rightarrow>
         (case spawn path (worker_args c b opts) of
            Inl err \<Rightarrow> Some (supervisor_error_report c b (''worker spawn failed: '' @ err))
          | Inr ch \<Rightarrow> wait_loop c b (supervisor_timeout_ms p) ch 0))"

section \<open>The contract of a field codec\<close>

text \<open>
  What a record of tab-separated fields needs of each field's encoding: it decodes, it is a
  string, and it holds no tab and no line end.
\<close>

locale field_codec =
  fixes enc :: "'a \<Rightarrow> string" and dec :: "string \<Rightarrow> 'a option" and ok :: "'a \<Rightarrow> bool"
  assumes dec_enc: "ok x \<Longrightarrow> dec (enc x) = Some x"
    and clean: "ok x \<Longrightarrow> set (enc x) \<inter> {tab_char, lf_char, cr_char} = {}"
    and is_str_enc: "ok x \<Longrightarrow> is_str (enc x)"
begin

lemma no_tab: "ok x \<Longrightarrow> tab_char \<notin> set (enc x)"
  and no_lf: "ok x \<Longrightarrow> lf_char \<notin> set (enc x)"
  and no_cr: "ok x \<Longrightarrow> cr_char \<notin> set (enc x)"
  using clean by auto

end

lemma escape_field_char_cases:
  obtains x c where "escape_field_char ch = [backslash_char, x]" "ch = [c]" "x \<notin> {tab_char, lf_char, cr_char}"
      "(of_char x :: nat) < 128" "c \<in> {backslash_char, tab_char, lf_char, cr_char}"
      "\<And>rest. unescape_chars ([backslash_char] # [x] # rest) = map_option (Cons c) (unescape_chars rest)"
  | "escape_field_char ch = ch" "ch \<notin> {[backslash_char], [tab_char], [lf_char], [cr_char]}"
proof (cases "ch \<in> {[backslash_char], [tab_char], [lf_char], [cr_char]}")
  case True
  then show thesis
    by (elim insertE emptyE; intro that(1)) (auto simp: escape_field_char_def)
next
  case False
  then show thesis by (intro that(2)) (auto simp: escape_field_char_def)
qed

lemma unescape_escaped_chars:
  "list_all wf_char chs \<Longrightarrow>
   unescape_chars (utf8_chars (concat (map escape_field_char chs))) = Some (concat chs)"
proof (induction chs)
  case (Cons ch chs)
  then have IH: "unescape_chars (utf8_chars (concat (map escape_field_char chs))) = Some (concat chs)"
    by simp
  show ?case
  proof (cases ch rule: escape_field_char_cases)
    case (1 x c)
    then have "utf8_chars (concat (map escape_field_char (ch # chs))) =
        [backslash_char] # [x] # utf8_chars (concat (map escape_field_char chs))"
      by (simp add: utf8_len_def)
    then show ?thesis using 1(2) by (simp only: 1(6) IH option.map) simp
  next
    case 2
    then have "utf8_chars (concat (map escape_field_char (ch # chs))) =
        ch # utf8_chars (concat (map escape_field_char chs))"
      using utf8_chars_append_chars [of "[ch]"] Cons.prems by simp
    then show ?thesis using 2 IH by simp
  qed
qed simp

lemma unescape_escape_field: "is_str s \<Longrightarrow> unescape_field (escape_field s) = Some s"
  using unescape_escaped_chars [OF is_str_chars, of s]
  by (simp add: unescape_field_def escape_field_def)

lemma escape_field_char_clean:
  assumes "wf_char ch"
  shows "set (escape_field_char ch) \<inter> {tab_char, lf_char, cr_char} = {}"
proof (cases ch rule: escape_field_char_cases)
  case 2
  then have "c \<notin> set ch" if "c \<in> {tab_char, lf_char, cr_char}" for c
    using that wf_char_member [OF assms, of c] by auto
  then show ?thesis using 2 by auto
qed auto

lemma escape_field_clean:
  assumes "is_str s"
  shows "set (escape_field s) \<inter> {tab_char, lf_char, cr_char} = {}"
  using is_str_chars [OF assms] escape_field_char_clean
  unfolding escape_field_def set_concat set_map list_all_iff by blast

lemma is_str_escape_field:
  assumes "is_str s"
  shows "is_str (escape_field s)"
proof -
  have "is_str (escape_field_char ch)" if "is_str ch" for ch
    using that by (cases ch rule: escape_field_char_cases) (simp_all add: is_str_ascii)
  then show ?thesis
    using is_str_each_char [OF assms] by (auto simp: escape_field_def list_all_iff intro!: is_str_concat)
qed

interpretation text_field: field_codec escape_field unescape_field is_str
  by unfold_locales (simp_all add: unescape_escape_field escape_field_clean is_str_escape_field)

interpretation u128_field: field_codec show_nat field_u128 "\<lambda>n. n \<le> 2 ^ 128 - 1"
  by unfold_locales (auto simp: field_u128_def parse_uint_show_nat show_nat_not_char)

interpretation usize_field: field_codec show_nat field_usize "\<lambda>n. n \<le> usize_max"
  by unfold_locales (auto simp: field_usize_def parse_uint_show_nat show_nat_not_char)

interpretation u32_field: field_codec "\<lambda>x :: u32. show_nat (unat x)" "\<lambda>v. result_ok (parse_u32 v)" "\<lambda>x. True"
  by unfold_locales (auto simp: parse_u32_show show_nat_not_char)

definition i32_range :: "i32 \<Rightarrow> bool" where
  "i32_range i \<longleftrightarrow> - (2 ^ 31) \<le> i \<and> i < 2 ^ 31"

interpretation i32_field: field_codec show_int "\<lambda>v. result_ok (parse_i32 v)" i32_range
  by unfold_locales (auto simp: i32_range_def parse_i32_show_int show_int_not_char)

definition show_actual :: "i32 option \<Rightarrow> string" where
  "show_actual a = (case a of Some code \<Rightarrow> show_int code | None \<Rightarrow> [])"

interpretation actual_field: field_codec show_actual parse_actual "pred_option i32_range"
  by unfold_locales
    (auto simp: show_actual_def parse_actual_def i32_range_def parse_i32_show_int show_int_not_char
      split: option.splits)

section \<open>The report line round trip\<close>

definition summary_of :: "case_report \<Rightarrow> worker_summary" where
  "summary_of r = \<lparr>ws_actual_code = cr_actual_code r, ws_compile_us = cr_compile_us r,
     ws_instantiate_us = cr_instantiate_us r, ws_run_us = cr_run_us r,
     ws_wasm_bytes = cr_wasm_bytes r, ws_ticks_seen = ticks_seen (cr_telemetry r),
     ws_events_logged = length (events (cr_telemetry r)),
     ws_last_import = (case last_event r of Some e \<Rightarrow> ev_import e | None \<Rightarrow> []),
     ws_last_result_code = (case last_event r of Some e \<Rightarrow> ev_result_code e | None \<Rightarrow> ERR_INTERNAL),
     ws_last_detail = (case last_event r of Some e \<Rightarrow> ev_detail e | None \<Rightarrow> []),
     ws_host_error = cr_host_error r\<rparr>"

text \<open>
  A report the worker can have: numbers of their Rust types, texts that are strings, and a host
  error that says something.
\<close>

definition transmissible :: "case_report \<Rightarrow> bool" where
  "transmissible r \<longleftrightarrow> pred_option i32_range (cr_actual_code r) \<and>
     cr_compile_us r \<le> 2 ^ 128 - 1 \<and> cr_instantiate_us r \<le> 2 ^ 128 - 1 \<and> cr_run_us r \<le> 2 ^ 128 - 1 \<and>
     cr_wasm_bytes r \<le> usize_max \<and> length (events (cr_telemetry r)) \<le> usize_max \<and>
     pred_option (\<lambda>e. is_str (ev_import e) \<and> i32_range (ev_result_code e) \<and> is_str (ev_detail e))
       (last_event r) \<and>
     pred_option (\<lambda>h. is_str h \<and> h \<noteq> []) (cr_host_error r)"

definition report_fields :: "case_report \<Rightarrow> string list" where
  "report_fields r = (let w = summary_of r in
     [WORKER_PREFIX, show_actual (ws_actual_code w), show_nat (ws_compile_us w),
      show_nat (ws_instantiate_us w), show_nat (ws_run_us w), show_nat (ws_wasm_bytes w),
      show_u32 (ws_ticks_seen w), show_nat (ws_events_logged w), escape_field (ws_last_import w),
      show_int (ws_last_result_code w), escape_field (ws_last_detail w),
      escape_field (unwrap_or (ws_host_error w) [])])"

lemma encode_worker_report_fields: "encode_worker_report r = join [tab_char] (report_fields r)"
  by (simp add: encode_worker_report_def report_fields_def summary_of_def show_actual_def Let_def)

lemma transmissible_fields:
  assumes "transmissible r"
  shows "pred_option i32_range (cr_actual_code r)" "i32_range (ws_last_result_code (summary_of r))"
    "is_str (ws_last_import (summary_of r))" "is_str (ws_last_detail (summary_of r))"
    "is_str (unwrap_or (cr_host_error r) [])"
  using assms
  by (auto simp: transmissible_def summary_of_def i32_range_def code_defs pred_option_def
      split: option.splits) (cases "cr_host_error r"; simp)

lemma report_fields_clean:
  assumes "transmissible r" and "f \<in> set (report_fields r)"
  shows "set f \<inter> {tab_char, lf_char, cr_char} = {} \<and> is_str f"
proof -
  note t = transmissible_fields [OF assms(1)]
  have "set WORKER_PREFIX \<inter> {tab_char, lf_char, cr_char} = {} \<and> is_str WORKER_PREFIX"
    by (simp add: WORKER_PREFIX_def is_str_ascii)
  moreover have "set (show_nat n) \<inter> {tab_char, lf_char, cr_char} = {} \<and> is_str (show_nat n)" for n
    by (simp add: show_nat_not_char)
  ultimately show ?thesis
    using assms(2) actual_field.clean [OF t(1)] actual_field.is_str_enc [OF t(1)]
      i32_field.clean [OF t(2)] i32_field.is_str_enc [OF t(2)]
      text_field.clean [OF t(3)] text_field.is_str_enc [OF t(3)]
      text_field.clean [OF t(4)] text_field.is_str_enc [OF t(4)]
      text_field.clean [OF t(5)] text_field.is_str_enc [OF t(5)]
    unfolding report_fields_def Let_def
    by (simp add: summary_of_def) (elim disjE; simp)
qed

lemma parse_report_fields:
  assumes "transmissible r"
  shows "parse_summary_fields (report_fields r) = Some (summary_of r)"
proof -
  note t = transmissible_fields [OF assms]
  have e: "(if unwrap_or (cr_host_error r) [] = [] then None else Some (unwrap_or (cr_host_error r) [])) =
      cr_host_error r"
    using assms by (cases "cr_host_error r") (auto simp: transmissible_def)
  have b: "cr_compile_us r \<le> 2 ^ 128 - 1" "cr_instantiate_us r \<le> 2 ^ 128 - 1" "cr_run_us r \<le> 2 ^ 128 - 1"
    "cr_wasm_bytes r \<le> usize_max" "length (events (cr_telemetry r)) \<le> usize_max"
    using assms by (auto simp: transmissible_def)
  show ?thesis
    using actual_field.dec_enc [OF t(1)] i32_field.dec_enc [OF t(2)] text_field.dec_enc [OF t(3)]
      text_field.dec_enc [OF t(4)] text_field.dec_enc [OF t(5)]
      u128_field.dec_enc [OF b(1)] u128_field.dec_enc [OF b(2)] u128_field.dec_enc [OF b(3)]
      usize_field.dec_enc [OF b(4)] usize_field.dec_enc [OF b(5)] u32_field.dec_enc e
    unfolding parse_summary_fields_def report_fields_def Let_def list.case
    by (simp add: summary_of_def)
qed

lemma worker_line_first:
  assumes "transmissible r"
  shows "lines (encode_worker_report r @ lf_char # rest) = encode_worker_report r # lines rest"
    "starts_with WORKER_PREFIX (encode_worker_report r)"
    "parse_summary_fields (split_on tab_char (encode_worker_report r)) = Some (summary_of r)"
proof -
  have c: "\<forall>f \<in> set (report_fields r). set f \<inter> {tab_char, lf_char, cr_char} = {}"
    using report_fields_clean [OF assms] by blast
  have "set (encode_worker_report r) \<subseteq> {tab_char} \<union> (\<Union>f \<in> set (report_fields r). set f)"
    using set_join [of "[tab_char]" "report_fields r"] by (simp add: encode_worker_report_fields)
  then have "lf_char \<notin> set (encode_worker_report r)" "cr_char \<notin> set (encode_worker_report r)"
    using c by (auto simp: disjoint_iff)
  then show "lines (encode_worker_report r @ lf_char # rest) = encode_worker_report r # lines rest"
    by (rule lines_line)
  show "starts_with WORKER_PREFIX (encode_worker_report r)"
    by (simp add: encode_worker_report_fields report_fields_def Let_def)
  have "report_fields r \<noteq> []" by (simp add: report_fields_def Let_def)
  then have "split_on tab_char (encode_worker_report r) = report_fields r"
    using c unfolding encode_worker_report_fields by (intro split_on_join) (auto simp: disjoint_iff)
  then show "parse_summary_fields (split_on tab_char (encode_worker_report r)) = Some (summary_of r)"
    using parse_report_fields [OF assms] by simp
qed

text \<open>Output before the worker's line: lines of their own, none with the worker's mark.\<close>

definition unmarked :: "string \<Rightarrow> bool" where
  "unmarked s \<longleftrightarrow> (s = [] \<or> last s = lf_char) \<and> list_all (\<lambda>l. \<not> starts_with WORKER_PREFIX l) (lines s)"

lemma unmarked_Nil: "unmarked []"
  by (simp add: unmarked_def)

lemma find_unmarked: "list_all (\<lambda>x. \<not> P x) xs \<Longrightarrow> find P (xs @ ys) = find P ys"
  by (induction xs) auto

lemma worker_line_parses:
  assumes "unmarked before" and "transmissible r"
  shows "parse_worker_summary (before @ encode_worker_report r @ lf_char # rest) = Some (summary_of r)"
proof -
  have "lines (before @ encode_worker_report r @ lf_char # rest) = lines before @ encode_worker_report r # lines rest"
    using assms(1) worker_line_first(1) [OF assms(2)] by (auto simp: unmarked_def lines_whole)
  then show ?thesis
    using assms(1) worker_line_first(2,3) [OF assms(2)]
    by (simp add: parse_worker_summary_def unmarked_def find_unmarked)
qed

text \<open>
  C26. The line a worker prints carries its whole result. For every report whose numbers fit
  their types, whose texts are strings and whose host error is not empty, parsing the worker's
  output gives the summary of that report, whatever tabs, line ends and backslashes its texts
  hold, whatever lines without the worker's mark come before its line and whatever comes after.
\<close>

theorem worker_report_roundtrip:
  assumes "transmissible r" and "unmarked before"
  shows "parse_worker_summary (before @ encode_worker_report r @ lf_char # rest) = Some (summary_of r)"
  by (rule worker_line_parses [OF assms(2,1)])

definition tabbed_report :: case_report where
  "tabbed_report = error_report (demo_case RunExport) Cranelift (''bad'' @ [tab_char, backslash_char] @ ''module'')"

lemma transmissible_tabbed: "transmissible tabbed_report"
  by (simp add: transmissible_def tabbed_report_def error_report_def telemetry_default_def
      last_event_def usize_max_def is_str_ascii)

text \<open>A log line of the guest, an empty line, the report, and a second report that is not looked at.\<close>

theorem worker_report_roundtrip_witness:
  "map_option ws_host_error (parse_worker_summary
     (''note: starting'' @ [lf_char, cr_char, lf_char] @ encode_worker_report tabbed_report @ [lf_char] @
      encode_worker_report tabbed_report @ ''junk'')) =
     Some (Some (''bad'' @ [tab_char, backslash_char] @ ''module''))"
proof -
  have "unmarked (''note: starting'' @ [lf_char, cr_char, lf_char])" by code_simp
  from worker_report_roundtrip [OF transmissible_tabbed this, of "encode_worker_report tabbed_report @ ''junk''"]
  show ?thesis by (simp add: summary_of_def tabbed_report_def error_report_def)
qed

text \<open>
  The supervisor's verdict is the worker's. When a worker for a case prints the line of a
  report of that case and nothing before it, and exits with whatever status, the supervised
  report has the same code, host error and ticks and passes exactly if the worker's report does.
\<close>

theorem supervised_verdict_is_workers:
  assumes "transmissible r" and "cr_expected_code r = gc_expected_code c"
    and "po_stdout out = bytes_of_string (encode_worker_report r @ [lf_char])"
  shows "let s = supervised_completion_report c b out el in
    cr_actual_code s = cr_actual_code r \<and> cr_host_error s = cr_host_error r \<and>
    ticks_seen (cr_telemetry s) = ticks_seen (cr_telemetry r) \<and> passed s = passed r"
proof -
  have "list_all is_str (report_fields r)"
    using report_fields_clean [OF assms(1)] by (simp add: list_all_iff)
  then have "is_str (encode_worker_report r @ [lf_char])"
    unfolding encode_worker_report_fields by (intro is_str_append is_str_join) (simp_all add: is_str_ascii)
  then have "from_utf8_lossy (po_stdout out) = encode_worker_report r @ [lf_char]"
    using from_utf8_lossy_valid [of "po_stdout out"] by (simp only: assms(3) is_str_def string_bytes_string)
  then show ?thesis
    using worker_line_parses [OF unmarked_Nil assms(1), of "[]"] assms(2)
    by (simp add: supervised_completion_report_def summary_of_def passed_def Let_def)
qed

theorem supervised_verdict_is_workers_witness:
  "\<not> passed (supervised_completion_report (demo_case RunExport) Cranelift
      \<lparr>po_status = ''exit status: 0'', po_stdout = bytes_of_string (encode_worker_report tabbed_report @ [lf_char]),
       po_stderr = []\<rparr> 7)"
proof -
  have "cr_expected_code tabbed_report = gc_expected_code (demo_case RunExport)"
    by (simp add: tabbed_report_def)
  from supervised_verdict_is_workers [OF transmissible_tabbed this, where el = 7 and b = Cranelift
      and out = "\<lparr>po_status = ''exit status: 0'', po_stdout = bytes_of_string (encode_worker_report tabbed_report @ [lf_char]),
       po_stderr = []\<rparr>"]
  show ?thesis by (simp add: Let_def) (simp add: passed_def tabbed_report_def error_report_def)
qed

section \<open>The wait loop\<close>

lemma wait_loop_simps:
  "ch_poll ch n = Exited \<Longrightarrow> wait_loop c b t ch n = map_option (\<lambda>output. case output of
      Inl err \<Rightarrow> supervisor_error_report c b (''worker output collection failed: '' @ err)
    | Inr out \<Rightarrow> supervised_completion_report c b out (ch_report_elapsed ch n)) (ch_output ch)"
  "ch_poll ch n = WaitFailed err \<Longrightarrow> wait_loop c b t ch n =
     Some (supervisor_error_report c b (''worker wait failed: '' @ err))"
  "\<lbrakk>ch_poll ch n = Running; 1000 * unat t \<le> ch_elapsed ch n\<rbrakk> \<Longrightarrow> wait_loop c b t ch n =
     map_option (\<lambda>_. timeout_report c b t (ch_pid ch) (ch_report_elapsed ch n)) (ch_output ch)"
  "\<lbrakk>ch_poll ch n = Running; ch_elapsed ch n < 1000 * unat t\<rbrakk> \<Longrightarrow>
     wait_loop c b t ch n = wait_loop c b t ch (Suc n)"
  by (subst wait_loop.simps; simp)+

text \<open>Each round that goes on has slept for five milliseconds.\<close>

definition clock_advances :: "child \<Rightarrow> bool" where
  "clock_advances ch \<longleftrightarrow> (\<forall>n. ch_elapsed ch n + 5000 \<le> ch_elapsed ch (Suc n))"

lemma clock_lower: "clock_advances ch \<Longrightarrow> ch_elapsed ch n + 5000 * k \<le> ch_elapsed ch (n + k)"
proof (induction k)
  case (Suc k)
  then show ?case using clock_advances_def [of ch] by (auto dest!: spec [of _ "n + k"])
qed simp

text \<open>
  The round that decides: every round before it found the child running within the timeout, and
  it finds the child ended, the wait failed or the timeout over.
\<close>

definition decides_at :: "child \<Rightarrow> u64 \<Rightarrow> nat \<Rightarrow> bool" where
  "decides_at ch t k \<longleftrightarrow>
     list_all (\<lambda>i. ch_poll ch i = Running \<and> ch_elapsed ch i < 1000 * unat t) [0..<k] \<and>
     (ch_poll ch k \<noteq> Running \<or> 1000 * unat t \<le> ch_elapsed ch k)"

lemma wait_loop_reaches:
  assumes "\<forall>i < k. ch_poll ch (n + i) = Running \<and> ch_elapsed ch (n + i) < 1000 * unat t"
  shows "wait_loop c b t ch n = wait_loop c b t ch (n + k)"
  using assms
proof (induction k)
  case (Suc k)
  then show ?case using wait_loop_simps(4) [of ch "n + k"] by simp
qed simp

lemma wait_loop_decided: "decides_at ch t k \<Longrightarrow> wait_loop c b t ch 0 = wait_loop c b t ch k"
  using wait_loop_reaches [of k ch 0 t c b] by (simp add: decides_at_def list_all_iff)

lemma deciding_round:
  assumes "\<not> (ch_poll ch n = Running \<and> ch_elapsed ch n < 1000 * unat t)"
  obtains k where "k \<le> n" "decides_at ch t k"
proof -
  let ?P = "\<lambda>k. \<not> (ch_poll ch k = Running \<and> ch_elapsed ch k < 1000 * unat t)"
  obtain k where k: "?P k" "\<forall>i < k. \<not> ?P i" using assms exists_least_iff [of ?P] by blast
  then have "decides_at ch t k" by (auto simp: decides_at_def list_all_iff not_le)
  moreover have "k \<le> n" using k(2) assms by (meson not_le)
  ultimately show thesis using that by blast
qed

lemma wait_loop_decides:
  assumes "clock_advances ch"
  obtains k where "k \<le> unat t div 5 + 1" "decides_at ch t k"
proof -
  let ?n = "unat t div 5 + 1"
  have "1000 * unat t \<le> ch_elapsed ch ?n"
    using clock_lower [OF assms, of 0 ?n] by simp
  then show thesis using that deciding_round [of ch ?n t] by auto
qed

lemma wait_loop_ends:
  assumes "clock_advances ch" and "ch_output ch \<noteq> None"
  shows "wait_loop c b t ch 0 \<noteq> None"
proof -
  obtain k where k: "decides_at ch t k" by (rule wait_loop_decides [OF assms(1)])
  then have "wait_loop c b t ch k \<noteq> None"
    using assms(2) by (cases "ch_poll ch k") (auto simp: decides_at_def wait_loop_simps)
  then show ?thesis using wait_loop_decided [OF k] by simp
qed

text \<open>An output that never ends keeps the supervisor, past its timeout too.\<close>

lemma wait_loop_blocks:
  assumes "decides_at ch t k" and "ch_output ch = None" and "ch_poll ch k = Exited \<or> ch_poll ch k = Running"
  shows "wait_loop c b t ch 0 = None"
  using assms wait_loop_decided [OF assms(1), of c b] by (auto simp: decides_at_def wait_loop_simps)

text \<open>Without a round that decides the loop goes on for ever.\<close>

lemma wait_loop_undecided:
  assumes "wait_loop c b t ch n = Some r" and "\<forall>i \<ge> n. ch_poll ch i = Running \<and> ch_elapsed ch i < 1000 * unat t"
  shows False
proof -
  have "(\<forall>i \<ge> n. ch_poll ch i = Running \<and> ch_elapsed ch i < 1000 * unat t) \<longrightarrow> False"
    using assms(1)
  proof (rule wait_loop.raw_induct [rotated])
    fix wl c b t ch n r
    assume ih: "\<And>c b t ch n r. wl c b t ch n = Some r \<Longrightarrow>
        (\<forall>i \<ge> n. ch_poll ch i = Running \<and> ch_elapsed ch i < 1000 * unat t) \<longrightarrow> False"
      and r: "(case ch_poll ch n of
        Exited \<Rightarrow> map_option (\<lambda>output. case output of
            Inl err \<Rightarrow> supervisor_error_report c b (''worker output collection failed: '' @ err)
          | Inr out \<Rightarrow> supervised_completion_report c b out (ch_report_elapsed ch n)) (ch_output ch)
      | Running \<Rightarrow>
          (if 1000 * unat t \<le> ch_elapsed ch n
           then map_option (\<lambda>_. timeout_report c b t (ch_pid ch) (ch_report_elapsed ch n)) (ch_output ch)
           else wl c b t ch (Suc n))
      | WaitFailed err \<Rightarrow> Some (supervisor_error_report c b (''worker wait failed: '' @ err))) = Some r"
    show "(\<forall>i \<ge> n. ch_poll ch i = Running \<and> ch_elapsed ch i < 1000 * unat t) \<longrightarrow> False"
    proof
      assume a: "\<forall>i \<ge> n. ch_poll ch i = Running \<and> ch_elapsed ch i < 1000 * unat t"
      then have "wl c b t ch (Suc n) = Some r" using r by (auto dest!: spec [of _ n])
      from ih [OF this] a show False by auto
    qed
  qed
  with assms(2) show False by blast
qed

lemma wait_loop_result:
  assumes "wait_loop c b t ch 0 = Some r"
  obtains k where "decides_at ch t k" "wait_loop c b t ch k = Some r"
proof -
  obtain n where "\<not> (ch_poll ch n = Running \<and> ch_elapsed ch n < 1000 * unat t)"
    using wait_loop_undecided [OF assms] by blast
  then obtain k where "decides_at ch t k" using deciding_round by metis
  then show thesis using that wait_loop_decided assms by metis
qed

text \<open>
  C27. The supervisor comes back in time. If the clock advances by what the loop sleeps and the
  child's output ends, then for every child, whatever its polls find, the loop returns the report
  of the round that decides, which is among the first \<open>timeout / 5ms + 2\<close>: all earlier rounds found the
  child running within the timeout, so a clock that advances by at most \<open>d\<close> in a round shows at
  most the timeout and \<open>d\<close> there. A child that has ended by then is reported by its output, and one
  still running is reported ERR_TIMEOUT with the failed gate supervisor.timeout.
\<close>

theorem supervisor_returns:
  assumes "clock_advances ch" and "ch_output ch = Some output"
  shows "\<exists>k r. wait_loop c b t ch 0 = Some r \<and> k \<le> unat t div 5 + 1 \<and>
    (\<forall>i < k. ch_poll ch i = Running \<and> ch_elapsed ch i < 1000 * unat t) \<and>
    (\<forall>d. ch_elapsed ch 0 \<le> d \<and> (\<forall>n. ch_elapsed ch (Suc n) \<le> ch_elapsed ch n + d) \<longrightarrow>
       ch_elapsed ch k \<le> 1000 * unat t + d) \<and>
    (case ch_poll ch k of
       Exited \<Rightarrow> r = (case output of
           Inl err \<Rightarrow> supervisor_error_report c b (''worker output collection failed: '' @ err)
         | Inr out \<Rightarrow> supervised_completion_report c b out (ch_report_elapsed ch k))
     | WaitFailed err \<Rightarrow> r = supervisor_error_report c b (''worker wait failed: '' @ err)
     | Running \<Rightarrow> 1000 * unat t \<le> ch_elapsed ch k \<and>
         r = timeout_report c b t (ch_pid ch) (ch_report_elapsed ch k) \<and>
         cr_actual_code r = Some ERR_TIMEOUT \<and> cr_host_error r = None \<and>
         (\<exists>e. events (cr_telemetry r) = [e] \<and> gate_fail ''supervisor.timeout'' \<in> set (ev_gates e)))"
proof -
  obtain k where k: "k \<le> unat t div 5 + 1" "decides_at ch t k"
    by (rule wait_loop_decides [OF assms(1)])
  have before: "\<forall>i < k. ch_poll ch i = Running \<and> ch_elapsed ch i < 1000 * unat t"
    and at: "ch_poll ch k \<noteq> Running \<or> 1000 * unat t \<le> ch_elapsed ch k"
    using k(2) by (auto simp: decides_at_def list_all_iff)
  have late: "ch_elapsed ch k \<le> 1000 * unat t + d"
    if "ch_elapsed ch 0 \<le> d" "\<forall>n. ch_elapsed ch (Suc n) \<le> ch_elapsed ch n + d" for d
  proof (cases k)
    case (Suc j)
    then have "ch_elapsed ch j < 1000 * unat t" using before by simp
    then show ?thesis using that(2) Suc by (auto dest!: spec [of _ j])
  qed (use that(1) in simp)
  note w = wait_loop_decided [OF k(2), of c b]
  show ?thesis
  proof (cases "ch_poll ch k")
    case Exited
    show ?thesis unfolding w wait_loop_simps(1) [OF Exited] assms(2) option.map
      using k(1) before late Exited by (intro exI conjI) auto
  next
    case Running
    then have late_now: "1000 * unat t \<le> ch_elapsed ch k" using at by simp
    then show ?thesis unfolding w wait_loop_simps(3) [OF Running late_now] assms(2) option.map
      using k(1) before late Running
      by (intro exI [of _ k] exI conjI) (auto simp: timeout_report_def supervisor_event_def)
  next
    case (WaitFailed err)
    show ?thesis unfolding w wait_loop_simps(2) [OF WaitFailed]
      using k(1) before late WaitFailed by (intro exI conjI) auto
  qed
qed

definition hung_child :: child where
  "hung_child = \<lparr>ch_pid = 41, ch_poll = (\<lambda>n. Running), ch_elapsed = (\<lambda>n. 5100 * n),
     ch_report_elapsed = (\<lambda>n. 5100 * n + 90), ch_output = Some (Inl ''killed'')\<rparr>"

text \<open>A guest in an endless loop under a timeout of 250 milliseconds is given up by round 51, before 256.\<close>

theorem supervisor_returns_witness:
  "\<exists>k r. wait_loop (demo_case RunExport) Singlepass 250 hung_child 0 = Some r \<and> k \<le> 51 \<and>
    ch_elapsed hung_child k \<le> 255100 \<and> cr_actual_code r = Some ERR_TIMEOUT"
proof -
  have "clock_advances hung_child" "ch_output hung_child = Some (Inl ''killed'')"
    by (simp_all add: clock_advances_def hung_child_def)
  from supervisor_returns [OF this, of "demo_case RunExport" Singlepass 250] obtain k r where
    "wait_loop (demo_case RunExport) Singlepass 250 hung_child 0 = Some r" "k \<le> 51"
    "\<forall>d. ch_elapsed hung_child 0 \<le> d \<and> (\<forall>n. ch_elapsed hung_child (Suc n) \<le> ch_elapsed hung_child n + d) \<longrightarrow>
       ch_elapsed hung_child k \<le> 250000 + d"
    "cr_actual_code r = Some ERR_TIMEOUT"
    by (auto simp: hung_child_def)
  then show ?thesis by (intro exI [of _ k] exI [of _ r]) (auto simp: hung_child_def dest!: spec [of _ 5100])
qed

section \<open>Failures of the supervisor itself\<close>

text \<open>
  The supervisor or the worker failed: no executable, no child, or in the round that decides a
  poll that failed, an output that could not be collected or one without a report line.
\<close>

definition child_failed :: "child \<Rightarrow> nat \<Rightarrow> bool" where
  "child_failed ch k \<longleftrightarrow> (case ch_poll ch k of
     WaitFailed e \<Rightarrow> True
   | Running \<Rightarrow> False
   | Exited \<Rightarrow> (case ch_output ch of
       None \<Rightarrow> False
     | Some (Inl e) \<Rightarrow> True
     | Some (Inr out) \<Rightarrow> parse_worker_summary (from_utf8_lossy (po_stdout out)) = None))"

definition supervisor_failed ::
  "string + string \<Rightarrow> (string \<Rightarrow> string list \<Rightarrow> string + child) \<Rightarrow> string list \<Rightarrow> u64 \<Rightarrow> bool" where
  "supervisor_failed current_exe spawn args t \<longleftrightarrow>
     (case current_exe of Inl e \<Rightarrow> True
      | Inr path \<Rightarrow> (case spawn path args of Inl e \<Rightarrow> True
         | Inr ch \<Rightarrow> \<exists>k. decides_at ch t k \<and> child_failed ch k))"

text \<open>What a pass takes: the child's own report line with the expected code, or an expected timeout.\<close>

definition child_passes :: "guest_case \<Rightarrow> u64 \<Rightarrow> child \<Rightarrow> nat \<Rightarrow> bool" where
  "child_passes c t ch k \<longleftrightarrow> decides_at ch t k \<and>
     (ch_poll ch k = Exited \<and>
        (\<exists>out w. ch_output ch = Some (Inr out) \<and>
           parse_worker_summary (from_utf8_lossy (po_stdout out)) = Some w \<and>
           ws_actual_code w = Some (gc_expected_code c) \<and> ws_host_error w = None) \<or>
      ch_poll ch k = Running \<and> gc_expected_code c = ERR_TIMEOUT)"

lemma error_report_fails [simp]: "\<not> passed (supervisor_error_report c b e)"
  by (simp add: passed_def supervisor_error_report_def)

lemma timeout_report_passes: "passed (timeout_report c b t pid el) \<longleftrightarrow> gc_expected_code c = ERR_TIMEOUT"
  by (auto simp: passed_def timeout_report_def)

lemma completion_passes:
  "passed (supervised_completion_report c b out el) \<longleftrightarrow>
     (\<exists>w. parse_worker_summary (from_utf8_lossy (po_stdout out)) = Some w \<and>
        ws_actual_code w = Some (gc_expected_code c) \<and> ws_host_error w = None)"
  by (cases "parse_worker_summary (from_utf8_lossy (po_stdout out))")
    (auto simp: supervised_completion_report_def passed_def supervisor_error_report_def)

lemma failed_round:
  assumes "child_failed ch k"
  shows "\<exists>r. wait_loop c b t ch k = Some r \<and> \<not> passed r"
proof (cases "ch_poll ch k")
  case Exited
  then show ?thesis using assms wait_loop_simps(1) [OF Exited]
    by (auto simp: child_failed_def completion_passes split: option.splits sum.splits)
next
  case (WaitFailed e)
  then show ?thesis using wait_loop_simps(2) [OF WaitFailed] by simp
qed (use assms in \<open>simp add: child_failed_def\<close>)

lemma passing_round:
  assumes "decides_at ch t k" and "wait_loop c b t ch k = Some r" and "passed r"
  shows "child_passes c t ch k"
proof (cases "ch_poll ch k")
  case Exited
  from assms(2) obtain res where o: "ch_output ch = Some res"
      "r = (case res of
         Inl err \<Rightarrow> supervisor_error_report c b (''worker output collection failed: '' @ err)
       | Inr out \<Rightarrow> supervised_completion_report c b out (ch_report_elapsed ch k))"
    unfolding wait_loop_simps(1) [OF Exited] map_option_eq_Some by blast
  then show ?thesis using Exited assms(1,3)
    by (cases res) (auto simp: child_passes_def completion_passes)
next
  case Running
  moreover from this have "1000 * unat t \<le> ch_elapsed ch k" using assms(1) by (simp add: decides_at_def)
  ultimately show ?thesis using assms wait_loop_simps(3) [OF Running, of t c b]
    by (auto simp: child_passes_def timeout_report_passes)
next
  case (WaitFailed e)
  then show ?thesis using assms(2,3) wait_loop_simps(2) [OF WaitFailed] by auto
qed

text \<open>
  C28. The supervisor never turns a failure into a pass. If the executable cannot be found, the
  worker cannot be spawned, or the round that decides, however many have found the child running
  before, finds that the wait fails, that the output cannot be collected or that it holds no
  report line, then the run returns a report that does not pass, whatever code the case expects.
  And a report that passes comes from a child that was spawned, and either ended with a report
  line that has the expected code and no host error, or ran out of time in a case that expects to.
\<close>

theorem supervisor_failure_never_passes:
  "(supervisor_failed current_exe spawn (worker_args c b opts) (supervisor_timeout_ms p) \<longrightarrow>
      (\<exists>r. run_case_supervised current_exe spawn c b p opts = Some r \<and> \<not> passed r)) \<and>
   (\<forall>r. run_case_supervised current_exe spawn c b p opts = Some r \<and> passed r \<longrightarrow>
      (\<exists>path ch k. current_exe = Inr path \<and> spawn path (worker_args c b opts) = Inr ch \<and>
         child_passes c (supervisor_timeout_ms p) ch k))"
proof (cases current_exe)
  case (Inr path)
  show ?thesis
  proof (cases "spawn path (worker_args c b opts)")
    case ch: (Inr ch)
    have run: "run_case_supervised current_exe spawn c b p opts = wait_loop c b (supervisor_timeout_ms p) ch 0"
      by (simp add: run_case_supervised_def Inr ch)
    have "\<exists>r. wait_loop c b (supervisor_timeout_ms p) ch 0 = Some r \<and> \<not> passed r"
      if "supervisor_failed current_exe spawn (worker_args c b opts) (supervisor_timeout_ms p)"
      using that failed_round wait_loop_decided by (fastforce simp: supervisor_failed_def Inr ch)
    moreover have "\<exists>k. child_passes c (supervisor_timeout_ms p) ch k"
      if "wait_loop c b (supervisor_timeout_ms p) ch 0 = Some r" "passed r" for r
      using wait_loop_result [OF that(1)] passing_round that(2) by metis
    ultimately show ?thesis unfolding run using Inr ch by blast
  qed (auto simp: run_case_supervised_def Inr)
qed (auto simp: run_case_supervised_def)

text \<open>A worker that is seen running twice and then ends without a report line.\<close>

definition silent_child :: child where
  "silent_child = \<lparr>ch_pid = 42, ch_poll = (\<lambda>n. if n < 2 then Running else Exited), ch_elapsed = (\<lambda>n. 5100 * n),
     ch_report_elapsed = (\<lambda>n. 5100 * n + 90),
     ch_output = Some (Inr \<lparr>po_status = ''exit status: 0'', po_stdout = [79, 75, 10], po_stderr = []\<rparr>)\<rparr>"

theorem supervisor_failure_never_passes_witness:
  "\<exists>r. run_case_supervised (Inr ''demo'') (\<lambda>path args. Inr silent_child) (demo_case RunExport)
      Cranelift policy_default \<lparr>so_policy_path = None, so_corpus_dir = None, so_allow_unmetered = False\<rparr> =
      Some r \<and> \<not> passed r"
proof -
  have "decides_at silent_child (supervisor_timeout_ms policy_default) 2" by code_simp
  moreover have "child_failed silent_child 2" by code_simp
  ultimately have "supervisor_failed (Inr ''demo'') (\<lambda>path args. Inr silent_child) args (supervisor_timeout_ms policy_default)" for args
    by (auto simp: supervisor_failed_def)
  then show ?thesis using supervisor_failure_never_passes by blast
qed

section \<open>The worker's command line\<close>

lemma parse_args_value:
  assumes "flag \<in> set value_flags" and "\<not> starts_with ''--'' v" and "value_flag c flag v = Inr c'"
  shows "parse_args c (flag # v # rest) = parse_args c' rest"
  using assms by (simp add: parse_args.simps(2) require_value_def)

lemma parse_args_switch:
  assumes "arg \<notin> set value_flags" and "switch_flag c arg = Inr c'"
  shows "parse_args c (arg # rest) = parse_args c' rest"
  using assms by (simp add: parse_args.simps(2))

lemma worker_flags:
  "\<not> starts_with ''--'' v \<Longrightarrow>
     parse_args cf (''--worker-case'' # v # rest) = parse_args (cf\<lparr>cf_worker_case := Some v\<rparr>) rest"
  "parse_args cf (''--backend'' # backend_name b # rest) = parse_args (cf\<lparr>cf_backend := b\<rparr>) rest"
  "\<not> starts_with ''--'' v \<Longrightarrow>
     parse_args cf (''--policy'' # v # rest) = parse_args (cf\<lparr>cf_policy_path := Some v\<rparr>) rest"
  "\<not> starts_with ''--'' v \<Longrightarrow>
     parse_args cf (''--corpus'' # v # rest) = parse_args (cf\<lparr>cf_corpus_dir := Some v\<rparr>) rest"
  "parse_args cf (''--no-color'' # rest) = parse_args (cf\<lparr>cf_no_color := True\<rparr>) rest"
  "parse_args cf (''--allow-unmetered'' # rest) = parse_args (cf\<lparr>cf_allow_unmetered := True\<rparr>) rest"
  "parse_args cf (''--worker-execute-static-audit'' # rest) =
     parse_args (cf\<lparr>cf_worker_execute_static := True\<rparr>) rest"
        apply (rule parse_args_value; simp add: value_flags_def value_flag_def)
       apply (cases b; rule parse_args_value; simp add: value_flags_def value_flag_def
        backend_name_def starts_with_def)
      apply (rule parse_args_value; simp add: value_flags_def value_flag_def)
     apply (rule parse_args_value; simp add: value_flags_def value_flag_def)
    apply (rule parse_args_switch; simp add: value_flags_def switch_flag_def)
   apply (rule parse_args_switch; simp add: value_flags_def switch_flag_def)
  apply (rule parse_args_switch; simp add: value_flags_def switch_flag_def)
  done

definition worker_config :: "guest_case \<Rightarrow> backend \<Rightarrow> supervisor_options \<Rightarrow> config" where
  "worker_config c b opts = config_default\<lparr>cf_worker_case := Some (gc_name c), cf_backend := b,
     cf_no_color := True, cf_policy_path := so_policy_path opts, cf_corpus_dir := so_corpus_dir opts,
     cf_allow_unmetered := so_allow_unmetered opts \<or> gc_kind c = StaticAudit,
     cf_worker_execute_static := (gc_kind c = StaticAudit)\<rparr>"

definition plain_value :: "string \<Rightarrow> bool" where
  "plain_value v \<longleftrightarrow> \<not> starts_with ''--'' v"

text \<open>
  The worker runs what the supervisor was asked to run. If the case's name and the policy and
  corpus paths do not begin with two dashes, the command line the supervisor builds is accepted
  by the argument loop and gives the configuration with that case, backend, policy, corpus and
  metering, static fixtures executed exactly for a static-audit case, and defaults otherwise.
\<close>

theorem worker_args_parse:
  assumes "plain_value (gc_name c)" and "pred_option plain_value (so_policy_path opts)"
    and "pred_option plain_value (so_corpus_dir opts)"
  shows "from_args (exe # worker_args c b opts) = Inr (worker_config c b opts)"
  using assms
  by (cases "so_policy_path opts"; cases "so_corpus_dir opts"; cases "so_allow_unmetered opts";
      cases "gc_kind c = StaticAudit")
    (simp_all add: plain_value_def from_args_def worker_args_def worker_flags worker_config_def
      config_default_def)

theorem worker_args_parse_witness:
  "from_args [''demo'', ''--worker-case'', ''demo'', ''--backend'', ''singlepass'', ''--no-color'',
     ''--policy'', ''p.toml''] = Inr (config_default\<lparr>cf_worker_case := Some ''demo'',
       cf_backend := Singlepass, cf_no_color := True, cf_policy_path := Some ''p.toml''\<rparr>)"
proof -
  have n: "gc_name (demo_case RunExport) = ''demo''" by (simp add: demo_case_def)
  then show ?thesis
    using worker_args_parse [of "demo_case RunExport" "\<lparr>so_policy_path = Some ''p.toml'',
        so_corpus_dir = None, so_allow_unmetered = False\<rparr>" "''demo''" Singlepass]
    by (simp add: plain_value_def starts_with_def worker_args_def worker_config_def backend_name_def
        config_default_def)
qed

end
