(* ===== verification/Honeypot_Log.thy ===== *)
theory Honeypot_Log
  imports Rust_Str
begin

text \<open>
  The bounded event log both honeypots of \<open>src/wasi_sandbox.rs\<close> keep, and its contract.
\<close>

definition HONEYPOT_EVENT_CAPACITY :: nat where "HONEYPOT_EVENT_CAPACITY = 1024"

definition enforce_capacity :: "'a list \<Rightarrow> nat \<Rightarrow> 'a list" where
  "enforce_capacity evs capacity =
     (if capacity = 0 then []
      else if capacity \<le> length evs then
        (let overflow = length evs + 1 - capacity in drop overflow evs)
      else evs)"

definition push_bounded :: "'a \<Rightarrow> 'a list \<Rightarrow> 'a list" where
  "push_bounded e evs = enforce_capacity evs HONEYPOT_EVENT_CAPACITY @ [e]"

text \<open>The last \<open>n\<close> elements.\<close>

definition newest :: "nat \<Rightarrow> 'a list \<Rightarrow> 'a list" where
  "newest n xs = drop (length xs - n) xs"

lemma length_newest [simp]: "length (newest n xs) = min n (length xs)"
  by (simp add: newest_def)

lemma newest_short: "length xs \<le> n \<Longrightarrow> newest n xs = xs"
  by (simp add: newest_def)

lemma newest_append: "newest n (newest n xs @ ys) = newest n (xs @ ys)"
  by (cases "length xs \<le> n") (simp_all add: newest_def add.commute)

lemma push_bounded_newest:
  "length evs \<le> HONEYPOT_EVENT_CAPACITY \<Longrightarrow> push_bounded e evs = newest HONEYPOT_EVENT_CAPACITY (evs @ [e])"
  by (simp add: push_bounded_def enforce_capacity_def newest_def HONEYPOT_EVENT_CAPACITY_def Let_def)

text \<open>
  A bounded log: recording keeps the newest events up to a capacity. Then any number of events
  recorded one after another leave the newest of all, and the log never exceeds the capacity.
\<close>

locale bounded_log =
  fixes logged :: "'s \<Rightarrow> 'e list" and record_one :: "'e \<Rightarrow> 's \<Rightarrow> 's" and capacity :: nat
  assumes record_newest: "length (logged s) \<le> capacity \<Longrightarrow>
    logged (record_one e s) = newest capacity (logged s @ [e])"
begin

lemma record_bounded: "length (logged s) \<le> capacity \<Longrightarrow> length (logged (record_one e s)) \<le> capacity"
  by (simp add: record_newest)

lemma fold_newest:
  "length (logged s) \<le> capacity \<Longrightarrow> logged (fold record_one es s) = newest capacity (logged s @ es)"
proof (induction es arbitrary: s)
  case (Cons e es)
  then have "length (logged (record_one e s)) \<le> capacity" by (simp add: record_bounded)
  then show ?case using Cons.IH [of "record_one e s"] record_newest [OF Cons.prems, of e]
      newest_append [of capacity "logged s @ [e]" es] by simp
qed (simp add: newest_short)

lemma newest_kept: "\<lbrakk>length (logged s) \<le> capacity; 0 < capacity\<rbrakk> \<Longrightarrow> e \<in> set (logged (record_one e s))"
  by (simp add: record_newest newest_def)

end

end
