(* ===== verification/Network_Honeypot.thy ===== *)
theory Network_Honeypot
  imports Honeypot_Log "HOL-Library.AList"
begin

text \<open>
  The network honeypot of \<open>src/wasi_sandbox.rs\<close>: synthetic name resolution, intercepted
  connections, and the socket that answers every request with the mock response. The lock
  around the shared state is never poisoned here (no code holding it panics), so locking always
  succeeds. The iteration order of the host table's hash map is an argument.
\<close>

section \<open>Addresses\<close>

datatype ip_addr =
    V4 u8 u8 u8 u8
  | V6 u16 u16 u16 u16 u16 u16 u16 u16

record socket_addr =
  sa_ip :: ip_addr
  sa_port :: u16

definition unspecified_for :: "ip_addr \<Rightarrow> ip_addr" where
  "unspecified_for peer = (case peer of V4 a b c d \<Rightarrow> V4 0 0 0 0
     | V6 a b c d e f g h \<Rightarrow> V6 0 0 0 0 0 0 0 0)"

definition is_unspecified :: "ip_addr \<Rightarrow> bool" where
  "is_unspecified ip \<longleftrightarrow> ip = V4 0 0 0 0 \<or> ip = V6 0 0 0 0 0 0 0 0"

definition host_hash :: "string \<Rightarrow> u8" where
  "host_hash host = fold (\<lambda>byte acc. acc * 31 + byte) (bytes_of_string host) 0"

definition deterministic_honeypot_ips :: "string \<Rightarrow> ip_addr \<times> ip_addr" where
  "deterministic_honeypot_ips host =
     (let hash = host_hash host in
      (V4 203 0 113 (10 + hash mod 200), V6 0x2001 0x0db8 (ucast hash) 0 0 0 0 1))"

section \<open>State\<close>

datatype network_operation =
    ResolveIntercepted
  | ConnectIntercepted
  | PayloadCaptured
  | MockResponseInjected

record network_event =
  ne_target :: socket_addr
  ne_domain :: "string option"
  ne_operation :: network_operation
  ne_payload :: "u8 list"
  ne_mocked_response_bytes :: nat

datatype network_error = PermissionDenied | ConnectionReset | WouldBlock

record network_honeypot =
  nh_events :: "network_event list"
  nh_resolved_hosts :: "(ip_addr \<times> string) list"
  nh_mock_response :: "u8 list"
  nh_next_ephemeral :: u32

definition RESOLVED_HOST_CAPACITY :: nat where "RESOLVED_HOST_CAPACITY = 1024"
definition MAX_CAPTURED_REQUEST_BYTES :: nat where "MAX_CAPTURED_REQUEST_BYTES = 16 * 1024"
definition EPHEMERAL_PORT_BASE :: u32 where "EPHEMERAL_PORT_BASE = 49152"
definition EPHEMERAL_PORT_SPAN :: u32 where "EPHEMERAL_PORT_SPAN = 16384"

definition DEFAULT_MOCK_JSON :: string where
  \<open>DEFAULT_MOCK_JSON = ''{"id":1,"name":"WASI honeypot user","source":"wasmer-sectest"}''\<close>

definition crlf :: string where "crlf = [cr_char, lf_char]"

definition default_mock_http_response :: "u8 list" where
  "default_mock_http_response = bytes_of_string
     (''HTTP/1.1 200 OK'' @ crlf @ ''content-type: application/json'' @ crlf @ ''content-length: '' @
      show_nat (length DEFAULT_MOCK_JSON) @ crlf @ ''connection: close'' @ crlf @ crlf) @
     bytes_of_string DEFAULT_MOCK_JSON"

definition with_mock_response :: "u8 list \<Rightarrow> network_honeypot" where
  "with_mock_response mock_response = \<lparr>nh_events = [], nh_resolved_hosts = [],
     nh_mock_response = mock_response, nh_next_ephemeral = 0\<rparr>"

definition network_honeypot_new :: network_honeypot where
  "network_honeypot_new = with_mock_response default_mock_http_response"

definition record_net :: "network_event \<Rightarrow> network_honeypot \<Rightarrow> network_honeypot" where
  "record_net e n = n\<lparr>nh_events := push_bounded e (nh_events n)\<rparr>"

text \<open>
  \<open>remember_host\<close>: \<open>first_key\<close> is the first key of the hash map's iteration, which the code
  calls the oldest.
\<close>

definition remember_host ::
  "((ip_addr \<times> string) list \<Rightarrow> ip_addr option) \<Rightarrow> ip_addr \<Rightarrow> string \<Rightarrow> network_honeypot \<Rightarrow> network_honeypot" where
  "remember_host first_key ip host n =
     (let hosts = nh_resolved_hosts n;
          hosts = (if RESOLVED_HOST_CAPACITY \<le> length hosts then
                     (case first_key hosts of Some oldest \<Rightarrow> AList.delete oldest hosts | None \<Rightarrow> hosts)
                   else hosts)
      in n\<lparr>nh_resolved_hosts := AList.update ip host hosts\<rparr>)"

definition domain_for :: "ip_addr \<Rightarrow> network_honeypot \<Rightarrow> string option" where
  "domain_for ip n = map_of (nh_resolved_hosts n) ip"

definition next_local_addr ::
  "socket_addr \<Rightarrow> socket_addr \<Rightarrow> network_honeypot \<Rightarrow> socket_addr \<times> network_honeypot" where
  "next_local_addr requested peer n =
     (let ip = (if is_unspecified (sa_ip requested) then unspecified_for (sa_ip peer)
                else sa_ip requested)
      in if sa_port requested = 0 then
           (\<lparr>sa_ip = ip, sa_port = ucast (EPHEMERAL_PORT_BASE + nh_next_ephemeral n mod EPHEMERAL_PORT_SPAN)\<rparr>,
            n\<lparr>nh_next_ephemeral := nh_next_ephemeral n + 1\<rparr>)
         else (\<lparr>sa_ip = ip, sa_port = sa_port requested\<rparr>, n))"

section \<open>Networking operations\<close>

definition listen_tcp :: "socket_addr \<Rightarrow> network_honeypot \<Rightarrow> (network_error + unit) \<times> network_honeypot" where
  "listen_tcp addr n = (Inl PermissionDenied, n)"

definition bind_udp :: "socket_addr \<Rightarrow> network_honeypot \<Rightarrow> (network_error + unit) \<times> network_honeypot" where
  "bind_udp addr n = (Inl PermissionDenied, n)"

definition bind_raw :: "network_honeypot \<Rightarrow> (network_error + unit) \<times> network_honeypot" where
  "bind_raw n = (Inl PermissionDenied, n)"

definition bind_icmp :: "ip_addr \<Rightarrow> network_honeypot \<Rightarrow> (network_error + unit) \<times> network_honeypot" where
  "bind_icmp addr n = (Inl PermissionDenied, n)"

text \<open>The interests pushed to the current handler, oldest first; \<open>None\<close>: no handler.\<close>

datatype interest = Readable | ClosedInterest

record tcp_socket =
  ts_local_addr :: socket_addr
  ts_peer_addr :: socket_addr
  ts_domain :: "string option"
  ts_request :: "u8 list"
  ts_response :: "u8 list"
  ts_response_offset :: nat
  ts_response_ready :: bool
  ts_payload_logged :: bool
  ts_mock_logged :: bool
  ts_closed :: bool
  ts_ttl :: u32
  ts_recv_buf_size :: nat
  ts_send_buf_size :: nat
  ts_handler :: "interest list option"

definition tcp_socket_new :: "socket_addr \<Rightarrow> socket_addr \<Rightarrow> string option \<Rightarrow> u8 list \<Rightarrow> tcp_socket" where
  "tcp_socket_new local_addr peer_addr domain response =
     \<lparr>ts_local_addr = local_addr, ts_peer_addr = peer_addr, ts_domain = domain, ts_request = [],
      ts_response = response, ts_response_offset = 0, ts_response_ready = False,
      ts_payload_logged = False, ts_mock_logged = False, ts_closed = False, ts_ttl = 64,
      ts_recv_buf_size = 64 * 1024, ts_send_buf_size = 64 * 1024, ts_handler = None\<rparr>"

definition connect_tcp ::
  "socket_addr \<Rightarrow> socket_addr \<Rightarrow> network_honeypot \<Rightarrow> (network_error + tcp_socket) \<times> network_honeypot" where
  "connect_tcp addr peer n =
     (let (local_addr, n1) = next_local_addr addr peer n;
          domain = domain_for (sa_ip peer) n1;
          n2 = record_net \<lparr>ne_target = peer, ne_domain = domain, ne_operation = ConnectIntercepted,
                 ne_payload = [], ne_mocked_response_bytes = 0\<rparr> n1
      in (Inr (tcp_socket_new local_addr peer domain (nh_mock_response n2)), n2))"

definition resolve ::
  "((ip_addr \<times> string) list \<Rightarrow> ip_addr option) \<Rightarrow> string \<Rightarrow> u16 option \<Rightarrow> network_honeypot \<Rightarrow>
   (network_error + ip_addr list) \<times> network_honeypot" where
  "resolve first_key host port n =
     (let (ip4, ip6) = deterministic_honeypot_ips host;
          n1 = remember_host first_key ip6 host (remember_host first_key ip4 host n);
          n2 = record_net \<lparr>ne_target = \<lparr>sa_ip = ip4, sa_port = unwrap_or port 0\<rparr>,
                 ne_domain = Some host, ne_operation = ResolveIntercepted, ne_payload = [],
                 ne_mocked_response_bytes = 0\<rparr> n1
      in (Inr [ip4, ip6], n2))"

section \<open>The socket\<close>

text \<open>\<open>windows(4).any(..) || windows(2).any(..)\<close>: a blank line with or without carriage returns.\<close>

fun has_window :: "'a list \<Rightarrow> 'a list \<Rightarrow> bool" where
  "has_window pat [] = (pat = [])"
| "has_window pat (x # xs) = (take (length pat) (x # xs) = pat \<or> has_window pat xs)"

definition has_complete_http_headers :: "u8 list \<Rightarrow> bool" where
  "has_complete_http_headers payload \<longleftrightarrow>
     has_window [13, 10, 13, 10] payload \<or> has_window [10, 10] payload"

definition push_interest :: "interest \<Rightarrow> tcp_socket \<Rightarrow> tcp_socket" where
  "push_interest i s = s\<lparr>ts_handler := map_option (\<lambda>is. is @ [i]) (ts_handler s)\<rparr>"

type_synonym connection = "network_honeypot \<times> tcp_socket"

definition record_payload_and_prepare_response :: "connection \<Rightarrow> connection" where
  "record_payload_and_prepare_response ns =
     (let (n, s) = ns;
          (n1, s1) = (if \<not> ts_payload_logged s then
              (record_net \<lparr>ne_target = ts_peer_addr s, ne_domain = ts_domain s,
                 ne_operation = PayloadCaptured, ne_payload = ts_request s,
                 ne_mocked_response_bytes = 0\<rparr> n, s\<lparr>ts_payload_logged := True\<rparr>) else (n, s));
          (n2, s2) = (if \<not> ts_mock_logged s1 then
              (record_net \<lparr>ne_target = ts_peer_addr s1, ne_domain = ts_domain s1,
                 ne_operation = MockResponseInjected, ne_payload = [],
                 ne_mocked_response_bytes = length (ts_response s1)\<rparr> n1,
               s1\<lparr>ts_mock_logged := True\<rparr>) else (n1, s1))
      in (n2, push_interest Readable (s2\<lparr>ts_response_ready := True\<rparr>)))"

definition try_send :: "u8 list \<Rightarrow> connection \<Rightarrow> (network_error + nat) \<times> connection" where
  "try_send bytes ns =
     (let (n, s) = ns in
      if ts_closed s then (Inl ConnectionReset, ns)
      else
        (let remaining_capture = MAX_CAPTURED_REQUEST_BYTES - length (ts_request s);
             capture_len = min remaining_capture (length bytes);
             s1 = s\<lparr>ts_request := ts_request s @ take capture_len bytes\<rparr>;
             ns1 = (if \<not> ts_response_ready s1 \<and> (ts_request s1 \<noteq> [] \<and>
                        (has_complete_http_headers (ts_request s1) \<or>
                         MAX_CAPTURED_REQUEST_BYTES \<le> length (ts_request s1)))
                    then record_payload_and_prepare_response (n, s1) else (n, s1))
         in (Inr (length bytes), ns1)))"

definition try_flush :: "connection \<Rightarrow> (network_error + unit) \<times> connection" where
  "try_flush ns =
     (if ts_request (snd ns) \<noteq> [] \<and> \<not> ts_response_ready (snd ns)
      then (Inr (), record_payload_and_prepare_response ns) else (Inr (), ns))"

definition close_socket :: "connection \<Rightarrow> (network_error + unit) \<times> connection" where
  "close_socket ns = (Inr (), fst ns, push_interest ClosedInterest ((snd ns)\<lparr>ts_closed := True\<rparr>))"

definition shutdown :: "connection \<Rightarrow> (network_error + unit) \<times> connection" where
  "shutdown ns = (Inr (), fst ns, push_interest ClosedInterest ((snd ns)\<lparr>ts_closed := True\<rparr>))"

text \<open>\<open>try_recv\<close> into a buffer of \<open>buf_len\<close> bytes: the bytes written to its front.\<close>

definition try_recv :: "nat \<Rightarrow> bool \<Rightarrow> connection \<Rightarrow> (network_error + u8 list) \<times> connection" where
  "try_recv buf_len peek ns =
     (if \<not> ts_response_ready (snd ns) \<and> ts_request (snd ns) = [] then (Inl WouldBlock, ns)
      else
        (let (n, s) = (if \<not> ts_response_ready (snd ns) then record_payload_and_prepare_response ns else ns);
             remaining = drop (ts_response_offset s) (ts_response s)
         in if remaining = [] then
              (Inr [], n, push_interest ClosedInterest (s\<lparr>ts_closed := True\<rparr>))
            else
              (let read_len = min (length remaining) buf_len in
               (Inr (take read_len remaining), n,
                if \<not> peek then s\<lparr>ts_response_offset := ts_response_offset s + read_len\<rparr> else s))))"

text \<open>The readiness polls register the waker as the handler; \<open>None\<close> is \<open>Poll::Pending\<close>.\<close>

definition set_handler :: "tcp_socket \<Rightarrow> tcp_socket" where
  "set_handler s = s\<lparr>ts_handler := Some []\<rparr>"

definition remove_handler :: "tcp_socket \<Rightarrow> tcp_socket" where
  "remove_handler s = s\<lparr>ts_handler := None\<rparr>"

definition poll_read_ready :: "tcp_socket \<Rightarrow> (network_error + nat) option \<times> tcp_socket" where
  "poll_read_ready s0 =
     (let s = set_handler s0 in
      (if ts_response_ready s then Some (Inr (length (ts_response s) - ts_response_offset s))
       else if ts_closed s then Some (Inr 0) else None, s))"

definition poll_write_ready :: "tcp_socket \<Rightarrow> (network_error + nat) option \<times> tcp_socket" where
  "poll_write_ready s0 =
     (let s = set_handler s0 in
      (if ts_closed s then Some (Inl ConnectionReset) else Some (Inr (ts_send_buf_size s)), s))"

text \<open>The socket options, and the ones the code fixes.\<close>

definition set_ttl :: "u32 \<Rightarrow> tcp_socket \<Rightarrow> tcp_socket" where
  "set_ttl ttl s = s\<lparr>ts_ttl := ttl\<rparr>"

definition set_recv_buf_size :: "nat \<Rightarrow> tcp_socket \<Rightarrow> tcp_socket" where
  "set_recv_buf_size n s = s\<lparr>ts_recv_buf_size := n\<rparr>"

definition set_send_buf_size :: "nat \<Rightarrow> tcp_socket \<Rightarrow> tcp_socket" where
  "set_send_buf_size n s = s\<lparr>ts_send_buf_size := n\<rparr>"

datatype socket_status = Opened | Closed

definition status :: "tcp_socket \<Rightarrow> socket_status" where
  "status s = (if ts_closed s then Closed else Opened)"

section \<open>The log\<close>

interpretation net_log: bounded_log nh_events record_net HONEYPOT_EVENT_CAPACITY
  by unfold_locales (simp add: record_net_def push_bounded_newest)

section \<open>Name resolution\<close>

definition honeypot_ip :: "ip_addr \<Rightarrow> bool" where
  "honeypot_ip ip = (case ip of
     V4 a b c d \<Rightarrow> a = 203 \<and> b = 0 \<and> c = 113 \<and> 10 \<le> d \<and> d < 210
   | V6 a b c d e f g h \<Rightarrow> a = 0x2001 \<and> b = 0x0db8 \<and> unat c < 256 \<and> d = 0 \<and> e = 0 \<and> f = 0 \<and> g = 0 \<and> h = 1)"

lemma honeypot_ips_ok:
  "deterministic_honeypot_ips host = (ip4, ip6) \<Longrightarrow> honeypot_ip ip4 \<and> honeypot_ip ip6"
proof -
  have "unat (host_hash host mod 200) < 200"
    by (simp add: unat_mod)
  then have "unat (10 + host_hash host mod 200) = 10 + unat (host_hash host mod 200)"
    by (simp add: unat_word_ariths)
  then show "deterministic_honeypot_ips host = (ip4, ip6) \<Longrightarrow> honeypot_ip ip4 \<and> honeypot_ip ip6"
    using \<open>unat (host_hash host mod 200) < 200\<close>
    by (auto simp: deterministic_honeypot_ips_def honeypot_ip_def Let_def word_le_nat_alt
        word_less_nat_alt)
qed

text \<open>The addresses the resolver can give out: 200 of version 4 and 256 of version 6.\<close>

definition honeypot_ips :: "ip_addr set" where
  "honeypot_ips = (\<lambda>d. V4 203 0 113 (word_of_nat d)) ` {10..<210} \<union>
     (\<lambda>c. V6 0x2001 0x0db8 (word_of_nat c) 0 0 0 0 1) ` {..<256}"

lemma honeypot_ip_member: "honeypot_ip ip \<Longrightarrow> ip \<in> honeypot_ips"
proof (cases ip)
  case (V4 a b c d)
  assume "honeypot_ip ip"
  then have "unat d \<in> {10..<210}" "ip = V4 203 0 113 (word_of_nat (unat d))"
    using V4 by (auto simp: honeypot_ip_def word_le_nat_alt word_less_nat_alt)
  then show ?thesis unfolding honeypot_ips_def by blast
next
  case (V6 a b c d e f g h)
  assume "honeypot_ip ip"
  then have "unat c \<in> {..<256}" "ip = V6 0x2001 0x0db8 (word_of_nat (unat c)) 0 0 0 0 1"
    using V6 by (auto simp: honeypot_ip_def)
  then show ?thesis unfolding honeypot_ips_def by blast
qed

lemma card_honeypot_ips: "finite honeypot_ips \<and> card honeypot_ips \<le> 456"
proof -
  have "card honeypot_ips \<le> card {10..<210 :: nat} + card {..<256 :: nat}"
    unfolding honeypot_ips_def
    by (rule order_trans [OF card_Un_le]) (intro add_mono card_image_le; simp)
  then show ?thesis by (simp add: honeypot_ips_def)
qed

text \<open>The host table: distinct keys, all of them synthetic addresses.\<close>

definition hosts_wf :: "network_honeypot \<Rightarrow> bool" where
  "hosts_wf n \<longleftrightarrow> distinct (map fst (nh_resolved_hosts n)) \<and> list_all honeypot_ip (map fst (nh_resolved_hosts n))"

lemma hosts_small:
  assumes "hosts_wf n"
  shows "length (nh_resolved_hosts n) \<le> 456"
proof -
  have "set (map fst (nh_resolved_hosts n)) \<subseteq> honeypot_ips"
    using assms honeypot_ip_member by (auto simp: hosts_wf_def list_all_iff)
  then have "card (set (map fst (nh_resolved_hosts n))) \<le> 456"
    using card_honeypot_ips card_mono le_trans by blast
  then show ?thesis using assms distinct_card [of "map fst (nh_resolved_hosts n)"]
    by (simp add: hosts_wf_def)
qed

lemma remember_host_small:
  "hosts_wf n \<Longrightarrow> remember_host first_key ip host n =
     n\<lparr>nh_resolved_hosts := AList.update ip host (nh_resolved_hosts n)\<rparr>"
  using hosts_small [of n] by (simp add: remember_host_def RESOLVED_HOST_CAPACITY_def Let_def)

lemma set_update_fst: "fst ` set (AList.update k v al) = insert k (fst ` set al)"
  using dom_update [of k v al] by (simp add: dom_map_of_conv_image_fst)

lemma remember_host_wf: "\<lbrakk>hosts_wf n; honeypot_ip ip\<rbrakk> \<Longrightarrow> hosts_wf (remember_host first_key ip host n)"
  using set_update_fst [of ip host "nh_resolved_hosts n"]
  by (simp add: remember_host_small) (simp add: hosts_wf_def list_all_iff distinct_update)

lemma record_net_hosts [simp]:
  "nh_resolved_hosts (record_net e n) = nh_resolved_hosts n"
  "nh_mock_response (record_net e n) = nh_mock_response n"
  "hosts_wf (record_net e n) = hosts_wf n"
  by (simp_all add: record_net_def hosts_wf_def)

text \<open>A guest's name resolutions, in order.\<close>

fun resolve_all ::
  "((ip_addr \<times> string) list \<Rightarrow> ip_addr option) \<Rightarrow> (string \<times> u16 option) list \<Rightarrow> network_honeypot \<Rightarrow>
   network_honeypot" where
  "resolve_all first_key [] n = n"
| "resolve_all first_key ((host, port) # hs) n =
     resolve_all first_key hs (snd (resolve first_key host port n))"

lemma resolve_state:
  assumes "hosts_wf n"
  shows "hosts_wf (snd (resolve first_key host port n)) \<and>
    nh_resolved_hosts (snd (resolve first_key host port n)) =
      AList.update (snd (deterministic_honeypot_ips host)) host
        (AList.update (fst (deterministic_honeypot_ips host)) host (nh_resolved_hosts n))"
proof -
  obtain ip4 ip6 where ips: "deterministic_honeypot_ips host = (ip4, ip6)" by fastforce
  note ok = honeypot_ips_ok [OF ips]
  have wf: "hosts_wf (remember_host first_key ip4 host n)"
    using remember_host_wf [OF assms] ok by blast
  then have "hosts_wf (remember_host first_key ip6 host (remember_host first_key ip4 host n))"
    using remember_host_wf ok by blast
  then show ?thesis
    using remember_host_small [OF wf, of first_key ip6 host] remember_host_small [OF assms, of first_key ip4 host]
    by (simp add: resolve_def ips Let_def)
qed

lemma resolve_all_wf: "hosts_wf n \<Longrightarrow> hosts_wf (resolve_all first_key hs n)"
  by (induction first_key hs n rule: resolve_all.induct) (use resolve_state in auto)

lemma resolve_all_key: "hosts_wf n \<Longrightarrow> resolve_all first_key hs n = resolve_all first_key' hs n"
proof (induction first_key hs n rule: resolve_all.induct)
  case (2 first_key host port hs n)
  obtain ip4 ip6 where ips: "deterministic_honeypot_ips host = (ip4, ip6)" by fastforce
  have wf: "hosts_wf (remember_host first_key ip4 host n)"
    using remember_host_wf [OF "2.prems"] honeypot_ips_ok [OF ips] by blast
  have "snd (resolve first_key host port n) = snd (resolve first_key' host port n)"
    using remember_host_small [OF wf] remember_host_small [OF "2.prems"]
    by (simp add: resolve_def ips Let_def)
  then show ?case using 2 resolve_state [OF "2.prems"] by simp
qed simp

lemma fst_ips: "deterministic_honeypot_ips h = (a, b) \<Longrightarrow> a = fst (deterministic_honeypot_ips h)"
  by simp

lemma ips_families: "fst (deterministic_honeypot_ips h) \<noteq> snd (deterministic_honeypot_ips h')"
  by (simp add: deterministic_honeypot_ips_def Let_def)

lemma domain_after_resolve:
  assumes "hosts_wf n"
  shows "domain_for (fst (deterministic_honeypot_ips host)) (snd (resolve first_key host port n)) = Some host"
  using resolve_state [OF assms, of first_key host port] ips_families [of host host]
  by (simp add: domain_for_def update_conv')

lemma domain6_after_resolve:
  assumes "hosts_wf n"
  shows "domain_for (snd (deterministic_honeypot_ips host)) (snd (resolve first_key host port n)) = Some host"
  using resolve_state [OF assms, of first_key host port]
  by (simp add: domain_for_def update_conv')

lemma resolve_answer:
  "fst (resolve first_key host port n) =
     Inr [fst (deterministic_honeypot_ips host), snd (deterministic_honeypot_ips host)]"
  "last (nh_events (snd (resolve first_key host port n))) =
     \<lparr>ne_target = \<lparr>sa_ip = fst (deterministic_honeypot_ips host), sa_port = unwrap_or port 0\<rparr>,
      ne_domain = Some host, ne_operation = ResolveIntercepted, ne_payload = [], ne_mocked_response_bytes = 0\<rparr>"
  by (simp_all add: resolve_def case_prod_unfold Let_def) (simp add: record_net_def push_bounded_def)

text \<open>
  C32. Name resolution never leaves the sandbox and needs no eviction. Whatever names a guest has
  resolved and in whatever order, from a new honeypot, the next resolution of any name answers an
  address in 203.0.113.10-209 and one in 2001:db8::/40, the same in every state of any honeypot;
  the host table then knows both under that name, and the newest event says that the name was
  resolved to the first. Every address the table knows is in those ranges, it has at most 456
  entries, far below its capacity, and so the state does not depend on the order in which the
  hash map would evict.
\<close>

theorem resolver_contained:
  "let n = resolve_all first_key hs (with_mock_response mock); (r, n') = resolve first_key host port n in
   (\<exists>d c. r = Inr [V4 203 0 113 d, V6 0x2001 0x0db8 c 0 0 0 0 1] \<and> 10 \<le> unat d \<and> unat d < 210 \<and> unat c < 256 \<and>
      domain_for (V4 203 0 113 d) n' = Some host \<and>
      domain_for (V6 0x2001 0x0db8 c 0 0 0 0 1) n' = Some host \<and>
      last (nh_events n') = \<lparr>ne_target = \<lparr>sa_ip = V4 203 0 113 d, sa_port = unwrap_or port 0\<rparr>,
        ne_domain = Some host, ne_operation = ResolveIntercepted, ne_payload = [], ne_mocked_response_bytes = 0\<rparr>) \<and>
   r = fst (resolve first_key' host port' any) \<and>
   list_all honeypot_ip (map fst (nh_resolved_hosts n')) \<and> length (nh_resolved_hosts n') \<le> 456 \<and>
   456 < RESOLVED_HOST_CAPACITY \<and> n = resolve_all first_key' hs (with_mock_response mock)"
proof -
  let ?n = "resolve_all first_key hs (with_mock_response mock)"
  have new: "hosts_wf (with_mock_response mock)" by (simp add: with_mock_response_def hosts_wf_def)
  then have wf: "hosts_wf ?n" by (rule resolve_all_wf)
  then have wf': "hosts_wf (snd (resolve first_key host port ?n))" using resolve_state by blast
  obtain d c where dc: "deterministic_honeypot_ips host = (V4 203 0 113 d, V6 0x2001 0x0db8 c 0 0 0 0 1)"
    by (auto simp: deterministic_honeypot_ips_def Let_def)
  then have "10 \<le> unat d" "unat d < 210" "unat c < 256"
    using honeypot_ips_ok [OF dc] by (auto simp: honeypot_ip_def word_le_nat_alt word_less_nat_alt)
  then show ?thesis
    using wf' hosts_small [OF wf'] resolve_all_key [OF new, of first_key hs first_key']
      domain_after_resolve [OF wf, of host first_key port] domain6_after_resolve [OF wf, of host first_key port]
      resolve_answer [of first_key host port ?n] resolve_answer(1) [of first_key' host port' any]
    by (simp add: Let_def case_prod_unfold RESOLVED_HOST_CAPACITY_def hosts_wf_def dc)
qed

section \<open>Attribution of connections\<close>

lemma next_local_addr_hosts:
  "nh_resolved_hosts (snd (next_local_addr a p n)) = nh_resolved_hosts n"
  "nh_events (snd (next_local_addr a p n)) = nh_events n"
  by (simp_all add: next_local_addr_def Let_def)

text \<open>
  The connection log names the last name resolved to an address, not the one the guest
  connects for. If two names hash to the same version 4 address and a guest resolves first one
  and then the other, a connection to the address it was given for the first is logged with the
  second name as its domain.
\<close>

theorem colliding_names_misattributed:
  assumes "fst (deterministic_honeypot_ips h1) = fst (deterministic_honeypot_ips h2)"
    and "hosts_wf n"
  shows "let n2 = snd (resolve first_key h2 p2 (snd (resolve first_key h1 p1 n)));
      target = \<lparr>sa_ip = fst (deterministic_honeypot_ips h1), sa_port = port\<rparr> in
    ne_domain (last (nh_events (snd (connect_tcp local target n2)))) = Some h2"
proof -
  have "hosts_wf (snd (resolve first_key h1 p1 n))" using resolve_state [OF assms(2)] by blast
  from domain_after_resolve [OF this, of h2 first_key p2] show ?thesis
    using assms(1)
    by (simp add: connect_tcp_def Let_def case_prod_unfold record_net_def push_bounded_def
        domain_for_def next_local_addr_hosts)
qed

lemma colliding_names_misattributed_witness:
  "let n = with_mock_response [];
       n2 = snd (resolve (\<lambda>hosts. None) ''evil120.net'' None
              (snd (resolve (\<lambda>hosts. None) ''api.github.com'' None n)));
       target = \<lparr>sa_ip = fst (deterministic_honeypot_ips ''api.github.com''), sa_port = 443\<rparr>
   in ne_domain (last (nh_events (snd (connect_tcp target target n2)))) = Some ''evil120.net''"
proof -
  have "fst (deterministic_honeypot_ips ''api.github.com'') = fst (deterministic_honeypot_ips ''evil120.net'')"
    by code_simp
  moreover have "hosts_wf (with_mock_response [])" by (simp add: hosts_wf_def with_mock_response_def)
  ultimately show ?thesis
    using colliding_names_misattributed [of "''api.github.com''" "''evil120.net''" "with_mock_response []"]
    by (simp only: Let_def)
qed

text \<open>The local address of a connection: the guest's own port, or one of the ephemeral range.\<close>

lemma ephemeral_port:
  "unat (ucast (EPHEMERAL_PORT_BASE + x mod EPHEMERAL_PORT_SPAN) :: u16) = 49152 + unat x mod 16384"
proof -
  have "unat (EPHEMERAL_PORT_BASE + x mod EPHEMERAL_PORT_SPAN) = 49152 + unat x mod 16384"
    by (simp add: EPHEMERAL_PORT_BASE_def EPHEMERAL_PORT_SPAN_def unat_word_ariths unat_mod)
  then show ?thesis by (simp add: unsigned_ucast_eq take_bit_nat_eq_self)
qed

text \<open>
  Connections get consecutive ephemeral ports. A connection that asks for no port is bound
  to 49152 plus the connection counter modulo 16384, so always to the range 49152 to 65535, and
  the counter advances; one that asks for a port gets it and the counter stays.
\<close>

theorem local_port_range:
  "let (a, n') = next_local_addr req peer n in
     if sa_port req = 0 then
       unat (sa_port a) = 49152 + unat (nh_next_ephemeral n) mod 16384 \<and>
       nh_next_ephemeral n' = nh_next_ephemeral n + 1
     else sa_port a = sa_port req \<and> n' = n"
  by (simp add: next_local_addr_def Let_def ephemeral_port)

section \<open>A socket's life\<close>

text \<open>What a guest does with a socket, one operation after another, and all it receives.\<close>

datatype socket_op =
    Send "u8 list"
  | Flush
  | Recv nat bool
  | Close
  | Shutdown

fun socket_step :: "socket_op \<Rightarrow> connection \<Rightarrow> (network_error + u8 list) \<times> connection" where
  "socket_step (Send bytes) ns = map_prod (map_sum id (\<lambda>n. [])) id (try_send bytes ns)"
| "socket_step Flush ns = map_prod (map_sum id (\<lambda>u. [])) id (try_flush ns)"
| "socket_step (Recv buf_len peek) ns = try_recv buf_len peek ns"
| "socket_step Close ns = map_prod (map_sum id (\<lambda>u. [])) id (close_socket ns)"
| "socket_step Shutdown ns = map_prod (map_sum id (\<lambda>u. [])) id (shutdown ns)"

definition received :: "socket_op \<Rightarrow> network_error + u8 list \<Rightarrow> u8 list" where
  "received op r = (case op of Recv buf_len peek \<Rightarrow> (case r of Inr bs \<Rightarrow> if peek then [] else bs | Inl e \<Rightarrow> [])
     | _ \<Rightarrow> [])"

fun run_socket :: "socket_op list \<Rightarrow> connection \<Rightarrow> u8 list \<times> connection" where
  "run_socket [] ns = ([], ns)"
| "run_socket (op # ops) ns =
     (let (r, ns1) = socket_step op ns; (bs, ns2) = run_socket ops ns1 in (received op r @ bs, ns2))"

text \<open>The request bytes an operation adds.\<close>

fun sent_by :: "socket_op list \<Rightarrow> u8 list" where
  "sent_by [] = []"
| "sent_by (Send bytes # ops) = bytes @ sent_by ops"
| "sent_by (_ # ops) = sent_by ops"

lemma prepare_simps [simp]:
  "ts_response (snd (record_payload_and_prepare_response ns)) = ts_response (snd ns)"
  "ts_response_offset (snd (record_payload_and_prepare_response ns)) = ts_response_offset (snd ns)"
  "ts_request (snd (record_payload_and_prepare_response ns)) = ts_request (snd ns)"
  "ts_response_ready (snd (record_payload_and_prepare_response ns))"
  "ts_payload_logged (snd (record_payload_and_prepare_response ns))"
  "ts_mock_logged (snd (record_payload_and_prepare_response ns))"
  by (simp_all add: record_payload_and_prepare_response_def push_interest_def case_prod_unfold Let_def)

lemma push_interest_simps [simp]:
  "ts_response (push_interest i s) = ts_response s"
  "ts_response_offset (push_interest i s) = ts_response_offset s"
  "ts_request (push_interest i s) = ts_request s"
  "ts_response_ready (push_interest i s) = ts_response_ready s"
  "ts_payload_logged (push_interest i s) = ts_payload_logged s"
  "ts_mock_logged (push_interest i s) = ts_mock_logged s"
  "ts_peer_addr (push_interest i s) = ts_peer_addr s" "ts_domain (push_interest i s) = ts_domain s"
  by (simp_all add: push_interest_def)

text \<open>What is left of the response: a step hands over the front of it and keeps the rest.\<close>

definition unread :: "tcp_socket \<Rightarrow> u8 list" where
  "unread s = drop (ts_response_offset s) (ts_response s)"

lemma take_drop_append [simp]: "take m (drop k xs) @ drop (k + m) xs = drop k xs"
  by (metis add.commute append_take_drop_id drop_drop)

lemma socket_step_unread:
  "socket_step op ns = (r, ns') \<Longrightarrow> unread (snd ns) = received op r @ unread (snd ns')"
  by (cases op)
    (auto simp: try_send_def try_flush_def close_socket_def shutdown_def try_recv_def received_def
      unread_def Let_def case_prod_unfold split: if_splits)

lemma run_socket_unread:
  "run_socket ops ns = (bs, ns') \<Longrightarrow> unread (snd ns) = bs @ unread (snd ns')"
proof (induction ops arbitrary: ns bs)
  case (Cons op ops)
  obtain r ns1 where s: "socket_step op ns = (r, ns1)" by (rule prod.exhaust)
  obtain bs2 ns2 where t: "run_socket ops ns1 = (bs2, ns2)" by (rule prod.exhaust)
  from Cons.prems s t have "bs = received op r @ bs2" "run_socket ops ns1 = (bs2, ns')" by simp_all
  then show ?case using Cons.IH socket_step_unread [OF s] by simp
qed simp

text \<open>
  C33. Whatever a guest sends, it only ever receives the mock response. For every sequence of
  sends, flushes, receives (into buffers of any size, peeking or not), closes and shutdowns on a
  new connection, the bytes it has received, put together, are a prefix of the mock response.
\<close>

theorem guest_receives_mock_prefix:
  "prefix (fst (run_socket ops (n, tcp_socket_new a peer d response))) response"
proof -
  obtain bs ns' where r: "run_socket ops (n, tcp_socket_new a peer d response) = (bs, ns')" by (rule prod.exhaust)
  have "unread (tcp_socket_new a peer d response) = response"
    by (simp add: unread_def tcp_socket_new_def)
  then show ?thesis using run_socket_unread [OF r] unfolding r by (metis fst_conv snd_conv prefixI)
qed

section \<open>What the log holds of a connection\<close>

lemma run_socket_step:
  "snd (run_socket (op # ops) ns) = snd (run_socket ops (snd (socket_step op ns)))"
  by (simp add: case_prod_unfold Let_def)

text \<open>
  The two states of a connection's evidence: nothing logged yet, or the payload and the mock
  response logged, with the response ready.
\<close>

definition payload_event :: "tcp_socket \<Rightarrow> u8 list \<Rightarrow> network_event" where
  "payload_event s req = \<lparr>ne_target = ts_peer_addr s, ne_domain = ts_domain s,
     ne_operation = PayloadCaptured, ne_payload = req, ne_mocked_response_bytes = 0\<rparr>"

definition mock_event :: "tcp_socket \<Rightarrow> network_event" where
  "mock_event s = \<lparr>ne_target = ts_peer_addr s, ne_domain = ts_domain s,
     ne_operation = MockResponseInjected, ne_payload = [],
     ne_mocked_response_bytes = length (ts_response s)\<rparr>"

definition fresh :: "tcp_socket \<Rightarrow> bool" where
  "fresh s \<longleftrightarrow> \<not> ts_response_ready s \<and> \<not> ts_payload_logged s \<and> \<not> ts_mock_logged s"

lemma prepare_fresh:
  "fresh s \<Longrightarrow> fst (record_payload_and_prepare_response (n, s)) =
     record_net (mock_event s) (record_net (payload_event s (ts_request s)) n)"
  by (simp add: fresh_def record_payload_and_prepare_response_def payload_event_def mock_event_def
      Let_def)

lemma socket_step_ready:
  "ts_response_ready (snd ns) \<Longrightarrow>
     fst (snd (socket_step op ns)) = fst ns \<and> ts_response_ready (snd (snd (socket_step op ns)))"
  by (cases op) (auto simp: try_send_def try_flush_def close_socket_def shutdown_def try_recv_def
      Let_def case_prod_unfold)

lemma run_socket_ready: "ts_response_ready (snd ns) \<Longrightarrow> fst (snd (run_socket ops ns)) = fst ns"
proof (induction ops arbitrary: ns)
  case (Cons op ops)
  then show ?case using socket_step_ready [OF Cons.prems] run_socket_step by metis
qed simp

text \<open>
  Evidence stops when the response is ready. Once a connection's response is ready, which a
  guest brings about by flushing after a single byte, nothing it does afterwards reaches the
  log: any further payload, on that connection, goes unrecorded.
\<close>

theorem late_payload_not_logged:
  assumes "ts_response_ready s"
  shows "fst (snd (run_socket (Send secret # ops) (n, s))) = n"
  using run_socket_ready [of "(n, s)"] assms by (simp del: run_socket.simps)

lemma late_payload_not_logged_witness:
  "let peer = \<lparr>sa_ip = V4 203 0 113 10, sa_port = 443\<rparr>;
       (n, s) = snd (run_socket [Send [65], Flush] (with_mock_response [], tcp_socket_new peer peer None []));
       ops = [Flush, Close]
   in ts_response_ready s \<and> \<not> ts_closed s \<and> length (nh_events n) = 2 \<and>
      fst (snd (run_socket (Send [83, 69, 67] # ops) (n, s))) = n"
proof -
  let ?peer = "\<lparr>sa_ip = V4 203 0 113 10, sa_port = 443\<rparr>"
  let ?c = "snd (run_socket [Send [65], Flush] (with_mock_response [], tcp_socket_new ?peer ?peer None []))"
  have r: "ts_response_ready (snd ?c)" "\<not> ts_closed (snd ?c)" "length (nh_events (fst ?c)) = 2"
    by (simp_all add: try_send_def try_flush_def tcp_socket_new_def MAX_CAPTURED_REQUEST_BYTES_def Let_def
        has_complete_http_headers_def record_payload_and_prepare_response_def push_interest_def
        with_mock_response_def record_net_def push_bounded_def enforce_capacity_def HONEYPOT_EVENT_CAPACITY_def)
  then show ?thesis using late_payload_not_logged [OF r(1), of "[83, 69, 67]" "[Flush, Close]" "fst ?c"]
    by (simp only: case_prod_unfold Let_def simp_thms prod.collapse)
qed

text \<open>
  The evidence of a connection opened when the honeypot was \<open>n0\<close>, after the guest has tried to
  send \<open>sent\<close>: nothing yet, and then the captured request is all of it unless the guest closed
  the connection; or the two events, the payload being the front of what was sent.
\<close>

definition conn_inv :: "network_honeypot \<Rightarrow> socket_addr \<Rightarrow> string option \<Rightarrow> u8 list \<Rightarrow> u8 list \<Rightarrow> connection \<Rightarrow> bool" where
  "conn_inv n0 peer d response sent ns \<longleftrightarrow>
     ts_peer_addr (snd ns) = peer \<and> ts_domain (snd ns) = d \<and> ts_response (snd ns) = response \<and>
     (fresh (snd ns) \<and> fst ns = n0 \<and> length (ts_request (snd ns)) < MAX_CAPTURED_REQUEST_BYTES \<and>
        prefix (ts_request (snd ns)) sent \<and> (\<not> ts_closed (snd ns) \<longrightarrow> ts_request (snd ns) = sent) \<or>
      ts_response_ready (snd ns) \<and> (\<exists>req. prefix req sent \<and> length req \<le> MAX_CAPTURED_REQUEST_BYTES \<and>
        fst ns = record_net (mock_event (snd ns)) (record_net (payload_event (snd ns) req) n0)))"

lemma event_update [simp]:
  "mock_event (s\<lparr>ts_request := r\<rparr>) = mock_event s" "payload_event (s\<lparr>ts_request := r\<rparr>) req = payload_event s req"
  "mock_event (s\<lparr>ts_closed := c\<rparr>) = mock_event s" "payload_event (s\<lparr>ts_closed := c\<rparr>) req = payload_event s req"
  "mock_event (s\<lparr>ts_response_offset := k\<rparr>) = mock_event s"
  "payload_event (s\<lparr>ts_response_offset := k\<rparr>) req = payload_event s req"
  "mock_event (push_interest i s) = mock_event s"
  "payload_event (push_interest i s) req = payload_event s req"
  "fresh (s\<lparr>ts_request := r\<rparr>) = fresh s" "fresh (s\<lparr>ts_closed := c\<rparr>) = fresh s"
  "fresh (push_interest i s) = fresh s"
  by (simp_all add: mock_event_def payload_event_def fresh_def)

lemma prepare_events [simp]:
  "mock_event (snd (record_payload_and_prepare_response ns)) = mock_event (snd ns)"
  "payload_event (snd (record_payload_and_prepare_response ns)) req = payload_event (snd ns) req"
  "ts_peer_addr (snd (record_payload_and_prepare_response ns)) = ts_peer_addr (snd ns)"
  "ts_domain (snd (record_payload_and_prepare_response ns)) = ts_domain (snd ns)"
  by (simp_all add: record_payload_and_prepare_response_def mock_event_def payload_event_def
      case_prod_unfold Let_def)

lemma prepare_inv:
  assumes "fresh s" and "prefix (ts_request s) sent"
    and "length (ts_request s) \<le> MAX_CAPTURED_REQUEST_BYTES"
  shows "conn_inv n (ts_peer_addr s) (ts_domain s) (ts_response s) sent
    (record_payload_and_prepare_response (n, s))"
  using assms by (auto simp: conn_inv_def prepare_fresh)

lemma fresh_not_ready: "fresh s \<Longrightarrow> \<not> ts_response_ready s"
  by (simp add: fresh_def)

lemma send_inv:
  assumes inv: "conn_inv n0 peer d response sent (n, s)" and f: "fresh s"
  shows "conn_inv n0 peer d response (sent @ bytes) (snd (try_send bytes (n, s)))"
proof (cases "ts_closed s")
  case True
  then show ?thesis using inv f fresh_not_ready [OF f] by (auto simp: try_send_def conn_inv_def)
next
  case False
  let ?req = "ts_request s @ take (min (MAX_CAPTURED_REQUEST_BYTES - length (ts_request s)) (length bytes)) bytes"
  let ?s1 = "s\<lparr>ts_request := ?req\<rparr>"
  have s: "n = n0" "ts_request s = sent" "length sent < MAX_CAPTURED_REQUEST_BYTES"
    "ts_peer_addr s = peer" "ts_domain s = d" "ts_response s = response"
    using inv False f fresh_not_ready [OF f] by (auto simp: conn_inv_def)
  have p: "prefix ?req (sent @ bytes)" "length ?req \<le> MAX_CAPTURED_REQUEST_BYTES"
    using s(2,3) by (auto simp: take_is_prefix)
  show ?thesis
  proof (cases "?req \<noteq> [] \<and> (has_complete_http_headers ?req \<or> MAX_CAPTURED_REQUEST_BYTES \<le> length ?req)")
    case True
    then have "snd (try_send bytes (n, s)) = record_payload_and_prepare_response (n, ?s1)"
      using False f by (simp add: try_send_def Let_def fresh_def)
    then show ?thesis using prepare_inv [of ?s1 "sent @ bytes" n] f p s by simp
  next
    case no: False
    then have t: "snd (try_send bytes (n, s)) = (n, ?s1)"
      using False by (auto simp: try_send_def Let_def)
    have len: "length ?req < MAX_CAPTURED_REQUEST_BYTES"
    proof (cases "?req = []")
      case True
      show ?thesis unfolding True by (simp add: MAX_CAPTURED_REQUEST_BYTES_def)
    qed (use no in auto)
    then have "?req = sent @ bytes" using s(2) by (auto simp: min_def split: if_splits)
    then show ?thesis unfolding t using s f False len by (simp add: conn_inv_def)
  qed
qed

lemma flush_inv:
  assumes "conn_inv n0 peer d response sent ns" and "fresh (snd ns)"
  shows "conn_inv n0 peer d response sent (snd (try_flush ns))"
    and "conn_inv n0 peer d response sent (snd (try_recv k peek ns))"
proof -
  obtain n s where ns: "ns = (n, s)" by (rule prod.exhaust)
  have "n = n0" "prefix (ts_request s) sent" "length (ts_request s) < MAX_CAPTURED_REQUEST_BYTES"
    "ts_peer_addr s = peer" "ts_domain s = d" "ts_response s = response"
    using assms fresh_not_ready [OF assms(2)] by (auto simp: conn_inv_def ns)
  then have p: "conn_inv n0 peer d response sent (record_payload_and_prepare_response ns)"
    using prepare_inv [of s sent n] assms(2) by (simp add: ns)
  show "conn_inv n0 peer d response sent (snd (try_flush ns))"
    using p assms by (simp add: try_flush_def)
  show "conn_inv n0 peer d response sent (snd (try_recv k peek ns))"
    using p assms fresh_not_ready [OF assms(2)]
    by (auto simp: try_recv_def Let_def case_prod_unfold conn_inv_def fresh_def)
qed

lemma ready_inv:
  assumes "conn_inv n0 peer d response sent ns" and "ts_response_ready (snd ns)"
  shows "conn_inv n0 peer d response (sent @ sent_by [op]) (snd (socket_step op ns))"
  using assms prefix_prefix
  by (cases op)
    (auto simp: conn_inv_def fresh_def try_send_def try_flush_def close_socket_def shutdown_def
      try_recv_def Let_def case_prod_unfold)


lemma fresh_inv:
  assumes inv: "conn_inv n0 peer d response sent ns" and f: "fresh (snd ns)"
  shows "conn_inv n0 peer d response (sent @ sent_by [op]) (snd (socket_step op ns))"
proof (cases op)
  case (Send bytes)
  then show ?thesis using send_inv [of n0 peer d response sent "fst ns" "snd ns" bytes] assms by simp
next
  case Flush
  then show ?thesis using flush_inv(1) [OF assms] by simp
next
  case (Recv k peek)
  then show ?thesis using flush_inv(2) [OF assms] by simp
qed (use inv f fresh_not_ready [OF f] in
    \<open>auto simp: conn_inv_def close_socket_def shutdown_def push_interest_def fresh_def\<close>)

lemma sent_by_Cons: "sent_by (op # ops) = sent_by [op] @ sent_by ops"
  by (cases op; cases ops) auto

lemma run_socket_inv:
  "conn_inv n0 peer d response sent ns \<Longrightarrow>
     conn_inv n0 peer d response (sent @ sent_by ops) (snd (run_socket ops ns))"
proof (induction ops arbitrary: sent ns)
  case (Cons op ops)
  have "fresh (snd ns) \<or> ts_response_ready (snd ns)" using Cons.prems by (auto simp: conn_inv_def)
  then have "conn_inv n0 peer d response (sent @ sent_by [op]) (snd (socket_step op ns))"
    using fresh_inv [OF Cons.prems] ready_inv [OF Cons.prems] by blast
  from Cons.IH [OF this] show ?case
    unfolding run_socket_step sent_by_Cons [of op ops] append_assoc .
qed simp

lemma connection_events:
  "let n' = fst (snd (run_socket ops (n, tcp_socket_new a peer d response))) in
   n' = n \<or>
   (\<exists>req. prefix req (sent_by ops) \<and> length req \<le> MAX_CAPTURED_REQUEST_BYTES \<and>
      n' = record_net \<lparr>ne_target = peer, ne_domain = d, ne_operation = MockResponseInjected,
             ne_payload = [], ne_mocked_response_bytes = length response\<rparr>
           (record_net \<lparr>ne_target = peer, ne_domain = d, ne_operation = PayloadCaptured,
             ne_payload = req, ne_mocked_response_bytes = 0\<rparr> n))"
proof -
  let ?s = "tcp_socket_new a peer d response"
  have "conn_inv n peer d response [] (n, ?s)"
    by (simp add: conn_inv_def tcp_socket_new_def fresh_def MAX_CAPTURED_REQUEST_BYTES_def)
  from run_socket_inv [OF this, of ops] show ?thesis
    by (auto simp: conn_inv_def Let_def mock_event_def payload_event_def)
qed

text \<open>
  C34. A connection leaves at most one payload and one response in the log, and the payload is
  what the guest sent. Whatever a guest does with a new connection, the honeypot is afterwards
  either untouched or has recorded, in this order, one captured payload, which is a prefix of at
  most 16 KiB of all bytes the guest sent, and one injected response of the mock's length, both
  with the connection's peer and domain.
\<close>

theorem connection_log:
  "let n' = fst (snd (run_socket ops (n, tcp_socket_new a peer d response))) in
   n' = n \<or>
   (\<exists>req. prefix req (sent_by ops) \<and> length req \<le> MAX_CAPTURED_REQUEST_BYTES \<and>
      n' = record_net \<lparr>ne_target = peer, ne_domain = d, ne_operation = MockResponseInjected,
             ne_payload = [], ne_mocked_response_bytes = length response\<rparr>
           (record_net \<lparr>ne_target = peer, ne_domain = d, ne_operation = PayloadCaptured,
             ne_payload = req, ne_mocked_response_bytes = 0\<rparr> n))"
  by (rule connection_events)

lemma remember_host_events [simp]: "nh_events (remember_host first_key ip host n) = nh_events n"
  by (simp add: remember_host_def Let_def)

lemma resolve_bounded:
  "length (nh_events n) \<le> HONEYPOT_EVENT_CAPACITY \<Longrightarrow>
     length (nh_events (snd (resolve first_key host port n))) \<le> HONEYPOT_EVENT_CAPACITY"
  by (simp add: resolve_def Let_def case_prod_unfold net_log.record_bounded)

lemma resolve_all_bounded:
  "length (nh_events n) \<le> HONEYPOT_EVENT_CAPACITY \<Longrightarrow>
     length (nh_events (resolve_all first_key hs n)) \<le> HONEYPOT_EVENT_CAPACITY"
  by (induction first_key hs n rule: resolve_all.induct) (simp_all add: resolve_bounded)

lemma connect_tcp_bounded:
  "length (nh_events n) \<le> HONEYPOT_EVENT_CAPACITY \<Longrightarrow>
     length (nh_events (snd (connect_tcp a peer n))) \<le> HONEYPOT_EVENT_CAPACITY"
  by (simp add: connect_tcp_def Let_def case_prod_unfold net_log.record_bounded next_local_addr_hosts)

lemma run_socket_bounded:
  assumes "length (nh_events n) \<le> HONEYPOT_EVENT_CAPACITY"
  shows "length (nh_events (fst (snd (run_socket ops (n, tcp_socket_new a peer d response))))) \<le> HONEYPOT_EVENT_CAPACITY"
  using connection_events [of ops n a peer d response] assms net_log.record_bounded by metis

text \<open>
  Nothing a guest does with the network makes the log exceed its capacity, and connecting
  never fails. From a new honeypot, after any resolutions, any connection and any operations on
  its socket, the log has at most 1024 events.
\<close>

theorem network_log_bounded:
  "case connect_tcp a peer (resolve_all first_key hs (with_mock_response mock)) of
     (Inr s, n) \<Rightarrow> length (nh_events (fst (snd (run_socket ops (n, s))))) \<le> HONEYPOT_EVENT_CAPACITY
   | (Inl e, n) \<Rightarrow> False"
proof -
  let ?n = "resolve_all first_key hs (with_mock_response mock)"
  have "length (nh_events (snd (connect_tcp a peer ?n))) \<le> HONEYPOT_EVENT_CAPACITY"
    by (intro connect_tcp_bounded resolve_all_bounded) (simp add: with_mock_response_def)
  moreover obtain n s where c: "connect_tcp a peer ?n = (Inr (tcp_socket_new s peer
      (domain_for (sa_ip peer) (snd (next_local_addr a peer ?n))) (nh_mock_response n)), n)"
    by (simp add: connect_tcp_def Let_def case_prod_unfold)
  ultimately have "length (nh_events n) \<le> HONEYPOT_EVENT_CAPACITY" by simp
  then show ?thesis by (simp add: c run_socket_bounded)
qed

end
