(* ===== verification/Async_Runner.thy ===== *)
theory Async_Runner
  imports Supervisor "HOL-Library.Multiset"
begin

text \<open>
  The asynchronous runner of \<open>src/async_runner.rs\<close>, with its error messages from
  \<open>src/error.rs\<close>, and the sequential collection of \<open>src/main.rs\<close> that the menu uses. What
  differs from run to run is an argument: the engine, the time each run takes and the child
  process each run gets (by the run's number), the runs that panic, the tasks the runtime aborts,
  and the order in which the tasks in flight complete. \<open>None\<close> is a collection that never returns.
\<close>

section \<open>Running one case\<close>

record run_env =
  re_engine :: wasm_engine
  re_timings :: "nat \<Rightarrow> timings"
  re_exe :: "string + string"
  re_spawn :: "nat \<Rightarrow> string \<Rightarrow> string list \<Rightarrow> string + child"
  re_panic :: "nat \<Rightarrow> string option"
  re_abort :: "nat \<Rightarrow> string option"

definition run_selected_case ::
  "run_env \<Rightarrow> nat \<Rightarrow> config \<Rightarrow> guest_case \<Rightarrow> policy \<Rightarrow> case_report option" where
  "run_selected_case env k cf c p =
     (case cf_isolation cf of
        InProcess \<Rightarrow> run_case (re_engine env) (re_timings env k) c (cf_backend cf) p
      | Process \<Rightarrow> run_case_supervised (re_exe env) (re_spawn env k) c (cf_backend cf) p
          \<lparr>so_policy_path = cf_policy_path cf, so_corpus_dir = cf_corpus_dir cf,
           so_allow_unmetered = cf_allow_unmetered cf\<rparr>)"

text \<open>The two nested loops of \<open>collect_reports\<close>; \<open>k\<close> counts the runs.\<close>

fun collect_round ::
  "run_env \<Rightarrow> config \<Rightarrow> policy \<Rightarrow> nat \<Rightarrow> guest_case list \<Rightarrow> case_report list \<Rightarrow> case_report list option" where
  "collect_round env cf p k [] reports = Some reports"
| "collect_round env cf p k (c # cs) reports =
     Option.bind (run_selected_case env k cf c p)
       (\<lambda>r. collect_round env cf p (Suc k) cs (reports @ [r]))"

fun collect_rounds ::
  "run_env \<Rightarrow> config \<Rightarrow> policy \<Rightarrow> guest_case list \<Rightarrow> nat \<Rightarrow> nat \<Rightarrow> case_report list \<Rightarrow> case_report list option" where
  "collect_rounds env cf p cs k 0 reports = Some reports"
| "collect_rounds env cf p cs k (Suc n) reports =
     Option.bind (collect_round env cf p k cs reports)
       (\<lambda>rs. collect_rounds env cf p cs (k + length cs) n rs)"

definition collect_reports ::
  "run_env \<Rightarrow> config \<Rightarrow> guest_case list \<Rightarrow> policy \<Rightarrow> case_report list option" where
  "collect_reports env cf cs p = collect_rounds env cf p cs 0 (cf_repeat cf) []"

section \<open>Tasks\<close>

datatype sectest_error = AsyncJoin string | WasiSandbox string

fun sectest_error_display :: "sectest_error \<Rightarrow> string" where
  "sectest_error_display (AsyncJoin err) = ''async execution worker failed: '' @ err"
| "sectest_error_display (WasiSandbox err) = ''WASI sandbox setup failed: '' @ err"

definition MAX_IN_FLIGHT_CASES :: nat where "MAX_IN_FLIGHT_CASES = 64"

record case_task =
  ct_index :: nat
  ct_case :: guest_case
  ct_backend :: backend
  ct_isolation :: isolation_mode
  ct_policy :: policy
  ct_policy_path :: "string option"
  ct_corpus_dir :: "string option"
  ct_allow_unmetered :: bool

text \<open>\<open>available_parallelism\<close>: \<open>None\<close> when it is unknown.\<close>

definition max_in_flight_cases :: "nat option \<Rightarrow> nat" where
  "max_in_flight_cases parallelism =
     (let n = (case parallelism of Some k \<Rightarrow> min usize_max (k * 2) | None \<Rightarrow> 1)
      in min MAX_IN_FLIGHT_CASES (max 1 n))"

definition failed_report ::
  "string \<Rightarrow> string \<Rightarrow> string \<Rightarrow> case_report \<Rightarrow> case_report" where
  "failed_report imp detail gate r =
     r\<lparr>cr_telemetry := \<lparr>events = [\<lparr>ev_import = imp, ev_ptr = None, ev_len = None, ev_align = None,
        ev_memory_size = None, ev_result_code = ERR_INTERNAL, ev_detail = detail,
        ev_elapsed_us = 0, ev_gates = [gate_fail gate]\<rparr>], ticks_seen = 0\<rparr>\<rparr>"

definition join_error_report :: "string \<Rightarrow> nat \<times> case_report" where
  "join_error_report join_err =
     (let err = sectest_error_display (AsyncJoin join_err) in
      (usize_max, failed_report ''host.async.join'' err ''async.join''
        \<lparr>cr_name = ''async_join_error'',
         cr_description = ''Tokio worker failed before a case report was produced'',
         cr_category = ''runtime'', cr_severity = ''high'',
         cr_control = ''async execution boundary reports scheduler failures'',
         cr_stage = ''runtime scheduling'', cr_ttp = ''host-worker-failure'',
         cr_detection = ''join error is converted into a structured report'', cr_source_path = [],
         cr_backend = Cranelift, cr_expected_code = ERR_INTERNAL, cr_actual_code = Some ERR_INTERNAL,
         cr_host_error = Some err, cr_compile_us = 0, cr_instantiate_us = 0, cr_run_us = 0,
         cr_wasm_bytes = 0, cr_memory_before = memory_snapshot_default,
         cr_memory_after = memory_snapshot_default,
         cr_telemetry = \<lparr>events = [], ticks_seen = 0\<rparr>\<rparr>))"

definition async_worker_error_report :: "guest_case \<Rightarrow> backend \<Rightarrow> string \<Rightarrow> case_report" where
  "async_worker_error_report c b err =
     failed_report ''host.async.spawn_blocking'' (''spawn_blocking failed: '' @ err)
       ''async.spawn_blocking''
       \<lparr>cr_name = gc_name c, cr_description = gc_description c, cr_category = gc_category c,
        cr_severity = gc_severity c, cr_control = gc_control c, cr_stage = gc_stage c,
        cr_ttp = gc_ttp c, cr_detection = gc_detection c, cr_source_path = gc_source_path c,
        cr_backend = b, cr_expected_code = gc_expected_code c, cr_actual_code = Some ERR_INTERNAL,
        cr_host_error = Some (''async worker failed: '' @ err), cr_compile_us = 0,
        cr_instantiate_us = 0, cr_run_us = 0, cr_wasm_bytes = 0,
        cr_memory_before = memory_snapshot_default, cr_memory_after = memory_snapshot_default,
        cr_telemetry = \<lparr>events = [], ticks_seen = 0\<rparr>\<rparr>"

definition run_case_task_blocking :: "run_env \<Rightarrow> case_task \<Rightarrow> case_report option" where
  "run_case_task_blocking env t =
     (case ct_isolation t of
        InProcess \<Rightarrow> run_case (re_engine env) (re_timings env (ct_index t)) (ct_case t) (ct_backend t) (ct_policy t)
      | Process \<Rightarrow> run_case_supervised (re_exe env) (re_spawn env (ct_index t)) (ct_case t)
          (ct_backend t) (ct_policy t)
          \<lparr>so_policy_path = ct_policy_path t, so_corpus_dir = ct_corpus_dir t,
           so_allow_unmetered = ct_allow_unmetered t\<rparr>)"

definition run_case_task :: "run_env \<Rightarrow> case_task \<Rightarrow> (nat \<times> case_report) option" where
  "run_case_task env t =
     (case re_panic env (ct_index t) of
        Some err \<Rightarrow> Some (ct_index t, async_worker_error_report (ct_case t) (ct_backend t)
                     (sectest_error_display (AsyncJoin err)))
      | None \<Rightarrow> map_option (\<lambda>r. (ct_index t, r)) (run_case_task_blocking env t))"

text \<open>What joining a task gives, when it ends.\<close>

definition join_task :: "run_env \<Rightarrow> case_task \<Rightarrow> (string + (nat \<times> case_report)) option" where
  "join_task env t =
     (case re_abort env (ct_index t) of
        Some err \<Rightarrow> Some (Inl err)
      | None \<Rightarrow> map_option Inr (run_case_task env t))"

section \<open>Scheduling\<close>

definition push_joined_report ::
  "(nat \<times> case_report) list \<Rightarrow> string + (nat \<times> case_report) \<Rightarrow> (nat \<times> case_report) list" where
  "push_joined_report reports joined =
     (case joined of Inr report \<Rightarrow> reports @ [report] | Inl err \<Rightarrow> reports @ [join_error_report err])"

text \<open>
  The tasks in flight, the reports so far and the number of joins. A join takes whichever task
  completes first: \<open>pick\<close> says which, from the number of joins and of tasks in flight.
\<close>

type_synonym schedule = "case_task list \<times> (nat \<times> case_report) list \<times> nat"

definition join_next_report :: "run_env \<Rightarrow> (nat \<Rightarrow> nat \<Rightarrow> nat) \<Rightarrow> schedule \<Rightarrow> schedule option" where
  "join_next_report env pick st =
     (case st of (tasks, reports, k) \<Rightarrow>
        (if tasks = [] then Some st
         else (let i = pick k (length tasks) mod length tasks in
               map_option (\<lambda>joined. (take i tasks @ drop (Suc i) tasks,
                   push_joined_report reports joined, Suc k)) (join_task env (tasks ! i)))))"

fun spawn_loop ::
  "run_env \<Rightarrow> (nat \<Rightarrow> nat \<Rightarrow> nat) \<Rightarrow> nat \<Rightarrow> case_task list \<Rightarrow> schedule \<Rightarrow> schedule option" where
  "spawn_loop env pick max_in_flight [] st = Some st"
| "spawn_loop env pick max_in_flight (t # ts) (tasks, reports, k) =
     (let st = (tasks @ [t], reports, k) in
      Option.bind (if max_in_flight \<le> length tasks + 1 then join_next_report env pick st else Some st)
        (spawn_loop env pick max_in_flight ts))"

lemma join_next_shorter:
  "join_next_report env pick (tasks, reports, k) = Some (tasks', reports', k') \<Longrightarrow> tasks \<noteq> [] \<Longrightarrow>
     length tasks' < length tasks"
  using mod_less_divisor [of "length tasks" "pick k (length tasks)"]
  by (auto simp: join_next_report_def Let_def simp del: mod_less_divisor)

function drain :: "run_env \<Rightarrow> (nat \<Rightarrow> nat \<Rightarrow> nat) \<Rightarrow> schedule \<Rightarrow> (nat \<times> case_report) list option" where
  "drain env pick (tasks, reports, k) =
     (if tasks = [] then Some reports
      else (case join_next_report env pick (tasks, reports, k) of
              None \<Rightarrow> None | Some st \<Rightarrow> drain env pick st))"
  by pat_completeness auto
termination
  by (relation "measure (\<lambda>(env, pick, tasks, reports, k). length tasks)")
    (auto dest: join_next_shorter)

text \<open>The tasks in the order they are spawned, each with its running index.\<close>

definition case_tasks :: "config \<Rightarrow> guest_case list \<Rightarrow> policy \<Rightarrow> case_task list" where
  "case_tasks cf cs p =
     map (\<lambda>(i, c). \<lparr>ct_index = i, ct_case = c, ct_backend = cf_backend cf,
            ct_isolation = cf_isolation cf, ct_policy = p, ct_policy_path = cf_policy_path cf,
            ct_corpus_dir = cf_corpus_dir cf, ct_allow_unmetered = cf_allow_unmetered cf\<rparr>)
       (enumerate 0 (concat (replicate (cf_repeat cf) cs)))"

definition collect_reports_async ::
  "run_env \<Rightarrow> (nat \<Rightarrow> nat \<Rightarrow> nat) \<Rightarrow> nat option \<Rightarrow> config \<Rightarrow> guest_case list \<Rightarrow> policy \<Rightarrow>
   case_report list option" where
  "collect_reports_async env pick parallelism cf cs p =
     map_option (\<lambda>reports. map snd (sort_key fst reports))
       (Option.bind (spawn_loop env pick (max_in_flight_cases parallelism) (case_tasks cf cs p) ([], [], 0))
         (drain env pick))"

section \<open>Every task is reported once\<close>

definition task_ends :: "run_env \<Rightarrow> case_task \<Rightarrow> bool" where
  "task_ends env t \<longleftrightarrow> join_task env t \<noteq> None"

definition task_report :: "run_env \<Rightarrow> case_task \<Rightarrow> nat \<times> case_report" where
  "task_report env t = (case join_task env t of
     Some (Inr r) \<Rightarrow> r | Some (Inl err) \<Rightarrow> join_error_report err | None \<Rightarrow> undefined)"

definition accounted :: "run_env \<Rightarrow> schedule \<Rightarrow> (nat \<times> case_report) multiset" where
  "accounted env st = (case st of (tasks, reports, k) \<Rightarrow> mset reports + image_mset (task_report env) (mset tasks))"

lemma push_joined_report_task:
  "join_task env t = Some j \<Longrightarrow> push_joined_report reports j = reports @ [task_report env t]"
  by (cases j) (simp_all add: push_joined_report_def task_report_def)

lemma mset_remove_nth: "i < length xs \<Longrightarrow> add_mset (xs ! i) (mset (take i xs @ drop (Suc i) xs)) = mset xs"
  by (metis id_take_nth_drop mset_append mset.simps(2) union_mset_add_mset_right)

lemma join_next_ends:
  assumes "tasks \<noteq> []" and "list_all (task_ends env) tasks"
  obtains tasks' reports' k' where
    "join_next_report env pick (tasks, reports, k) = Some (tasks', reports', k')"
    "length tasks = Suc (length tasks')" "list_all (task_ends env) tasks'"
    "accounted env (tasks', reports', k') = accounted env (tasks, reports, k)"
proof -
  let ?i = "pick k (length tasks) mod length tasks"
  have i: "?i < length tasks" using assms(1) by simp
  then have "task_ends env (tasks ! ?i)" using assms(2) by (simp add: list_all_length)
  then obtain j where j: "join_task env (tasks ! ?i) = Some j" by (auto simp: task_ends_def)
  have m: "image_mset (task_report env) (mset tasks) =
      add_mset (task_report env (tasks ! ?i)) (image_mset (task_report env) (mset (take ?i tasks @ drop (Suc ?i) tasks)))"
    using mset_remove_nth [OF i] by (metis image_mset_add_mset)
  show ?thesis
  proof (rule that)
    show "join_next_report env pick (tasks, reports, k) = Some (take ?i tasks @ drop (Suc ?i) tasks,
        reports @ [task_report env (tasks ! ?i)], Suc k)"
      using assms(1) j push_joined_report_task [OF j] by (simp add: join_next_report_def Let_def)
    show "length tasks = Suc (length (take ?i tasks @ drop (Suc ?i) tasks))" using i by simp
    show "list_all (task_ends env) (take ?i tasks @ drop (Suc ?i) tasks)"
      using assms(2) by (auto simp: list_all_iff dest: in_set_takeD in_set_dropD)
    show "accounted env (take ?i tasks @ drop (Suc ?i) tasks, reports @ [task_report env (tasks ! ?i)], Suc k) =
        accounted env (tasks, reports, k)"
      by (simp add: accounted_def m)
  qed
qed

lemma drain_ends:
  "list_all (task_ends env) tasks \<Longrightarrow>
     \<exists>rs. drain env pick (tasks, reports, k) = Some rs \<and> mset rs = accounted env (tasks, reports, k)"
proof (induction "length tasks" arbitrary: tasks reports k)
  case 0
  then show ?case by (simp add: accounted_def)
next
  case (Suc n)
  then have "tasks \<noteq> []" by auto
  obtain tasks' reports' k' where
    j: "join_next_report env pick (tasks, reports, k) = Some (tasks', reports', k')"
    and l: "length tasks = Suc (length tasks')" "list_all (task_ends env) tasks'"
    and a: "accounted env (tasks', reports', k') = accounted env (tasks, reports, k)"
    using join_next_ends [OF \<open>tasks \<noteq> []\<close> Suc.prems] by metis
  show ?case using Suc.hyps(1) [of tasks' reports' k'] Suc.hyps(2) j l a \<open>tasks \<noteq> []\<close> by simp
qed

lemma spawn_loop_ends:
  assumes "0 < m"
  shows "list_all (task_ends env) (tasks @ ts) \<Longrightarrow> length tasks < m \<Longrightarrow>
     \<exists>tasks' reports' k'. spawn_loop env pick m ts (tasks, reports, k) = Some (tasks', reports', k') \<and>
       length tasks' < m \<and> list_all (task_ends env) tasks' \<and>
       accounted env (tasks', reports', k') = accounted env (tasks @ ts, reports, k)"
proof (induction ts arbitrary: tasks reports k)
  case (Cons t ts)
  show ?case
  proof (cases "m \<le> length tasks + 1")
    case True
    obtain tasks' reports' k' where
      j: "join_next_report env pick (tasks @ [t], reports, k) = Some (tasks', reports', k')"
      and l: "length (tasks @ [t]) = Suc (length tasks')" "list_all (task_ends env) tasks'"
      and a: "accounted env (tasks', reports', k') = accounted env (tasks @ [t], reports, k)"
      using join_next_ends [of "tasks @ [t]" env pick reports k] Cons.prems by auto
    have "accounted env (tasks' @ ts, reports', k') = accounted env ((tasks @ [t]) @ ts, reports, k)"
      using a by (simp add: accounted_def)
    then show ?thesis
      using Cons.IH [of tasks' reports' k'] Cons.prems True j l by simp
  next
    case False
    then show ?thesis using Cons.IH [of "tasks @ [t]" reports k] Cons.prems by simp
  qed
qed simp

lemma max_in_flight_bounds: "0 < max_in_flight_cases par \<and> max_in_flight_cases par \<le> MAX_IN_FLIGHT_CASES"
  by (simp add: max_in_flight_cases_def Let_def MAX_IN_FLIGHT_CASES_def)

lemma collect_raw:
  assumes "list_all (task_ends env) (case_tasks cf cs p)"
  obtains rs where
    "Option.bind (spawn_loop env pick (max_in_flight_cases par) (case_tasks cf cs p) ([], [], 0)) (drain env pick) = Some rs"
    "mset rs = image_mset (task_report env) (mset (case_tasks cf cs p))"
proof -
  have m: "0 < max_in_flight_cases par" using max_in_flight_bounds by blast
  obtain tasks reports k where s: "spawn_loop env pick (max_in_flight_cases par) (case_tasks cf cs p) ([], [], 0)
      = Some (tasks, reports, k)" "list_all (task_ends env) tasks"
      "accounted env (tasks, reports, k) = accounted env (case_tasks cf cs p, [], 0)"
    using spawn_loop_ends [OF m, of env "[]" "case_tasks cf cs p" pick "[]" 0] assms m by auto
  obtain rs where "drain env pick (tasks, reports, k) = Some rs" "mset rs = accounted env (tasks, reports, k)"
    using drain_ends [OF s(2)] by blast
  then show ?thesis using that s by (simp add: accounted_def)
qed

text \<open>
  C24. No report is lost and none is invented. If every task ends, whatever the order in which
  tasks complete and however many run at once, the collection returns, and its reports are, as a
  multiset, one per task: the case's own, or the one its panic or its abort leaves.
\<close>

theorem async_reports_complete:
  assumes "list_all (task_ends env) (case_tasks cf cs p)"
  shows "\<exists>rs. collect_reports_async env pick par cf cs p = Some rs \<and>
    mset rs = image_mset (\<lambda>t. snd (task_report env t)) (mset (case_tasks cf cs p))"
proof -
  obtain rs where rs: "Option.bind (spawn_loop env pick (max_in_flight_cases par) (case_tasks cf cs p)
      ([], [], 0)) (drain env pick) = Some rs" "mset rs = image_mset (task_report env) (mset (case_tasks cf cs p))"
    using collect_raw [OF assms] by metis
  have "mset (map snd (sort_key fst rs)) = image_mset snd (mset rs)" by simp
  then show ?thesis using rs by (simp add: collect_reports_async_def multiset.map_comp comp_def)
qed

section \<open>A task that never ends\<close>

lemma join_next_hangs:
  assumes "join_next_report env pick (tasks, reports, k) = Some (tasks', reports', k')"
    and "\<not> list_all (task_ends env) tasks"
  shows "\<not> list_all (task_ends env) tasks'"
proof -
  have ne: "tasks \<noteq> []" using assms(2) by auto
  let ?i = "pick k (length tasks) mod length tasks"
  have i: "?i < length tasks" using ne by simp
  have "task_ends env (tasks ! ?i)" and t': "tasks' = take ?i tasks @ drop (Suc ?i) tasks"
    using assms(1) ne by (auto simp: join_next_report_def Let_def task_ends_def)
  moreover have "set tasks = insert (tasks ! ?i) (set tasks')"
    unfolding t' set_mset_mset [symmetric] mset_remove_nth [OF i, symmetric] by simp
  ultimately show ?thesis using assms(2) by (auto simp: list_all_iff)
qed

lemma drain_hangs: "\<not> list_all (task_ends env) tasks \<Longrightarrow> drain env pick (tasks, reports, k) = None"
proof (induction "length tasks" arbitrary: tasks reports k rule: less_induct)
  case less
  have ne: "tasks \<noteq> []" using less.prems by auto
  show ?case
  proof (cases "join_next_report env pick (tasks, reports, k)")
    case (Some st)
    obtain tasks' reports' k' where "st = (tasks', reports', k')" by (cases st)
    with Some show ?thesis
      using less.hyps [of tasks' reports' k'] join_next_hangs less.prems join_next_shorter ne by fastforce
  qed (simp add: ne)
qed

lemma spawn_loop_hangs:
  "\<not> list_all (task_ends env) (tasks @ ts) \<Longrightarrow>
     Option.bind (spawn_loop env pick m ts (tasks, reports, k)) (drain env pick) = None"
proof (induction ts arbitrary: tasks reports k)
  case (Cons t ts)
  show ?case
  proof (cases "m \<le> length tasks + 1")
    case True
    show ?thesis
    proof (cases "join_next_report env pick (tasks @ [t], reports, k)")
      case (Some st)
      obtain tasks' reports' k' where st: "st = (tasks', reports', k')" by (cases st)
      have "\<not> list_all (task_ends env) (tasks' @ ts)"
        using Cons.prems join_next_hangs [of env pick "tasks @ [t]" reports k tasks' reports' k'] Some st by auto
      then show ?thesis using Cons.IH [of tasks' reports' k'] True Some st by simp
    qed (use True in \<open>simp add: Let_def\<close>)
  next
    case False
    then show ?thesis using Cons.IH [of "tasks @ [t]" reports k] Cons.prems by simp
  qed
qed (simp add: drain_hangs del: drain.simps)

section \<open>The sequential collection\<close>

lemma map_option_append_Nil [simp]: "map_option (append []) x = x"
  by (cases x) simp_all

lemma those_append:
  "those (xs @ ys) = Option.bind (those xs) (\<lambda>as. map_option (append as) (those ys))"
proof (induction xs)
  case (Cons x xs)
  then show ?case by (cases x; cases "those xs"; cases "those ys") simp_all
qed simp

lemma append_fun: "append (as @ bs) = (\<lambda>cs. as @ bs @ cs)"
  by (simp add: fun_eq_iff)

lemma collect_round_those:
  "collect_round env cf p k cs rs =
     map_option (append rs) (those (map (\<lambda>(i, c). run_selected_case env i cf c p) (enumerate k cs)))"
  by (induction cs arbitrary: k rs)
    (auto simp: option.map_comp comp_def append_fun option.map_ident split: option.split)

lemma collect_rounds_those:
  "collect_rounds env cf p cs k n rs = map_option (append rs)
     (those (map (\<lambda>(i, c). run_selected_case env i cf c p) (enumerate k (concat (replicate n cs)))))"
  by (induction n arbitrary: k rs)
    (simp_all add: collect_round_those enumerate_append_eq those_append option.map_comp comp_def
      map_option_bind bind_map_option append_fun option.map_ident split: option.split)

lemma those_None: "those xs = None \<longleftrightarrow> None \<in> set xs"
  by (induction xs) (auto split: option.split)

lemma those_Some: "those xs = Some ys \<longleftrightarrow> xs = map Some ys"
  by (induction xs arbitrary: ys) (auto split: option.split simp: Cons_eq_map_conv)


definition task_of :: "config \<Rightarrow> policy \<Rightarrow> nat \<Rightarrow> guest_case \<Rightarrow> case_task" where
  "task_of cf p i c = \<lparr>ct_index = i, ct_case = c, ct_backend = cf_backend cf,
     ct_isolation = cf_isolation cf, ct_policy = p, ct_policy_path = cf_policy_path cf,
     ct_corpus_dir = cf_corpus_dir cf, ct_allow_unmetered = cf_allow_unmetered cf\<rparr>"

lemma case_tasks_of:
  "case_tasks cf cs p = map (\<lambda>(i, c). task_of cf p i c) (enumerate 0 (concat (replicate (cf_repeat cf) cs)))"
  by (simp add: case_tasks_def task_of_def)

lemma run_task_of: "run_case_task_blocking env (task_of cf p i c) = run_selected_case env i cf c p"
  by (simp add: run_case_task_blocking_def run_selected_case_def task_of_def split: isolation_mode.split)

text \<open>No run panics and the runtime aborts no task.\<close>

definition undisturbed :: "run_env \<Rightarrow> bool" where
  "undisturbed env \<longleftrightarrow> re_panic env = (\<lambda>k. None) \<and> re_abort env = (\<lambda>k. None)"

lemma join_task_of:
  "undisturbed env \<Longrightarrow> join_task env (task_of cf p i c) =
     map_option (\<lambda>r. Inr (i, r)) (run_selected_case env i cf c p)"
  by (simp add: undisturbed_def join_task_def run_case_task_def run_task_of option.map_comp comp_def)
    (simp add: task_of_def)

lemma nth_runs:
  assumes "those (map (\<lambda>(i, c). run_selected_case env i cf c p) (enumerate 0 xs)) = Some rs"
  shows "length rs = length xs \<and> (\<forall>i < length xs. run_selected_case env i cf (xs ! i) p = Some (rs ! i))"
proof -
  have m: "map (\<lambda>(i, c). run_selected_case env i cf c p) (enumerate 0 xs) = map Some rs"
    using assms by (simp add: those_Some)
  from arg_cong [OF m, of length] have l: "length rs = length xs" by simp
  moreover have "run_selected_case env i cf (xs ! i) p = Some (rs ! i)" if "i < length xs" for i
    using arg_cong [OF m, of "\<lambda>ys. ys ! i"] that l by (simp add: nth_enumerate_eq)
  ultimately show ?thesis by blast
qed

lemma task_reports:
  assumes "undisturbed env"
    and "those (map (\<lambda>(i, c). run_selected_case env i cf c p)
      (enumerate 0 (concat (replicate (cf_repeat cf) cs)))) = Some rs"
  shows "map (task_report env) (case_tasks cf cs p) = enumerate 0 rs \<and>
    list_all (task_ends env) (case_tasks cf cs p)"
proof
  note runs = nth_runs [OF assms(2)]
  show "map (task_report env) (case_tasks cf cs p) = enumerate 0 rs"
    using runs by (auto intro!: nth_equalityI
        simp: case_tasks_of nth_enumerate_eq task_report_def join_task_of [OF assms(1)])
  show "list_all (task_ends env) (case_tasks cf cs p)"
    using runs by (auto simp: list_all_length case_tasks_of nth_enumerate_eq task_ends_def
        join_task_of [OF assms(1)])
qed

text \<open>
  C23. Running cases asynchronously is running them one after the other. When no run panics and
  no task is aborted, then in whichever order tasks complete and however many run at once, the
  reports are those of the sequential loops, in their order; and the one collection returns
  exactly if the other does.
\<close>

theorem async_is_sequential:
  assumes "undisturbed env"
  shows "collect_reports_async env pick par cf cs p = collect_reports env cf cs p"
proof -
  let ?js = "enumerate 0 (concat (replicate (cf_repeat cf) cs))"
  let ?run = "\<lambda>(i, c). run_selected_case env i cf c p"
  have seq: "collect_reports env cf cs p = those (map ?run ?js)"
    by (simp add: collect_reports_def collect_rounds_those)
  show ?thesis
  proof (cases "those (map ?run ?js)")
    case None
    then have "\<not> list_all (task_ends env) ([] @ case_tasks cf cs p)"
      by (force simp: those_None case_tasks_of list_all_iff task_ends_def join_task_of [OF assms])
    from spawn_loop_hangs [OF this] show ?thesis
      by (simp add: seq None collect_reports_async_def)
  next
    case (Some rs)
    note reports = task_reports [OF assms Some]
    obtain raw where raw: "Option.bind (spawn_loop env pick (max_in_flight_cases par) (case_tasks cf cs p)
        ([], [], 0)) (drain env pick) = Some raw"
      "mset raw = mset (map (task_report env) (case_tasks cf cs p))"
      using collect_raw [of env cf cs p] reports by (metis mset_map)
    have "sort_key fst raw = enumerate 0 rs"
    proof (rule sort_key_inj_key_eq)
      show "mset raw = mset (enumerate 0 rs)" using raw(2) reports by simp
      then have "set raw = set (enumerate 0 rs)" by (rule mset_eq_setD)
      then show "inj_on fst (set raw)" by (auto intro!: inj_onI simp: in_set_enumerate_eq)
      show "sorted (map fst (enumerate 0 rs))" by simp
    qed
    then show ?thesis using raw(1) by (simp add: seq Some collect_reports_async_def)
  qed
qed

text \<open>An environment for examples: no engine compiles anything.\<close>

definition failing_env :: run_env where
  "failing_env = \<lparr>re_engine = \<lparr>en_wat = (\<lambda>t. Inr (bytes_of_string t)), en_compile = (\<lambda>b w. Inl ''bad magic'')\<rparr>,
     re_timings = (\<lambda>k. no_timings), re_exe = Inl ''none'', re_spawn = (\<lambda>k path args. Inl ''none''),
     re_panic = (\<lambda>k. None), re_abort = (\<lambda>k. None)\<rparr>"

lemma async_is_sequential_witness:
  "collect_reports_async failing_env (\<lambda>k n. n - 1) (Some 1) (config_default\<lparr>cf_repeat := 2\<rparr>)
     [demo_case RunExport, demo_case GrowthProbe] policy_default =
   Some (replicate 4 (error_report (demo_case RunExport) Cranelift ''Wasmer compile failed: bad magic''))"
proof -
  have "undisturbed failing_env" by (simp add: undisturbed_def failing_env_def)
  moreover have "collect_reports failing_env (config_default\<lparr>cf_repeat := 2\<rparr>)
      [demo_case RunExport, demo_case GrowthProbe] policy_default =
      Some (replicate 4 (error_report (demo_case RunExport) Cranelift ''Wasmer compile failed: bad magic''))"
    by code_simp
  ultimately show ?thesis using async_is_sequential by simp
qed

lemma async_reports_complete_witness:
  "\<exists>rs. collect_reports_async (failing_env\<lparr>re_abort := (\<lambda>k. Some ''cancelled'')\<rparr>) (\<lambda>k n. k) None config_default
     [demo_case RunExport, demo_case GrowthProbe] policy_default = Some rs \<and> length rs = 2 \<and>
     \<not> list_ex passed rs"
proof -
  let ?env = "failing_env\<lparr>re_abort := (\<lambda>k. Some ''cancelled'')\<rparr>"
  let ?ts = "case_tasks config_default [demo_case RunExport, demo_case GrowthProbe] policy_default"
  have "list_all (task_ends ?env) ?ts" by (simp add: task_ends_def join_task_def list_all_iff)
  from async_reports_complete [OF this, of "\<lambda>k n. k" None] obtain rs where
    rs: "collect_reports_async ?env (\<lambda>k n. k) None config_default
      [demo_case RunExport, demo_case GrowthProbe] policy_default = Some rs"
    "mset rs = image_mset (\<lambda>t. snd (task_report ?env t)) (mset ?ts)" by blast
  have "length rs = 2" using arg_cong [OF rs(2), of size] by (simp add: case_tasks_def config_default_def)
  moreover have "\<not> passed r" if "r \<in> set rs" for r
  proof -
    have "r \<in># image_mset (\<lambda>t. snd (task_report ?env t)) (mset ?ts)" using that rs(2) by (metis set_mset_mset)
    then show ?thesis
      by (auto simp: task_report_def join_task_def join_error_report_def Let_def failed_report_def passed_def)
  qed
  ultimately show ?thesis using rs(1) by (auto simp: list_ex_iff)
qed

section \<open>Tasks in flight\<close>

lemma join_next_count:
  "join_next_report env pick (tasks, reports, k) = Some (tasks', reports', k') \<Longrightarrow> tasks \<noteq> [] \<Longrightarrow>
     length tasks = Suc (length tasks') \<and> k' = Suc k \<and> length reports' = Suc (length reports)"
  using mod_less_divisor [of "length tasks" "pick k (length tasks)"]
  by (auto simp: join_next_report_def Let_def push_joined_report_def simp del: mod_less_divisor split: sum.split)

lemma spawn_loop_count:
  assumes "0 < m"
  shows "\<lbrakk>spawn_loop env pick m ts (tasks, reports, k) = Some (tasks', reports', k'); length tasks < m\<rbrakk> \<Longrightarrow>
     length tasks' < m \<and> length reports' + length tasks' = length reports + length tasks + length ts"
proof (induction ts arbitrary: tasks reports k)
  case (Cons t ts)
  show ?case
  proof (cases "m \<le> length tasks + 1")
    case True
    with Cons.prems obtain a b c where j: "join_next_report env pick (tasks @ [t], reports, k) = Some (a, b, c)"
      "spawn_loop env pick m ts (a, b, c) = Some (tasks', reports', k')"
      by (auto simp: Option.bind_eq_Some_conv)
    have "length (tasks @ [t]) = Suc (length a)" "length b = Suc (length reports)"
      using join_next_count [OF j(1)] by auto
    then show ?thesis using Cons.IH [OF j(2)] Cons.prems by simp
  next
    case False
    then show ?thesis using Cons.IH [of "tasks @ [t]" reports k] Cons.prems by simp
  qed
qed simp

text \<open>
  C25. The number of tasks in flight is capped. Whatever the machine's parallelism, after any
  number of spawns fewer tasks are in flight than the cap, so that the next spawn at most reaches
  it; the cap is between 1 and 64, and every task spawned is in flight or reported.
\<close>

theorem in_flight_capped:
  assumes "spawn_loop env pick (max_in_flight_cases par) ts ([], [], 0) = Some (tasks, reports, k)"
  shows "length tasks + 1 \<le> max_in_flight_cases par \<and> max_in_flight_cases par \<le> 64 \<and>
    length reports + length tasks = length ts"
  using spawn_loop_count [OF _ assms] max_in_flight_bounds [of par] by (simp add: MAX_IN_FLIGHT_CASES_def)

lemma in_flight_capped_witness:
  "\<exists>tasks reports k. spawn_loop failing_env (\<lambda>k n. 0) (max_in_flight_cases (Some 1))
     (case_tasks config_default (replicate 3 (demo_case RunExport)) policy_default) ([], [], 0) =
       Some (tasks, reports, k) \<and> length tasks < 2 \<and> length reports + length tasks = 3"
proof -
  have e: "list_all (task_ends failing_env) (case_tasks config_default (replicate 3 (demo_case RunExport)) policy_default)"
    by code_simp
  have m: "max_in_flight_cases (Some 1) = 2" by code_simp
  obtain tasks reports k where s: "spawn_loop failing_env (\<lambda>k n. 0) (max_in_flight_cases (Some 1))
     (case_tasks config_default (replicate 3 (demo_case RunExport)) policy_default) ([], [], 0) = Some (tasks, reports, k)"
    using spawn_loop_ends [of "max_in_flight_cases (Some 1)" failing_env "[]"
        "case_tasks config_default (replicate 3 (demo_case RunExport)) policy_default" "\<lambda>k n. 0" "[]" 0] e m by auto
  then show ?thesis using in_flight_capped [OF s] m by (simp add: case_tasks_def config_default_def)
qed

end
