(* ===== verification/Corpus.thy ===== *)
theory Corpus
  imports Policy Guests "HOL-Library.Char_ord" "HOL-Library.List_Lexorder" "HOL-Library.AList"
begin

text \<open>
  The loader of external guest modules of \<open>src/corpus.rs\<close>: the manifest parser, the search for
  modules and the cases built of them. The file system is an argument: a tree of directory
  entries and what opening a file gives. The manifest's hash map is an association list; the
  order of its iteration, which only picks the entry an error names, is an argument too.
\<close>

section \<open>Paths\<close>

definition join_path :: "string \<Rightarrow> string \<Rightarrow> string" where
  "join_path dir name =
     (if dir = [] \<or> ends_with ''/'' dir then dir @ name else dir @ ''/'' @ name)"

definition path_display :: "string \<Rightarrow> string" where
  "path_display p = from_utf8_lossy (bytes_of_string p)"

definition path_components :: "string \<Rightarrow> string list" where
  "path_components p = filter (\<lambda>c. c \<noteq> [] \<and> c \<noteq> ''.'') (split_on CHR ''/'' p)"

definition file_name :: "string \<Rightarrow> string option" where
  "file_name p = (let cs = path_components p in
     if cs = [] \<or> last cs = ''..'' then None else Some (last cs))"

text \<open>A file name at its last dot: stem and extension. A name that only begins with a dot has none.\<close>

definition split_name :: "string \<Rightarrow> string \<times> string option" where
  "split_name name =
     (let ext = takeWhile (\<lambda>c. c \<noteq> CHR ''.'') (rev name);
          stem = rev (drop (Suc (length ext)) (rev name))
      in if stem = [] then (name, None) else (stem, Some (rev ext)))"

definition extension :: "string \<Rightarrow> string option" where
  "extension p = Option.bind (file_name p) (\<lambda>n. snd (split_name n))"

definition file_stem :: "string \<Rightarrow> string option" where
  "file_stem p = map_option (\<lambda>n. fst (split_name n)) (file_name p)"

definition to_str :: "string \<Rightarrow> string option" where
  "to_str p = from_utf8 (bytes_of_string p)"

definition slashes :: "string \<Rightarrow> string" where
  "slashes = map (\<lambda>c. if c = backslash_char then CHR ''/'' else c)"

text \<open>\<open>strip_prefix\<close> of a path that was joined onto the root.\<close>

definition strip_root :: "string \<Rightarrow> string \<Rightarrow> string option" where
  "strip_root root path =
     (if starts_with root path then Some (dropWhile (\<lambda>c. c = CHR ''/'') (drop (length root) path)) else None)"

definition relative_key :: "string \<Rightarrow> string \<Rightarrow> string" where
  "relative_key root path = slashes (path_display (unwrap_or (strip_root root path) path))"

fun trim_dot_slash :: "string \<Rightarrow> string" where
  "trim_dot_slash (a # b # s) = (if a = CHR ''.'' \<and> b = CHR ''/'' then trim_dot_slash s else a # b # s)"
| "trim_dot_slash s = s"

definition normalize_manifest_path :: "string \<Rightarrow> string" where
  "normalize_manifest_path path = slashes (trim_dot_slash path)"

definition is_guest_module :: "string \<Rightarrow> bool" where
  "is_guest_module path = (Option.bind (extension path) to_str \<in> {Some ''wat'', Some ''wasm''})"

section \<open>The manifest\<close>

record case_metadata =
  md_file :: string
  md_name :: "string option"
  md_expected_code :: "i32 option"
  md_kind :: "case_kind option"
  md_category :: "string option"
  md_severity :: "string option"
  md_description :: "string option"
  md_control :: "string option"
  md_stage :: "string option"
  md_ttp :: "string option"
  md_detection :: "string option"

definition metadata_default :: case_metadata where
  "metadata_default = \<lparr>md_file = [], md_name = None, md_expected_code = None, md_kind = None,
     md_category = None, md_severity = None, md_description = None, md_control = None,
     md_stage = None, md_ttp = None, md_detection = None\<rparr>"

fun parse_quoted_string :: "nat \<Rightarrow> string list \<Rightarrow> string \<Rightarrow> string + string" where
  "parse_quoted_string n [] out = Inr out"
| "parse_quoted_string n (ch # chs) out =
     (if ch = [backslash_char] then
        (case chs of
           [] \<Rightarrow> Inl (at_line n ''trailing escape in string'')
         | e # rest \<Rightarrow>
             (case unescape_char e of
                Some c \<Rightarrow> parse_quoted_string n rest (out @ [c])
              | None \<Rightarrow> Inl (at_line n (''unsupported escape '' @ [backslash_char] @ e))))
      else parse_quoted_string n chs (out @ ch))"

definition parse_quoted_or_bare :: "string \<Rightarrow> nat \<Rightarrow> string + string" where
  "parse_quoted_or_bare v n =
     (let value = trim v in
      if starts_with [quote_char] value then
        (if \<not> ends_with [quote_char] value \<or> length value < 2 then
           Inl (at_line n ''unterminated string'')
         else parse_quoted_string n (utf8_chars (take (length value - 2) (drop 1 value))) [])
      else Inr value)"

definition quoted :: "string \<Rightarrow> string" where
  "quoted s = [CHR 0x27] @ s @ [CHR 0x27]"

definition kind_of_name :: "string \<Rightarrow> case_kind option" where
  "kind_of_name v =
     (if v = ''run'' \<or> v = ''run_export'' then Some RunExport
      else if v = ''growth_probe'' then Some GrowthProbe
      else if v = ''static_audit'' then Some StaticAudit
      else None)"

definition set_case_key :: "nat \<Rightarrow> string \<Rightarrow> string \<Rightarrow> case_metadata \<Rightarrow> string + case_metadata" where
  "set_case_key n key v md =
     (if key = ''file'' then Inr (md\<lparr>md_file := normalize_manifest_path v\<rparr>)
      else if key = ''name'' then Inr (md\<lparr>md_name := Some v\<rparr>)
      else if key = ''expected'' then
        result_bind (ok_or (at_line n (''unsupported expected code '' @ quoted v)) (parse_code_name v))
          (\<lambda>code. Inr (md\<lparr>md_expected_code := Some code\<rparr>))
      else if key = ''kind'' then
        result_bind (ok_or (at_line n (''unsupported kind '' @ quoted v)) (kind_of_name v))
          (\<lambda>kind. Inr (md\<lparr>md_kind := Some kind\<rparr>))
      else if key = ''category'' then Inr (md\<lparr>md_category := Some v\<rparr>)
      else if key = ''severity'' then Inr (md\<lparr>md_severity := Some v\<rparr>)
      else if key = ''description'' then Inr (md\<lparr>md_description := Some v\<rparr>)
      else if key = ''control'' then Inr (md\<lparr>md_control := Some v\<rparr>)
      else if key = ''stage'' then Inr (md\<lparr>md_stage := Some v\<rparr>)
      else if key = ''ttp'' then Inr (md\<lparr>md_ttp := Some v\<rparr>)
      else if key = ''detection'' then Inr (md\<lparr>md_detection := Some v\<rparr>)
      else Inl (at_line n (''unsupported key '' @ quoted key)))"

text \<open>The line loop: the finished cases and the one being read.\<close>

fun manifest_lines ::
  "nat \<Rightarrow> string list \<Rightarrow> case_metadata list \<Rightarrow> case_metadata option \<Rightarrow> string + case_metadata list" where
  "manifest_lines n [] cases current =
     Inr (case current of Some md \<Rightarrow> cases @ [md] | None \<Rightarrow> cases)"
| "manifest_lines n (raw # raws) cases current =
     (let line = uncomment raw in
      if line = [] then manifest_lines (Suc n) raws cases current
      else if line = ''[[case]]'' then
        manifest_lines (Suc n) raws (case current of Some md \<Rightarrow> cases @ [md] | None \<Rightarrow> cases)
          (Some metadata_default)
      else (case current of
          None \<Rightarrow> Inl (at_line n ''expected [[case]] before key'')
        | Some md \<Rightarrow>
            (case split_once (CHR ''='') line of
               None \<Rightarrow> Inl (at_line n ''expected key = value'')
             | Some (key, v) \<Rightarrow>
                 result_bind (parse_quoted_or_bare (trim v) n) (\<lambda>value.
                 result_bind (set_case_key n (trim key) value md) (\<lambda>md'.
                   manifest_lines (Suc n) raws cases (Some md'))))))"

text \<open>The map by file.\<close>

fun index_cases ::
  "case_metadata list \<Rightarrow> (string \<times> case_metadata) list \<Rightarrow> string + (string \<times> case_metadata) list" where
  "index_cases [] by_file = Inr by_file"
| "index_cases (md # mds) by_file =
     (if md_file md = [] then Inl ''corpus.toml case is missing file''
      else if map_of by_file (md_file md) \<noteq> None then
        Inl ''corpus.toml contains duplicate file entries''
      else index_cases mds (by_file @ [(md_file md, md)]))"

definition parse_manifest :: "string \<Rightarrow> string + (string \<times> case_metadata) list" where
  "parse_manifest contents =
     result_bind (manifest_lines 1 (lines contents) [] None) (\<lambda>cases. index_cases cases [])"

section \<open>Reading modules\<close>

definition MAX_EXTERNAL_MODULE_BYTES :: nat where
  "MAX_EXTERNAL_MODULE_BYTES = 16 * 1024 * 1024"

text \<open>What opening a module's file gives: its length and its contents, or the errors.\<close>

record module_file =
  mf_len :: "string + nat"
  mf_bytes :: "string + u8 list"

definition read_bounded_bytes :: "(string \<Rightarrow> string + module_file) \<Rightarrow> string \<Rightarrow> string + u8 list" where
  "read_bounded_bytes open_file path =
     (case open_file path of
        Inl err \<Rightarrow> Inl (''failed to open '' @ path_display path @ '': '' @ err)
      | Inr f \<Rightarrow>
         (case mf_len f of
            Inl err \<Rightarrow> Inl (''failed to stat '' @ path_display path @ '': '' @ err)
          | Inr len \<Rightarrow>
             (if MAX_EXTERNAL_MODULE_BYTES < len then
                Inl (path_display path @ '' is '' @ show_nat len @ '' bytes; max external module size is '' @
                  show_nat MAX_EXTERNAL_MODULE_BYTES @ '' bytes'')
              else if usize_max < len then
                Inl (path_display path @ '' size does not fit host usize'')
              else (case mf_bytes f of
                  Inl err \<Rightarrow> Inl (''failed to read '' @ path_display path @ '': '' @ err)
                | Inr contents \<Rightarrow>
                    (let bytes = take (MAX_EXTERNAL_MODULE_BYTES + 1) contents in
                     if MAX_EXTERNAL_MODULE_BYTES < length bytes then
                       Inl (path_display path @ '' exceeded max external module size while reading'')
                     else Inr bytes)))))"

text \<open>
  The message of \<open>String::from_utf8\<close>'s error: where the first ill-formed part is, and its length
  unless it is a sequence the input breaks off.
\<close>

function utf8_error_at :: "nat \<Rightarrow> u8 list \<Rightarrow> string" where
  "utf8_error_at i [] = []"
| "utf8_error_at i (a # r) =
     (case utf8_head (a # r) of (ok, n) \<Rightarrow>
        if ok then utf8_error_at (i + n) (drop n (a # r))
        else if n = length (a # r) \<and> 0xC2 \<le> a \<and> a \<le> 0xF4 then
          ''incomplete utf-8 byte sequence from index '' @ show_nat i
        else ''invalid utf-8 sequence of '' @ show_nat n @ '' bytes from index '' @ show_nat i)"
  by pat_completeness auto
termination
proof (relation "measure (\<lambda>(i, bs). length bs)", goal_cases)
  case (2 i a r p n)
  then have "n = snd (utf8_head (a # r))" by (metis snd_conv)
  then have "0 < n" using utf8_head_pos [of a r] by (simp only:)
  then show ?case by simp
qed simp

definition read_bounded_utf8 :: "(string \<Rightarrow> string + module_file) \<Rightarrow> string \<Rightarrow> string + string" where
  "read_bounded_utf8 open_file path =
     result_bind (read_bounded_bytes open_file path) (\<lambda>bytes.
       ok_or (path_display path @ '' is not valid UTF-8: '' @ utf8_error_at 0 bytes) (from_utf8 bytes))"

section \<open>Cases\<close>

definition load_source :: "(string \<Rightarrow> string + module_file) \<Rightarrow> string \<Rightarrow> string + guest_source" where
  "load_source open_file path =
     (let ext = Option.bind (extension path) to_str in
      if ext = Some ''wat'' then
        result_bind (read_bounded_utf8 open_file path) (\<lambda>text. Inr (Wat text))
      else if ext = Some ''wasm'' then
        result_bind (read_bounded_bytes open_file path) (\<lambda>bytes. Inr (Wasm bytes))
      else Inl (''unsupported guest module '' @ path_display path))"

definition load_case ::
  "(string \<Rightarrow> string + module_file) \<Rightarrow> string \<Rightarrow> string \<Rightarrow> case_metadata option \<Rightarrow> string + guest_case" where
  "load_case open_file path rel meta =
     (let md = unwrap_or meta metadata_default;
          name = unwrap_or (md_name md)
            (unwrap_or (Option.bind (file_stem path) to_str) ''external_guest'')
      in result_bind (load_source open_file path) (\<lambda>source. Inr
        \<lparr>gc_name = name,
         gc_description = unwrap_or (md_description md) (''external corpus module '' @ rel),
         gc_expected_code = unwrap_or (md_expected_code md) OK,
         gc_kind = unwrap_or (md_kind md) RunExport,
         gc_category = unwrap_or (md_category md) ''external'',
         gc_severity = unwrap_or (md_severity md) ''info'',
         gc_control = unwrap_or (md_control md) ''observe external guest under configured host policy'',
         gc_stage = unwrap_or (md_stage md) ''external corpus validation'',
         gc_ttp = unwrap_or (md_ttp md) ''external-host-import-abuse'',
         gc_detection = unwrap_or (md_detection md)
           ''external guest telemetry records configured boundary decisions'',
         gc_source_path = slashes (path_display path), gc_source = source\<rparr>))"

section \<open>Searching the directory\<close>

text \<open>
  A directory's listing, as \<open>read_dir\<close> yields it: entries that cannot be read, entries whose type
  cannot be found out, files and directories with their own listing.
\<close>

datatype entry =
    EntryError string
  | TypeError string string
  | FileEntry string
  | DirEntry string "string + entry list"

fun collect_entries :: "string \<Rightarrow> entry list \<Rightarrow> string list \<Rightarrow> string + string list" where
  "collect_entries dir [] files = Inr files"
| "collect_entries dir (EntryError err # es) files = Inl (''failed to read directory entry: '' @ err)"
| "collect_entries dir (TypeError name err # es) files =
     Inl (''failed to inspect '' @ path_display (join_path dir name) @ '': '' @ err)"
| "collect_entries dir (FileEntry name # es) files =
     collect_entries dir es
       (if is_guest_module (join_path dir name) then files @ [join_path dir name] else files)"
| "collect_entries dir (DirEntry name (Inl err) # es) files =
     Inl (''failed to read '' @ path_display (join_path dir name) @ '': '' @ err)"
| "collect_entries dir (DirEntry name (Inr below) # es) files =
     result_bind (collect_entries (join_path dir name) below files) (\<lambda>files'. collect_entries dir es files')"

definition collect_guest_files :: "string \<Rightarrow> string + entry list \<Rightarrow> string list \<Rightarrow> string + string list" where
  "collect_guest_files dir listing files =
     (case listing of
        Inl err \<Rightarrow> Inl (''failed to read '' @ path_display dir @ '': '' @ err)
      | Inr es \<Rightarrow> collect_entries dir es files)"

record corpus_fs =
  co_is_dir :: bool
  co_manifest :: "(string + string) option"
  co_listing :: "string + entry list"
  co_open :: "string \<Rightarrow> string + module_file"

definition load_manifest :: "corpus_fs \<Rightarrow> string \<Rightarrow> string + (string \<times> case_metadata) list" where
  "load_manifest fs dir =
     (case co_manifest fs of
        None \<Rightarrow> Inr []
      | Some (Inl err) \<Rightarrow>
          Inl (''failed to read '' @ path_display (join_path dir ''corpus.toml'') @ '': '' @ err)
      | Some (Inr contents) \<Rightarrow> parse_manifest contents)"

text \<open>The case loop; the entries of the manifest used are removed from the map.\<close>

fun load_cases ::
  "corpus_fs \<Rightarrow> string \<Rightarrow> string list \<Rightarrow> (string \<times> case_metadata) list \<Rightarrow> guest_case list \<Rightarrow>
   string + guest_case list \<times> (string \<times> case_metadata) list" where
  "load_cases fs dir [] metadata cases = Inr (cases, metadata)"
| "load_cases fs dir (path # paths) metadata cases =
     (let rel = relative_key dir path in
      result_bind (load_case (co_open fs) path rel (map_of metadata rel)) (\<lambda>c.
        load_cases fs dir paths (AList.delete rel metadata) (cases @ [c])))"

definition load_corpus ::
  "(string list \<Rightarrow> string) \<Rightarrow> corpus_fs \<Rightarrow> string \<Rightarrow> string + guest_case list" where
  "load_corpus first_key fs dir =
     (if \<not> co_is_dir fs then Inl (dir @ '' is not a directory'')
      else result_bind (load_manifest fs dir) (\<lambda>metadata.
        result_bind (collect_guest_files dir (co_listing fs) []) (\<lambda>found.
          (let files = sort_key path_components found in
           if files = [] then Inl (dir @ '' contains no .wat or .wasm files'')
           else result_bind (load_cases fs dir files metadata []) (\<lambda>(cases, rest).
             if rest \<noteq> [] then
               Inl (''corpus.toml references '' @ first_key (map fst rest) @ '', but the file was not found'')
             else Inr cases)))))"

section \<open>Rendered manifests\<close>

text \<open>
  The manifest that says what given cases are: the specification the parser is checked against.
\<close>

definition quoted_line :: "string \<Rightarrow> string \<Rightarrow> string" where
  "quoted_line key v = policy_line key (concat (quoted_chars v))"

definition field_lines :: "string \<Rightarrow> string option \<Rightarrow> string list" where
  "field_lines key v = (case v of Some s \<Rightarrow> [quoted_line key s] | None \<Rightarrow> [])"

fun kind_name :: "case_kind \<Rightarrow> string" where
  "kind_name RunExport = ''run''"
| "kind_name GrowthProbe = ''growth_probe''"
| "kind_name StaticAudit = ''static_audit''"

definition render_case_lines :: "case_metadata \<Rightarrow> string list" where
  "render_case_lines md =
     ''[[case]]'' # quoted_line ''file'' (md_file md) # field_lines ''name'' (md_name md) @
     field_lines ''expected'' (map_option code_name (md_expected_code md)) @
     field_lines ''kind'' (map_option kind_name (md_kind md)) @
     field_lines ''category'' (md_category md) @ field_lines ''severity'' (md_severity md) @
     field_lines ''description'' (md_description md) @ field_lines ''control'' (md_control md) @
     field_lines ''stage'' (md_stage md) @ field_lines ''ttp'' (md_ttp md) @
     field_lines ''detection'' (md_detection md)"

definition render_manifest :: "case_metadata list \<Rightarrow> string" where
  "render_manifest mds = concat (map (\<lambda>l. l @ [lf_char]) (concat (map render_case_lines mds)))"

text \<open>Values a manifest can carry: strings without a number sign, which begins a comment.\<close>

definition value_ok :: "string \<Rightarrow> bool" where
  "value_ok s \<longleftrightarrow> is_str s \<and> CHR ''#'' \<notin> set s"

definition metadata_ok :: "case_metadata \<Rightarrow> bool" where
  "metadata_ok md \<longleftrightarrow> value_ok (md_file md) \<and> md_file md \<noteq> [] \<and>
     normalize_manifest_path (md_file md) = md_file md \<and>
     pred_option (\<lambda>c. ERR_TIMEOUT \<le> c \<and> c \<le> OK) (md_expected_code md) \<and>
     list_all (pred_option value_ok)
       [md_name md, md_category md, md_severity md, md_description md, md_control md, md_stage md,
        md_ttp md, md_detection md]"

lemma parse_quoted_string_esc:
  "parse_quoted_string n (concat (map esc_chars chs)) out = Inr (out @ concat chs)"
proof (induction chs arbitrary: out)
  case (Cons ch chs)
  show ?case by (cases ch rule: esc_chars_cases) (simp_all add: Cons)
qed simp

lemma trimmed_quoted: "is_str s \<Longrightarrow> trimmed_chars (quoted_chars s)"
  using wf_quoted_chars [of s] by (simp add: trimmed_chars_def quoted_chars_def)

lemma parse_quoted:
  assumes "is_str s"
  shows "parse_quoted_or_bare (concat (quoted_chars s)) n = Inr s"
proof -
  have "list_all wf_char (concat (map esc_chars (utf8_chars s)))"
    using wf_quoted_chars [OF assms] by (simp add: quoted_chars_def)
  then have u: "utf8_chars (concat (concat (map esc_chars (utf8_chars s)))) = concat (map esc_chars (utf8_chars s))"
    by (rule utf8_chars_concat)
  show ?thesis
    unfolding parse_quoted_or_bare_def trim_trimmed [OF trimmed_quoted [OF assms]]
    by (simp add: quoted_chars_def starts_with_def ends_with_def Let_def u parse_quoted_string_esc)
qed

definition key_ok :: "string \<Rightarrow> bool" where
  "key_ok k \<longleftrightarrow> solid k \<and> set k \<inter> {CHR ''='', CHR ''#''} = {} \<and> hd k \<noteq> CHR ''[''"

lemma quoted_line_read:
  assumes "key_ok k" and "value_ok s"
  shows "manifest_lines n (quoted_line k s # ls) cases (Some md) =
    result_bind (set_case_key n k s md) (\<lambda>md'. manifest_lines (Suc n) ls cases (Some md'))"
proof -
  have k: "solid k" "set k \<inter> {CHR ''='', CHR ''#''} = {}" "k \<noteq> []" "hd k \<noteq> CHR ''[''"
    using assms(1) by (auto simp: key_ok_def solid_def)
  have s: "is_str s" "CHR ''#'' \<notin> set s" using assms(2) by (auto simp: value_ok_def)
  note r = line_read [OF k(1,2) trimmed_quoted [OF s(1)] quoted_chars_no_hash [OF s(2)]]
  have ne: "quoted_line k s \<noteq> []" "quoted_line k s \<noteq> ''[[case]]''"
    using k(3,4) by (auto simp: quoted_line_def policy_line_def neq_Nil_conv)
  show ?thesis
    using ne by (simp add: quoted_line_def r Let_def trim_key [OF k(1)] trim_value [OF trimmed_quoted [OF s(1)]]
        parse_quoted [OF s(1)])
qed

lemma field_lines_read:
  assumes "key_ok k" and "pred_option value_ok v"
    and "\<And>n s. v = Some s \<Longrightarrow> set_case_key n k s md = Inr (upd s)"
  shows "manifest_lines n (field_lines k v @ ls) cases (Some md) =
    manifest_lines (n + length (field_lines k v)) ls cases (Some (case v of Some s \<Rightarrow> upd s | None \<Rightarrow> md))"
  using assms by (auto simp: field_lines_def quoted_line_read simp del: manifest_lines.simps split: option.split)

lemma keys_ok:
  "key_ok ''file''" "key_ok ''name''" "key_ok ''expected''" "key_ok ''kind''" "key_ok ''category''"
  "key_ok ''severity''" "key_ok ''description''" "key_ok ''control''" "key_ok ''stage''"
  "key_ok ''ttp''" "key_ok ''detection''"
  by code_simp+

text \<open>Reading one optional field into metadata that does not have it yet.\<close>

lemma absent_fields:
  "md_name md = None \<Longrightarrow> md\<lparr>md_name := None\<rparr> = md"
  "md_category md = None \<Longrightarrow> md\<lparr>md_category := None\<rparr> = md"
  "md_severity md = None \<Longrightarrow> md\<lparr>md_severity := None\<rparr> = md"
  "md_description md = None \<Longrightarrow> md\<lparr>md_description := None\<rparr> = md"
  "md_control md = None \<Longrightarrow> md\<lparr>md_control := None\<rparr> = md"
  "md_stage md = None \<Longrightarrow> md\<lparr>md_stage := None\<rparr> = md"
  "md_ttp md = None \<Longrightarrow> md\<lparr>md_ttp := None\<rparr> = md"
  "md_detection md = None \<Longrightarrow> md\<lparr>md_detection := None\<rparr> = md"
  "md_expected_code md = None \<Longrightarrow> md\<lparr>md_expected_code := None\<rparr> = md"
  "md_kind md = None \<Longrightarrow> md\<lparr>md_kind := None\<rparr> = md"
  by (cases md; simp)+

lemma read_fields:
  "\<lbrakk>pred_option value_ok v; md_name md = None\<rbrakk> \<Longrightarrow>
     manifest_lines n (field_lines ''name'' v @ ls) cases (Some md) =
       manifest_lines (n + length (field_lines ''name'' v)) ls cases (Some (md\<lparr>md_name := v\<rparr>))"
  "\<lbrakk>pred_option value_ok v; md_category md = None\<rbrakk> \<Longrightarrow>
     manifest_lines n (field_lines ''category'' v @ ls) cases (Some md) =
       manifest_lines (n + length (field_lines ''category'' v)) ls cases (Some (md\<lparr>md_category := v\<rparr>))"
  "\<lbrakk>pred_option value_ok v; md_severity md = None\<rbrakk> \<Longrightarrow>
     manifest_lines n (field_lines ''severity'' v @ ls) cases (Some md) =
       manifest_lines (n + length (field_lines ''severity'' v)) ls cases (Some (md\<lparr>md_severity := v\<rparr>))"
  "\<lbrakk>pred_option value_ok v; md_description md = None\<rbrakk> \<Longrightarrow>
     manifest_lines n (field_lines ''description'' v @ ls) cases (Some md) =
       manifest_lines (n + length (field_lines ''description'' v)) ls cases (Some (md\<lparr>md_description := v\<rparr>))"
  "\<lbrakk>pred_option value_ok v; md_control md = None\<rbrakk> \<Longrightarrow>
     manifest_lines n (field_lines ''control'' v @ ls) cases (Some md) =
       manifest_lines (n + length (field_lines ''control'' v)) ls cases (Some (md\<lparr>md_control := v\<rparr>))"
  "\<lbrakk>pred_option value_ok v; md_stage md = None\<rbrakk> \<Longrightarrow>
     manifest_lines n (field_lines ''stage'' v @ ls) cases (Some md) =
       manifest_lines (n + length (field_lines ''stage'' v)) ls cases (Some (md\<lparr>md_stage := v\<rparr>))"
  "\<lbrakk>pred_option value_ok v; md_ttp md = None\<rbrakk> \<Longrightarrow>
     manifest_lines n (field_lines ''ttp'' v @ ls) cases (Some md) =
       manifest_lines (n + length (field_lines ''ttp'' v)) ls cases (Some (md\<lparr>md_ttp := v\<rparr>))"
  "\<lbrakk>pred_option value_ok v; md_detection md = None\<rbrakk> \<Longrightarrow>
     manifest_lines n (field_lines ''detection'' v @ ls) cases (Some md) =
       manifest_lines (n + length (field_lines ''detection'' v)) ls cases (Some (md\<lparr>md_detection := v\<rparr>))"
  by (auto simp: field_lines_def quoted_line_read keys_ok set_case_key_def absent_fields
      simp del: manifest_lines.simps split: option.split)

lemma code_name_ok:
  "\<lbrakk>ERR_TIMEOUT \<le> c; c \<le> OK\<rbrakk> \<Longrightarrow> value_ok (code_name c) \<and> parse_code_name (code_name c) = Some c"
proof -
  assume c: "ERR_TIMEOUT \<le> c" "c \<le> OK"
  then have "parse_code_name (code_name c) = Some c" by (simp add: code_name_roundtrip)
  moreover have "is_ascii (code_name c) \<and> CHR ''#'' \<notin> set (code_name c)"
    by (simp add: code_name_def)
  ultimately show ?thesis by (simp add: value_ok_def is_str_ascii)
qed

lemma kind_name_ok: "value_ok (kind_name k) \<and> kind_of_name (kind_name k) = Some k"
  by (cases k) (simp_all add: value_ok_def is_str_ascii kind_of_name_def)

lemma read_codes:
  "\<lbrakk>pred_option (\<lambda>c. ERR_TIMEOUT \<le> c \<and> c \<le> OK) c; md_expected_code md = None\<rbrakk> \<Longrightarrow>
     manifest_lines n (field_lines ''expected'' (map_option code_name c) @ ls) cases (Some md) =
       manifest_lines (n + length (field_lines ''expected'' (map_option code_name c))) ls cases
         (Some (md\<lparr>md_expected_code := c\<rparr>))"
  "md_kind md = None \<Longrightarrow>
     manifest_lines n (field_lines ''kind'' (map_option kind_name k) @ ls) cases (Some md) =
       manifest_lines (n + length (field_lines ''kind'' (map_option kind_name k))) ls cases
         (Some (md\<lparr>md_kind := k\<rparr>))"
  using code_name_ok kind_name_ok
  by (auto simp: field_lines_def quoted_line_read keys_ok set_case_key_def absent_fields
      simp del: manifest_lines.simps split: option.split)

definition finished :: "case_metadata list \<Rightarrow> case_metadata option \<Rightarrow> case_metadata list" where
  "finished cases current = (case current of Some md \<Rightarrow> cases @ [md] | None \<Rightarrow> cases)"

lemma case_header:
  "manifest_lines n (''[[case]]'' # ls) cases current =
     manifest_lines (Suc n) ls (finished cases current) (Some metadata_default)"
proof -
  have "uncomment ''[[case]]'' = ''[[case]]''" by code_simp
  then show ?thesis by (simp add: finished_def)
qed

lemma render_case_read:
  assumes "metadata_ok md"
  shows "\<exists>n'. manifest_lines n (render_case_lines md @ ls) cases current =
    manifest_lines n' ls (finished cases current) (Some md)"
proof -
  have ok: "value_ok (md_file md)" "normalize_manifest_path (md_file md) = md_file md"
    "pred_option (\<lambda>c. ERR_TIMEOUT \<le> c \<and> c \<le> OK) (md_expected_code md)"
    "pred_option value_ok (md_name md)" "pred_option value_ok (md_category md)"
    "pred_option value_ok (md_severity md)" "pred_option value_ok (md_description md)"
    "pred_option value_ok (md_control md)" "pred_option value_ok (md_stage md)"
    "pred_option value_ok (md_ttp md)" "pred_option value_ok (md_detection md)"
    using assms by (simp_all add: metadata_ok_def)
  have eta: "\<lparr>md_file = md_file md, md_name = md_name md, md_expected_code = md_expected_code md,
      md_kind = md_kind md, md_category = md_category md, md_severity = md_severity md,
      md_description = md_description md, md_control = md_control md, md_stage = md_stage md,
      md_ttp = md_ttp md, md_detection = md_detection md\<rparr> = md" by simp
  show ?thesis
    unfolding render_case_lines_def append.simps append_assoc case_header
    by (rule exI, simp add: quoted_line_read keys_ok set_case_key_def ok read_fields read_codes
        metadata_default_def eta del: manifest_lines.simps)
qed

lemma render_cases_read:
  "list_all metadata_ok mds \<Longrightarrow>
     manifest_lines n (concat (map render_case_lines mds)) cases current = Inr (finished cases current @ mds)"
proof (induction mds arbitrary: n cases current)
  case (Cons md mds)
  obtain n' where "manifest_lines n (render_case_lines md @ concat (map render_case_lines mds)) cases current =
      manifest_lines n' (concat (map render_case_lines mds)) (finished cases current) (Some md)"
    using render_case_read [of md n "concat (map render_case_lines mds)" cases current] Cons.prems by auto
  then show ?case using Cons by (simp add: finished_def)
qed (simp add: finished_def)

lemma quoted_no_newline:
  assumes "is_str s"
  shows "lf_char \<notin> set (concat (quoted_chars s)) \<and> cr_char \<notin> set (concat (quoted_chars s))"
proof -
  have "[lf_char] \<notin> set (quoted_chars s) \<and> [cr_char] \<notin> set (quoted_chars s)"
    using esc_chars_no_newline by (auto simp: quoted_chars_def)
  then show ?thesis
    using set_filter_ascii [OF wf_quoted_chars [OF assms], of lf_char]
      set_filter_ascii [OF wf_quoted_chars [OF assms], of cr_char] by simp
qed

lemma quoted_line_no_newline:
  "\<lbrakk>value_ok s; lf_char \<notin> set k; cr_char \<notin> set k\<rbrakk> \<Longrightarrow>
     lf_char \<notin> set (quoted_line k s) \<and> cr_char \<notin> set (quoted_line k s)"
  using quoted_no_newline [of s] by (simp add: quoted_line_def policy_line_def value_ok_def del: set_concat)

lemma field_lines_no_newline:
  "\<lbrakk>l \<in> set (field_lines k v); pred_option value_ok v; lf_char \<notin> set k; cr_char \<notin> set k\<rbrakk> \<Longrightarrow>
     lf_char \<notin> set l \<and> cr_char \<notin> set l"
  using quoted_line_no_newline by (auto simp: field_lines_def split: option.splits)

lemma case_lines_no_newline:
  assumes "metadata_ok md" and "l \<in> set (render_case_lines md)"
  shows "lf_char \<notin> set l \<and> cr_char \<notin> set l"
proof -
  have "pred_option value_ok (map_option code_name (md_expected_code md))"
    "pred_option value_ok (map_option kind_name (md_kind md))"
    using assms(1) code_name_ok kind_name_ok
    by (auto simp: metadata_ok_def option.pred_map comp_def pred_option_def)
  then show ?thesis
    using assms(2) assms(1) [unfolded metadata_ok_def] quoted_line_no_newline [of "md_file md" "''file''"]
      field_lines_no_newline
    unfolding render_case_lines_def by (auto simp del: set_concat)
qed

lemma lines_render_manifest:
  "list_all metadata_ok mds \<Longrightarrow> lines (render_manifest mds) = concat (map render_case_lines mds)"
  unfolding render_manifest_def using case_lines_no_newline
  by (intro lines_concat) (auto simp: list_all_iff)

lemma index_cases_distinct:
  "\<lbrakk>distinct (map fst acc @ map md_file mds); list_all (\<lambda>md. md_file md \<noteq> []) mds\<rbrakk> \<Longrightarrow>
     index_cases mds acc = Inr (acc @ map (\<lambda>md. (md_file md, md)) mds)"
proof (induction mds arbitrary: acc)
  case (Cons md mds)
  have "map_of acc (md_file md) = None" using Cons.prems(1) by (simp add: map_of_eq_None_iff)
  then show ?case using Cons.IH [of "acc @ [(md_file md, md)]"] Cons.prems by simp
qed simp

text \<open>
  C22. Round trip of the corpus manifest: the text that spells out a list of cases, one block each
  with every field they have, is parsed to exactly those cases by file, for any strings without
  a number sign (quotes, backslashes, tabs and line ends included), known codes and distinct
  normalised files.
\<close>

theorem manifest_roundtrip:
  assumes "list_all metadata_ok mds" and "distinct (map md_file mds)"
  shows "parse_manifest (render_manifest mds) = Inr (map (\<lambda>md. (md_file md, md)) mds)"
proof -
  have "list_all (\<lambda>md. md_file md \<noteq> []) mds"
    using assms(1) by (auto simp: list_all_iff metadata_ok_def)
  then show ?thesis
    using lines_render_manifest [OF assms(1)] render_cases_read [OF assms(1), of 1 "[]" None]
      index_cases_distinct [of "[]" mds] assms(2)
    by (simp add: parse_manifest_def finished_def)
qed

definition overflow_case :: case_metadata where
  "overflow_case = metadata_default\<lparr>md_file := ''sub/overflow.wat'', md_name := Some ''external_overflow'',
     md_expected_code := Some ERR_BOUNDS, md_kind := Some GrowthProbe,
     md_description := Some (''tab'' @ [tab_char, quote_char, backslash_char, lf_char] @ ''end'')\<rparr>"

lemma manifest_roundtrip_witness:
  "parse_manifest (render_manifest [overflow_case, metadata_default\<lparr>md_file := ''good.wasm''\<rparr>]) =
     Inr [(''sub/overflow.wat'', overflow_case), (''good.wasm'', metadata_default\<lparr>md_file := ''good.wasm''\<rparr>)]"
proof -
  let ?mds = "[overflow_case, metadata_default\<lparr>md_file := ''good.wasm''\<rparr>]"
  have "list_all metadata_ok ?mds"
    by (simp add: metadata_ok_def overflow_case_def metadata_default_def value_ok_def is_str_ascii
        normalize_manifest_path_def slashes_def code_defs)
  moreover have "distinct (map md_file ?mds)" by code_simp
  ultimately have "parse_manifest (render_manifest ?mds) = Inr (map (\<lambda>md. (md_file md, md)) ?mds)"
    by (rule manifest_roundtrip)
  then show ?thesis by (simp add: overflow_case_def metadata_default_def)
qed

section \<open>What a loaded corpus is\<close>

definition source_bounded :: "guest_source \<Rightarrow> bool" where
  "source_bounded s = (case s of
     Wat text \<Rightarrow> is_str text \<and> length text \<le> MAX_EXTERNAL_MODULE_BYTES
   | Wasm bytes \<Rightarrow> length bytes \<le> MAX_EXTERNAL_MODULE_BYTES)"

lemma read_bounded_bytes_bounded:
  "read_bounded_bytes open_file path = Inr bytes \<Longrightarrow> length bytes \<le> MAX_EXTERNAL_MODULE_BYTES"
  by (auto simp: read_bounded_bytes_def Let_def split: sum.splits if_splits)

lemma load_source_bounded: "load_source open_file path = Inr s \<Longrightarrow> source_bounded s"
  by (auto simp: load_source_def Let_def source_bounded_def result_bind_Inr read_bounded_utf8_def
      from_utf8_def is_str_def split: if_splits dest: read_bounded_bytes_bounded)

lemma load_case_sound:
  "load_case open_file path rel meta = Inr c \<Longrightarrow>
     gc_source_path c = slashes (path_display path) \<and> source_bounded (gc_source c)"
  by (auto simp: load_case_def Let_def result_bind_Inr dest: load_source_bounded)

lemma load_cases_sound:
  "load_cases fs dir paths metadata cases = Inr (cs, rest) \<Longrightarrow>
     \<exists>new. cs = cases @ new \<and> list_all (\<lambda>c. source_bounded (gc_source c)) new \<and>
       map gc_source_path new = map (\<lambda>p. slashes (path_display p)) paths \<and>
       fst ` set rest = fst ` set metadata - relative_key dir ` set paths \<and>
       (distinct (map (relative_key dir) paths) \<longrightarrow>
          list_all2 (\<lambda>p c. load_case (co_open fs) p (relative_key dir p) (map_of metadata (relative_key dir p)) = Inr c)
            paths new)"
proof (induction paths arbitrary: metadata cases)
  case (Cons path paths)
  let ?rel = "relative_key dir path"
  from Cons.prems obtain c where c: "load_case (co_open fs) path ?rel (map_of metadata ?rel) = Inr c"
    "load_cases fs dir paths (AList.delete ?rel metadata) (cases @ [c]) = Inr (cs, rest)"
    by (auto simp: Let_def result_bind_Inr)
  from Cons.IH [OF c(2)] obtain new where new: "cs = (cases @ [c]) @ new"
    "list_all (\<lambda>c. source_bounded (gc_source c)) new"
    "map gc_source_path new = map (\<lambda>p. slashes (path_display p)) paths"
    "fst ` set rest = fst ` set (AList.delete ?rel metadata) - relative_key dir ` set paths"
    "distinct (map (relative_key dir) paths) \<longrightarrow>
       list_all2 (\<lambda>p c. load_case (co_open fs) p (relative_key dir p)
         (map_of (AList.delete ?rel metadata) (relative_key dir p)) = Inr c) paths new"
    by blast
  have "list_all2 (\<lambda>p c. load_case (co_open fs) p (relative_key dir p) (map_of metadata (relative_key dir p)) = Inr c)
      paths new" if d: "distinct (map (relative_key dir) (path # paths))"
  proof -
    have "map_of (AList.delete ?rel metadata) (relative_key dir p) = map_of metadata (relative_key dir p)"
      if "p \<in> set paths" for p using that d by (auto simp: delete_conv') (metis image_eqI)
    with new(5) d show ?thesis by (auto simp: list_all2_conv_all_nth)
  qed
  moreover have "fst ` set (AList.delete ?rel metadata) = fst ` set metadata - {?rel}"
    by (simp add: dom_map_of_conv_image_fst [symmetric] delete_conv' dom_fun_upd) 
  ultimately show ?case using new c load_case_sound [OF c(1)] by (intro exI [of _ "c # new"]) auto
qed simp


section \<open>What the modules of a tree are\<close>

text \<open>
  The specification of the search, without its recursion: an entry lies in a tree below a list of
  directories, each listed in the one before it; a module is a file whose name is a stem and one
  of the two endings. The names a directory lists have no separator, are not \<open>.\<close> or \<open>..\<close>, and
  are listed once.
\<close>

inductive lies_in :: "entry list \<Rightarrow> string list \<Rightarrow> entry \<Rightarrow> bool" where
  listed: "e \<in> set es \<Longrightarrow> lies_in es [] e"
| deeper: "\<lbrakk>DirEntry d (Inr below) \<in> set es; lies_in below ds e\<rbrakk> \<Longrightarrow> lies_in es (d # ds) e"

definition readable :: "entry \<Rightarrow> bool" where
  "readable e \<longleftrightarrow> (case e of FileEntry _ \<Rightarrow> True | DirEntry _ (Inr _) \<Rightarrow> True | _ \<Rightarrow> False)"

definition is_module_name :: "string \<Rightarrow> bool" where
  "is_module_name n \<longleftrightarrow> (\<exists>stem. stem \<noteq> [] \<and> (n = stem @ ''.wat'' \<or> n = stem @ ''.wasm''))"

definition tree_modules :: "string \<Rightarrow> entry list \<Rightarrow> string set" where
  "tree_modules dir es =
     {foldl join_path dir (ds @ [n]) |ds n. lies_in es ds (FileEntry n) \<and> is_module_name n}"

definition name_ok :: "string \<Rightarrow> bool" where
  "name_ok n \<longleftrightarrow> n \<notin> {[], ''.'', ''..''} \<and> CHR ''/'' \<notin> set n"

fun entry_names :: "entry list \<Rightarrow> string list" where
  "entry_names [] = []"
| "entry_names (EntryError err # es) = entry_names es"
| "entry_names (TypeError n err # es) = n # entry_names es"
| "entry_names (FileEntry n # es) = n # entry_names es"
| "entry_names (DirEntry n below # es) = n # entry_names es"

fun well_listed :: "entry list \<Rightarrow> bool" where
  "well_listed [] \<longleftrightarrow> True"
| "well_listed (DirEntry n (Inr below) # es) \<longleftrightarrow>
     name_ok n \<and> n \<notin> set (entry_names es) \<and> well_listed below \<and> well_listed es"
| "well_listed (FileEntry n # es) \<longleftrightarrow> name_ok n \<and> n \<notin> set (entry_names es) \<and> well_listed es"
| "well_listed (e # es) \<longleftrightarrow> well_listed es"

inductive_simps lies_in_Nil: "lies_in [] ds e"
inductive_simps lies_in_Cons: "lies_in (x # es) ds e"
inductive_simps lies_in_here: "lies_in es [] e"
inductive_simps lies_in_below: "lies_in es (d # ds) e"

lemma split_on_name: "CHR ''/'' \<notin> set n \<Longrightarrow> split_on CHR ''/'' (a @ CHR ''/'' # n) = split_on CHR ''/'' a @ [n]"
  by (simp add: split_on_sep split_on_absent)

lemma path_components_join: "name_ok n \<Longrightarrow> path_components (join_path dir n) = path_components dir @ [n]"
proof (cases "ends_with ''/'' dir")
  case True
  moreover assume "name_ok n"
  moreover obtain d where "dir = d @ ''/''" using True append_take_drop_id [of "length dir - 1" dir] by (auto simp: ends_with_def) metis
  ultimately show ?thesis
    by (simp add: path_components_def join_path_def name_ok_def split_on_name split_on_sep split_on_absent)
qed (auto simp: path_components_def join_path_def name_ok_def split_on_name split_on_absent)

lemma path_components_below:
  "list_all name_ok ns \<Longrightarrow> path_components (foldl join_path dir ns) = path_components dir @ ns"
  by (induction ns arbitrary: dir) (simp_all add: path_components_join)

lemma split_name_extension:
  "snd (split_name n) = Some e \<longleftrightarrow> (\<exists>stem. stem \<noteq> [] \<and> n = stem @ CHR ''.'' # e \<and> CHR ''.'' \<notin> set e)"
proof (cases "CHR ''.'' \<in> set n")
  case True
  then obtain stem x where n: "n = stem @ CHR ''.'' # x" "CHR ''.'' \<notin> set x"
    using split_list_last by metis
  have tw: "takeWhile (\<lambda>c. c \<noteq> CHR ''.'') (rev n) = rev y" if "n = s @ CHR ''.'' # y" "CHR ''.'' \<notin> set y" for s y
    using that by (auto simp: takeWhile_append)
  have s: "snd (split_name n) = (if stem = [] then None else Some x)"
    using tw [OF n] n(1) by (simp add: split_name_def Let_def)
  have u: "stem' = stem \<and> e = x" if "n = stem' @ CHR ''.'' # e" "CHR ''.'' \<notin> set e" for stem'
  proof -
    have "e = x" using tw [OF n] tw [OF that] by simp
    then show ?thesis using n(1) that(1) by simp
  qed
  show ?thesis
  proof
    assume "snd (split_name n) = Some e"
    then have "stem \<noteq> []" "e = x" unfolding s by (simp_all split: if_splits)
    then show "\<exists>stem. stem \<noteq> [] \<and> n = stem @ CHR ''.'' # e \<and> CHR ''.'' \<notin> set e" using n by blast
  next
    assume "\<exists>stem. stem \<noteq> [] \<and> n = stem @ CHR ''.'' # e \<and> CHR ''.'' \<notin> set e"
    then obtain s' where s': "s' \<noteq> []" "n = s' @ CHR ''.'' # e" "CHR ''.'' \<notin> set e" by (elim exE conjE)
    from u [OF s'(2,3)] s'(1) show "snd (split_name n) = Some e" by (simp only: s) simp
  qed
next
  case False
  then have tw: "takeWhile (\<lambda>c. c \<noteq> CHR ''.'') (rev n) = rev n" by (auto simp: takeWhile_eq_all_conv)
  have "n \<noteq> s @ CHR ''.'' # e" for s using False by auto
  then show ?thesis unfolding split_name_def Let_def tw by simp
qed

lemma to_str_eq: "is_str s \<Longrightarrow> to_str e = Some s \<longleftrightarrow> e = s"
  by (auto simp: to_str_def from_utf8_def is_str_def)

lemma is_module_path: "name_ok n \<Longrightarrow> is_guest_module (join_path dir n) \<longleftrightarrow> is_module_name n"
proof -
  assume "name_ok n"
  then have "extension (join_path dir n) = snd (split_name n)"
    by (simp add: extension_def file_name_def path_components_join Let_def name_ok_def)
  moreover have "to_str e = Some ''wat'' \<longleftrightarrow> e = ''wat''" "to_str e = Some ''wasm'' \<longleftrightarrow> e = ''wasm''" for e
    by (rule to_str_eq; simp add: is_str_ascii)+
  ultimately have "is_guest_module (join_path dir n) \<longleftrightarrow>
      snd (split_name n) = Some ''wat'' \<or> snd (split_name n) = Some ''wasm''"
    by (cases "snd (split_name n)") (auto simp: is_guest_module_def)
  then show ?thesis by (auto simp: is_module_name_def split_name_extension)
qed


lemma lies_in_step:
  "lies_in (x # es) ds e \<longleftrightarrow> lies_in es ds e \<or> (ds = [] \<and> e = x) \<or>
     (\<exists>d below ds'. x = DirEntry d (Inr below) \<and> ds = d # ds' \<and> lies_in below ds' e)"
  by (cases ds) (auto simp: lies_in_here lies_in_below)

lemma tree_modules_Nil: "tree_modules dir [] = {}"
  by (auto simp: tree_modules_def lies_in_Nil)

lemma tree_modules_file: "tree_modules dir (FileEntry n # es) =
    (if is_module_name n then insert (join_path dir n) (tree_modules dir es) else tree_modules dir es)"
  by (auto simp: tree_modules_def lies_in_step; force)

lemma tree_modules_dir: "tree_modules dir (DirEntry n (Inr below) # es) =
    tree_modules (join_path dir n) below \<union> tree_modules dir es"
  by (auto simp: tree_modules_def lies_in_step; force)

lemma well_listed_below: "\<lbrakk>well_listed es; DirEntry d (Inr below) \<in> set es\<rbrakk> \<Longrightarrow> well_listed below"
  by (induction es rule: well_listed.induct) auto

lemma listed_name:
  "\<lbrakk>well_listed es; e \<in> set es; e = FileEntry n \<or> e = DirEntry n (Inr below)\<rbrakk> \<Longrightarrow> name_ok n \<and> n \<in> set (entry_names es)"
  by (induction es rule: well_listed.induct) auto

lemma lies_in_names:
  "\<lbrakk>lies_in es ds e; e = FileEntry n; well_listed es\<rbrakk> \<Longrightarrow>
     list_all name_ok (ds @ [n]) \<and> hd (ds @ [n]) \<in> set (entry_names es)"
proof (induction rule: lies_in.induct)
  case (deeper d below es ds e)
  then show ?case using listed_name [OF deeper.prems(2) deeper.hyps(1)] well_listed_below by auto
qed (auto dest: listed_name)

lemma tree_modules_components:
  assumes "p \<in> tree_modules dir es" and "well_listed es"
  shows "\<exists>m ns. path_components p = path_components dir @ m # ns \<and> m \<in> set (entry_names es)"
proof -
  obtain ds n where p: "p = foldl join_path dir (ds @ [n])" "lies_in es ds (FileEntry n)"
    using assms(1) by (auto simp: tree_modules_def)
  then have "list_all name_ok (ds @ [n])" "hd (ds @ [n]) \<in> set (entry_names es)"
    using lies_in_names [OF p(2) refl assms(2)] by auto
  then show ?thesis
    using path_components_below [of "ds @ [n]" dir] p(1) by (cases "ds @ [n]") auto
qed

lemma tree_modules_disjoint:
  assumes "well_listed (DirEntry n (Inr below) # es)"
  shows "tree_modules (join_path dir n) below \<inter> tree_modules dir es = {}"
proof -
  have False if "p \<in> tree_modules (join_path dir n) below" "p \<in> tree_modules dir es" for p
    using tree_modules_components [OF that(1)] tree_modules_components [OF that(2)] assms
    by (auto simp: path_components_join)
  then show ?thesis by auto
qed

lemma file_not_below:
  assumes "well_listed (FileEntry n # es)"
  shows "join_path dir n \<notin> tree_modules dir es"
  using tree_modules_components [of "join_path dir n" dir es] assms by (auto simp: path_components_join)

text \<open>A search that succeeds finds every module of the tree once, and could read all of it.\<close>

lemma collect_entries_exact:
  "\<lbrakk>collect_entries dir es files = Inr found; well_listed es\<rbrakk> \<Longrightarrow>
     \<exists>new. found = files @ new \<and> distinct new \<and> set new = tree_modules dir es \<and>
       (\<forall>ds e. lies_in es ds e \<longrightarrow> readable e)"
proof (induction dir es files arbitrary: found rule: collect_entries.induct)
  case (1 dir files)
  then show ?case by (simp add: tree_modules_Nil lies_in_Nil)
next
  case (4 dir name es files)
  then obtain new where "found = (if is_guest_module (join_path dir name) then files @ [join_path dir name] else files) @ new"
      "distinct new" "set new = tree_modules dir es" "\<forall>ds e. lies_in es ds e \<longrightarrow> readable e"
    by auto
  with 4(3) show ?case
    by (intro exI [of _ "(if is_module_name name then [join_path dir name] else []) @ new"])
      (auto simp: is_module_path tree_modules_file file_not_below lies_in_step readable_def)
next
  case (6 dir name below es files)
  then obtain mid where mid: "collect_entries (join_path dir name) below files = Inr mid"
      "collect_entries dir es mid = Inr found"
    by (auto simp: result_bind_Inr)
  obtain a b where "mid = files @ a" "distinct a" "set a = tree_modules (join_path dir name) below"
      "\<forall>ds e. lies_in below ds e \<longrightarrow> readable e" "found = mid @ b" "distinct b" "set b = tree_modules dir es"
      "\<forall>ds e. lies_in es ds e \<longrightarrow> readable e"
    using 6(1) [OF mid(1)] 6(2) [OF mid(2)] 6(4) by auto
  then show ?case using tree_modules_disjoint [OF 6(4)]
    by (intro exI [of _ "a @ b"]) (auto simp: tree_modules_dir lies_in_step readable_def)
qed auto

text \<open>
  C21. A corpus that loads is exactly the modules of the directory tree: the files, at any depth,
  whose name is a stem and the ending \<open>.wat\<close> or \<open>.wasm\<close>. There is at least one, and the whole
  tree could be read. The cases are one per module, in path order; each case is built from its
  module and the manifest's entry for its relative path, when no two modules have the same key
  (a backslash in a name is read as a slash); every entry of the manifest is used; and every
  module has at most 16 MiB, a text being valid UTF-8. A directory lists each name once, a name
  being one component of a path.
\<close>

theorem load_corpus_sound:
  assumes "load_corpus first_key fs dir = Inr cases"
    and "co_listing fs = Inr es" and "well_listed es"
  shows "\<exists>files metadata. load_manifest fs dir = Inr metadata \<and>
    files \<noteq> [] \<and> distinct files \<and> set files = tree_modules dir es \<and> sorted (map path_components files) \<and>
    (\<forall>ds e. lies_in es ds e \<longrightarrow> readable e) \<and>
    map gc_source_path cases = map (\<lambda>p. slashes (path_display p)) files \<and>
    fst ` set metadata \<subseteq> relative_key dir ` set files \<and>
    list_all (\<lambda>c. source_bounded (gc_source c)) cases \<and>
    (distinct (map (relative_key dir) files) \<longrightarrow>
       list_all2 (\<lambda>p c. load_case (co_open fs) p (relative_key dir p) (map_of metadata (relative_key dir p)) = Inr c)
         files cases)"
proof -
  obtain metadata found where m: "load_manifest fs dir = Inr metadata"
      "collect_entries dir es [] = Inr found" "sort_key path_components found \<noteq> []"
      "load_cases fs dir (sort_key path_components found) metadata [] = Inr (cases, [])"
    using assms(1,2) by (auto simp: load_corpus_def collect_guest_files_def result_bind_Inr Let_def split: if_splits)
  have "distinct found" "set found = tree_modules dir es" "\<forall>ds e. lies_in es ds e \<longrightarrow> readable e"
    using collect_entries_exact [OF m(2) assms(3)] by auto
  then show ?thesis using load_cases_sound [OF m(4)] m(1,3)
    by (intro exI [of _ "sort_key path_components found"] exI [of _ metadata]) auto
qed

definition demo_entries :: "entry list" where
  "demo_entries =
     [DirEntry ''sub'' (Inr [FileEntry ''b.wat'', FileEntry ''notes.txt'', FileEntry ''.wasm'']), FileEntry ''a.wasm'']"

definition demo_fs :: corpus_fs where
  "demo_fs = \<lparr>co_is_dir = True, co_manifest = Some (Inr (''[[case]]'' @ [lf_char] @ ''file = sub/b.wat'' @ [lf_char] @
       ''expected = ERR_BOUNDS'' @ [lf_char])),
     co_listing = Inr demo_entries,
     co_open = (\<lambda>p. Inr \<lparr>mf_len = Inr 3, mf_bytes = Inr [0, 97, 115]\<rparr>)\<rparr>"

lemma load_corpus_sound_witness:
  "\<exists>cases files. load_corpus hd demo_fs ''corpus'' = Inr cases \<and>
     map (\<lambda>c. (gc_name c, gc_expected_code c)) cases = [(''a'', OK), (''b'', ERR_BOUNDS)] \<and>
     set files = tree_modules ''corpus'' demo_entries \<and> length files = 2 \<and>
     list_all (\<lambda>c. source_bounded (gc_source c)) cases"
proof -
  have r: "map_sum id (map (\<lambda>c. (gc_name c, gc_expected_code c))) (load_corpus hd demo_fs ''corpus'') =
      Inr [(''a'', OK), (''b'', ERR_BOUNDS)]"
    by code_simp
  then obtain cases where l: "load_corpus hd demo_fs ''corpus'' = Inr cases"
    by (cases "load_corpus hd demo_fs ''corpus''") simp_all
  have "co_listing demo_fs = Inr demo_entries" by (simp add: demo_fs_def)
  moreover have "well_listed demo_entries" by code_simp
  ultimately obtain files where f: "set files = tree_modules ''corpus'' demo_entries"
      "map gc_source_path cases = map (\<lambda>p. slashes (path_display p)) files"
      "list_all (\<lambda>c. source_bounded (gc_source c)) cases"
    using load_corpus_sound [OF l] by blast
  have c: "map (\<lambda>c. (gc_name c, gc_expected_code c)) cases = [(''a'', OK), (''b'', ERR_BOUNDS)]" using r l by simp
  have "length cases = 2" using arg_cong [OF c, of length] by simp
  then have "length files = 2" using arg_cong [OF f(2), of length] by simp
  then show ?thesis using l c f(1,3) by (intro exI [of _ cases] exI [of _ files] conjI) assumption+
qed

end
