(* ===== verification/Json.thy ===== *)
theory Json
  imports Rust_Str
begin

text \<open>
  JSON as the harness writes it: the escaping \<open>json_escape\<close> that \<open>src/report.rs\<close> and
  \<open>src/session.rs\<close> share word for word, and, as the specification of the documents, the grammar
  of RFC 8259 as a relation between values and texts.
\<close>


section \<open>Escaping\<close>

definition json_escape_char :: "string \<Rightarrow> string" where
  "json_escape_char ch =
     (if ch = [quote_char] then [backslash_char, quote_char]
      else if ch = [backslash_char] then [backslash_char, backslash_char]
      else if ch = [lf_char] then [backslash_char, CHR ''n'']
      else if ch = [cr_char] then [backslash_char, CHR ''r'']
      else if ch = [tab_char] then [backslash_char, CHR ''t'']
      else if is_control ch then [backslash_char, CHR ''u''] @ hex_pad 4 (codepoint ch)
      else ch)"

definition json_escape :: "string \<Rightarrow> string" where
  "json_escape v = concat (map json_escape_char (utf8_chars v))"

section \<open>The string syntax of JSON\<close>

text \<open>
  The contents of a string literal, by the grammar of RFC 8259: quotes and raw control characters
  must be escaped. Escaped surrogates, which need a pair, are not decoded.
\<close>

definition hex_value :: "char \<Rightarrow> nat option" where
  "hex_value c = (let n = of_char c in
     if 48 \<le> n \<and> n < 58 then Some (n - 48)
     else if 97 \<le> n \<and> n < 103 then Some (n - 87)
     else if 65 \<le> n \<and> n < 71 then Some (n - 55) else None)"

fun hex4 :: "string list \<Rightarrow> nat option" where
  "hex4 [[a], [b], [c], [d]] =
     (case (hex_value a, hex_value b, hex_value c, hex_value d) of
        (Some i, Some j, Some k, Some l) \<Rightarrow> Some (((i * 16 + j) * 16 + k) * 16 + l)
      | _ \<Rightarrow> None)"
| "hex4 _ = None"

definition utf8_encode :: "nat \<Rightarrow> string option" where
  "utf8_encode n =
     (if n < 0x80 then Some [char_of n]
      else if n < 0x800 then Some [char_of (0xC0 + n div 64), char_of (0x80 + n mod 64)]
      else if 0xD800 \<le> n \<and> n < 0xE000 then None
      else if n < 0x10000 then
        Some [char_of (0xE0 + n div 4096), char_of (0x80 + n div 64 mod 64), char_of (0x80 + n mod 64)]
      else None)"

definition simple_escape :: "string \<Rightarrow> string option" where
  "simple_escape e = map_of
     [([quote_char], [quote_char]), ([backslash_char], [backslash_char]), (''/'', ''/''),
      (''b'', [CHR 0x08]), (''f'', [CHR 0x0C]), (''n'', [lf_char]), (''r'', [cr_char]),
      (''t'', [tab_char])] e"

fun json_decode :: "string list \<Rightarrow> string option" where
  "json_decode [] = Some []"
| "json_decode (ch # chs) =
     (if ch = [quote_char] \<or> codepoint ch < 32 then None
      else if ch \<noteq> [backslash_char] then map_option (append ch) (json_decode chs)
      else (case chs of
          [] \<Rightarrow> None
        | e # rest \<Rightarrow>
            (if e = ''u'' then
               (case Option.bind (hex4 (take 4 rest)) utf8_encode of
                  Some c \<Rightarrow> map_option (append c) (json_decode (drop 4 rest))
                | None \<Rightarrow> None)
             else (case simple_escape e of
                  Some c \<Rightarrow> map_option (append c) (json_decode rest)
                | None \<Rightarrow> None))))"

lemma hex4_control:
  "n < 160 \<Longrightarrow> hex4 (map (\<lambda>c. [c]) (hex_pad 4 n)) = Some n \<and> length (hex_pad 4 n) = 4 \<and> is_ascii (hex_pad 4 n)"
proof -
  have "list_all (\<lambda>n. hex4 (map (\<lambda>c. [c]) (hex_pad 4 n)) = Some n \<and> length (hex_pad 4 n) = 4 \<and>
      is_ascii (hex_pad 4 n)) [0..<160]"
    by code_simp
  then show "n < 160 \<Longrightarrow> ?thesis" by (simp add: list_all_iff)
qed

lemma byte_le [simp]:
  "(k :: u8) \<le> word_of_nat (of_char c) \<longleftrightarrow> unat k \<le> of_char c"
  "word_of_nat (of_char c) \<le> (k :: u8) \<longleftrightarrow> of_char c \<le> unat k"
  "word_of_nat (of_char c) = (k :: u8) \<longleftrightarrow> of_char c = unat k"
proof -
  have "unat (word_of_nat (of_char c) :: u8) = of_char c"
    by (simp add: unsigned_of_nat take_bit_nat_eq_self)
  then show "(k :: u8) \<le> word_of_nat (of_char c) \<longleftrightarrow> unat k \<le> of_char c"
    "word_of_nat (of_char c) \<le> (k :: u8) \<longleftrightarrow> of_char c \<le> unat k"
    "word_of_nat (of_char c) = (k :: u8) \<longleftrightarrow> of_char c = unat k"
    by (simp_all add: word_le_nat_alt word_unat_eq_iff)
qed

lemma mod_offset: "\<lbrakk>m * q \<le> k; k < m * q + m\<rbrakk> \<Longrightarrow> (k :: nat) mod m = k - m * q"
proof -
  assume a: "m * q \<le> k" "k < m * q + m"
  then have "k mod m = (k - m * q + m * q) mod m" by simp
  also have "\<dots> = (k - m * q) mod m" by (simp only: mod_mult_self2)
  also have "\<dots> = k - m * q" using a by simp
  finally show ?thesis .
qed

lemma byte_bits:
  "\<lbrakk>192 \<le> k; k \<le> 223\<rbrakk> \<Longrightarrow> (k :: nat) mod 32 = k - 192"
  "\<lbrakk>128 \<le> k; k \<le> 191\<rbrakk> \<Longrightarrow> (k :: nat) mod 64 = k - 128"
  "\<lbrakk>224 \<le> k; k \<le> 239\<rbrakk> \<Longrightarrow> (k :: nat) mod 16 = k - 224"
  "\<lbrakk>240 \<le> k; k \<le> 247\<rbrakk> \<Longrightarrow> (k :: nat) mod 8 = k - 240"
  using mod_offset [of 32 6 k] mod_offset [of 64 2 k] mod_offset [of 16 14 k] mod_offset [of 8 30 k]
  by simp_all

lemma control_encoded:
  assumes "wf_char ch" and "is_str ch" and "is_control ch"
  shows "utf8_encode (codepoint ch) = Some ch"
proof -
  have n: "codepoint ch < 160" using assms(3) by (auto simp: is_control_def Let_def)
  have len: "length ch = 1 \<or> length ch = 2 \<or> length ch = 3 \<or> length ch = 4"
    using assms(1) by (auto simp: wf_char_def utf8_len_def Let_def split: if_splits)
  then consider a where "ch = [a]" | a b where "ch = [a, b]" | a b c where "ch = [a, b, c]"
    | a b c d where "ch = [a, b, c, d]" by (auto simp: length_Suc_conv numeral_eq_Suc)
  then show ?thesis
  proof cases
    case (1 a)
    then show ?thesis using assms(1) by (simp add: utf8_encode_def)
  next
    case (2 a b)
    have high: "128 \<le> (of_char a :: nat)" using assms(1) by (simp add: 2 wf_char_def)
    have "valid_utf8 [word_of_nat (of_char a), word_of_nat (of_char b)]"
      using assms(2) by (simp add: 2 is_str_def bytes_of_string_def del: valid_utf8.simps)
    then have v: "194 \<le> (of_char a :: nat) \<and> (of_char a :: nat) \<le> 223 \<and> 128 \<le> (of_char b :: nat) \<and> (of_char b :: nat) \<le> 191"
      using high by (simp add: utf8_cont_def split: if_split_asm)
    have "of_char a mod 32 * 64 + of_char b mod 64 < (160 :: nat)" using n by (simp add: 2)
    with v have "(of_char a - 192) * 64 + (of_char b - 128) < (160 :: nat)" by (simp add: byte_bits)
    then have "of_char a - 192 < (3 :: nat)" by linarith
    with v have nat: "of_char a = (194 :: nat)" "128 + (of_char b :: nat) mod 64 = of_char b"
      by (linarith, simp add: byte_bits)
    from nat(1) have a: "char_of (194 :: nat) = a" by (metis char_of_char)
    from nat(2) have b: "char_of (128 + (of_char b :: nat) mod 64) = b" by (metis char_of_char)
    define m where "m = (of_char b :: nat) mod 64"
    have m: "m < 64" by (simp add: m_def)
    then have "(128 + m) div 64 = 2" "(128 + m) mod 64 = m"
      using mod_offset [of 64 2 "128 + m"] by simp_all
    then show ?thesis using nat(1) a b m by (simp add: 2 utf8_encode_def m_def [symmetric])
  next
    case (3 a b c)
    have high: "224 \<le> (of_char a :: nat)"
      using assms(1) by (auto simp: 3 wf_char_def utf8_len_def Let_def split: if_splits)
    have "valid_utf8 [word_of_nat (of_char a), word_of_nat (of_char b), word_of_nat (of_char c)]"
      using assms(2) by (simp add: 3 is_str_def bytes_of_string_def del: valid_utf8.simps)
    then have "224 \<le> (of_char a :: nat) \<and> (of_char a :: nat) \<le> 239 \<and> 128 \<le> (of_char b :: nat) \<and> (of_char b :: nat) \<le> 191 \<and>
        ((of_char a :: nat) = 224 \<longrightarrow> 160 \<le> (of_char b :: nat))"
      using high by (simp add: utf8_cont_def split: if_split_asm)
    then have "160 \<le> of_char a mod 16 * 4096 + (of_char b mod 64) * 64 + (of_char c :: nat) mod 64"
      by (cases "(of_char a :: nat) = 224"; simp add: byte_bits; arith)
    then show ?thesis using n by (simp add: 3)
  next
    case (4 a b c d)
    have high: "240 \<le> (of_char a :: nat)"
      using assms(1) by (auto simp: 4 wf_char_def utf8_len_def Let_def split: if_splits)
    have "valid_utf8 [word_of_nat (of_char a), word_of_nat (of_char b), word_of_nat (of_char c), word_of_nat (of_char d)]"
      using assms(2) by (simp add: 4 is_str_def bytes_of_string_def del: valid_utf8.simps)
    then have "240 \<le> (of_char a :: nat) \<and> (of_char a :: nat) \<le> 244 \<and> 128 \<le> (of_char b :: nat) \<and> (of_char b :: nat) \<le> 191 \<and>
        ((of_char a :: nat) = 240 \<longrightarrow> 144 \<le> (of_char b :: nat))"
      using high by (simp add: utf8_cont_def split: if_split_asm)
    then have "160 \<le> of_char a mod 8 * 262144 + (of_char b mod 64) * 4096 + (of_char c mod 64) * 64 + (of_char d :: nat) mod 64"
      by (cases "(of_char a :: nat) = 240"; simp add: byte_bits; arith)
    then show ?thesis using n by (simp add: 4)
  qed
qed


lemma json_decode_Cons:
  "\<lbrakk>ch \<noteq> [quote_char]; ch \<noteq> [backslash_char]; \<not> codepoint ch < 32\<rbrakk> \<Longrightarrow>
     json_decode (ch # chs) = map_option (append ch) (json_decode chs)"
  "simple_escape e = Some c \<Longrightarrow> e \<noteq> ''u'' \<Longrightarrow>
     json_decode ([backslash_char] # e # chs) = map_option (append c) (json_decode chs)"
  "\<lbrakk>hex4 hs = Some n; length hs = 4; utf8_encode n = Some c\<rbrakk> \<Longrightarrow>
     json_decode ([backslash_char] # ''u'' # hs @ chs) = map_option (append c) (json_decode chs)"
  by simp_all

lemma simple_escapes:
  "simple_escape [quote_char] = Some [quote_char]" "simple_escape [backslash_char] = Some [backslash_char]"
  "simple_escape ''n'' = Some [lf_char]" "simple_escape ''r'' = Some [cr_char]"
  "simple_escape ''t'' = Some [tab_char]"
  by (simp_all add: simple_escape_def)

lemma decode_escaped_char:
  assumes "wf_char ch" and "is_str ch"
  shows "json_decode (utf8_chars (json_escape_char ch) @ chs) = map_option (append ch) (json_decode chs) \<and>
    list_all wf_char (utf8_chars (json_escape_char ch))"
proof -
  consider "ch \<in> {[quote_char], [backslash_char], [lf_char], [cr_char], [tab_char]}"
    | "ch \<notin> {[quote_char], [backslash_char], [lf_char], [cr_char], [tab_char]}" "is_control ch"
    | "ch \<notin> {[quote_char], [backslash_char], [lf_char], [cr_char], [tab_char]}" "\<not> is_control ch"
    by blast
  then show ?thesis
  proof cases
    case 1
    then show ?thesis
      by (elim insertE emptyE)
        (simp_all add: json_escape_char_def utf8_chars_ascii json_decode_Cons(2) simple_escapes del: json_decode.simps utf8_chars.simps)
  next
    case 2
    then have n: "codepoint ch < 160" by (auto simp: is_control_def Let_def)
    have e: "json_escape_char ch = [backslash_char, CHR ''u''] @ hex_pad 4 (codepoint ch)"
      using 2 by (simp add: json_escape_char_def)
    have a: "is_ascii (json_escape_char ch)" using hex4_control [OF n] by (simp add: e)
    then have w: "list_all wf_char (utf8_chars (json_escape_char ch))"
      by (simp add: utf8_chars_ascii is_ascii_def list_all_iff)
    show ?thesis using w hex4_control [OF n] control_encoded [OF assms 2(2)]
      unfolding utf8_chars_ascii [OF a] unfolding e by (simp add: json_decode_Cons(3) del: json_decode.simps)
  next
    case 3
    have "json_escape_char ch = ch" using 3 by (simp add: json_escape_char_def)
    moreover have "utf8_chars ch = [ch]" using utf8_chars_concat [of "[ch]"] assms(1) by simp
    moreover have "\<not> codepoint ch < 32" using 3(2) by (auto simp: is_control_def Let_def)
    ultimately show ?thesis using 3 assms(1) by (simp add: json_decode_Cons(1) del: json_decode.simps)
  qed
qed

text \<open>Escaping makes string contents that decode to what was escaped.\<close>

lemma json_decode_escape: "is_str s \<Longrightarrow> json_decode (utf8_chars (json_escape s)) = Some s"
proof -
  have "list_all wf_char chs \<Longrightarrow> list_all is_str chs \<Longrightarrow>
      utf8_chars (concat (map json_escape_char chs)) = concat (map (\<lambda>ch. utf8_chars (json_escape_char ch)) chs) \<and>
      json_decode (concat (map (\<lambda>ch. utf8_chars (json_escape_char ch)) chs)) = Some (concat chs)" for chs
  proof (induction chs)
    case (Cons ch chs)
    let ?e = "utf8_chars (json_escape_char ch)"
    have w: "list_all wf_char ?e" using decode_escaped_char Cons.prems by auto
    have "utf8_chars (concat ?e @ concat (map json_escape_char chs)) = ?e @ utf8_chars (concat (map json_escape_char chs))"
      by (rule utf8_chars_append_chars [OF w])
    then show ?case using Cons decode_escaped_char [of ch] by simp
  qed simp
  then show "is_str s \<Longrightarrow> ?thesis"
    using is_str_chars [of s] is_str_each_char [of s] by (simp add: json_escape_def)
qed

section \<open>Documents\<close>

datatype json =
    JNull
  | JBool bool
  | JNum nat
  | JStr string
  | JArr "json list"
  | JObj "(string \<times> json) list"

definition json_ws :: "string \<Rightarrow> bool" where
  "json_ws = list_all (\<lambda>c. c = CHR '' '' \<or> c = lf_char \<or> c = cr_char \<or> c = tab_char)"

definition json_string :: "string \<Rightarrow> string \<Rightarrow> bool" where
  "json_string s t \<longleftrightarrow>
     (\<exists>body. t = [quote_char] @ body @ [quote_char] \<and> json_decode (utf8_chars body) = Some s)"

text \<open>
  \<open>json_text v t\<close>: the text \<open>t\<close> is a document, or a part of one, that denotes the value \<open>v\<close>. White
  space is free around a value and around a member's name.
\<close>

inductive json_text :: "json \<Rightarrow> string \<Rightarrow> bool"
  and json_elems :: "json list \<Rightarrow> string \<Rightarrow> bool"
  and json_members :: "(string \<times> json) list \<Rightarrow> string \<Rightarrow> bool"
where
  padded: "\<lbrakk>json_text v t; json_ws a; json_ws b\<rbrakk> \<Longrightarrow> json_text v (a @ t @ b)"
| null: "json_text JNull ''null''"
| bool: "json_text (JBool b) (show_bool b)"
| num: "json_text (JNum n) (show_nat n)"
| str: "json_string s t \<Longrightarrow> json_text (JStr s) t"
| empty_array: "json_ws w \<Longrightarrow> json_text (JArr []) (''['' @ w @ '']'')"
| array: "\<lbrakk>json_elems vs t; json_ws w\<rbrakk> \<Longrightarrow> json_text (JArr vs) (''['' @ t @ w @ '']'')"
| empty_object: "json_ws w \<Longrightarrow> json_text (JObj []) (''{'' @ w @ ''}'')"
| object: "\<lbrakk>json_members ms t; json_ws w\<rbrakk> \<Longrightarrow> json_text (JObj ms) (''{'' @ t @ w @ ''}'')"
| elem: "json_text v t \<Longrightarrow> json_elems [v] t"
| elems: "\<lbrakk>json_text v t; json_elems vs u\<rbrakk> \<Longrightarrow> json_elems (v # vs) (t @ '','' @ u)"
| member: "\<lbrakk>json_string k n; json_ws a; json_ws b; json_text v t\<rbrakk> \<Longrightarrow>
    json_members [(k, v)] (a @ n @ b @ '':'' @ t)"
| members: "\<lbrakk>json_string k n; json_ws a; json_ws b; json_text v t; json_members ms u\<rbrakk> \<Longrightarrow>
    json_members ((k, v) # ms) (a @ n @ b @ '':'' @ t @ '','' @ u)"

lemma json_ws_simps [simp]:
  "json_ws []" "json_ws (c # cs) \<longleftrightarrow> (c = CHR '' '' \<or> c = lf_char \<or> c = cr_char \<or> c = tab_char) \<and> json_ws cs"
  "json_ws (xs @ ys) \<longleftrightarrow> json_ws xs \<and> json_ws ys"
  by (simp_all add: json_ws_def)

lemma json_elems_pad: "json_elems vs t \<Longrightarrow> json_ws w \<Longrightarrow> json_elems vs (w @ t)"
proof (induction rule: json_elems.cases)
  case (elem v t)
  then show ?case using json_text_json_elems_json_members.padded [of v t w "[]"]
    by (auto intro: json_text_json_elems_json_members.elem)
next
  case (elems v t vs u)
  then show ?case using json_text_json_elems_json_members.padded [of v t w "[]"]
      json_text_json_elems_json_members.elems [of v "w @ t" vs u] by simp
qed

lemma json_members_pad: "json_members ms t \<Longrightarrow> json_ws w \<Longrightarrow> json_members ms (w @ t)"
proof (induction rule: json_members.cases)
  case (member k n a b v t)
  then show ?case using json_text_json_elems_json_members.member [of k n "w @ a" b v t] by simp
next
  case (members k n a b v t ms u)
  then show ?case using json_text_json_elems_json_members.members [of k n "w @ a" b v t ms u] by simp
qed

section \<open>Building documents\<close>

text \<open>The pieces of the code's format strings: a quoted text, and a member's name with its colon.\<close>

definition jq :: "string \<Rightarrow> string" where
  "jq s = [quote_char] @ s @ [quote_char]"

definition jkey :: "string \<Rightarrow> string" where
  "jkey k = jq k @ '': ''"

definition json_plain :: "string \<Rightarrow> bool" where
  "json_plain s \<longleftrightarrow> is_str s \<and> json_escape s = s"

lemma json_plain_ascii:
  "list_all (\<lambda>c. 32 \<le> (of_char c :: nat) \<and> (of_char c :: nat) < 127 \<and> c \<noteq> quote_char \<and> c \<noteq> backslash_char) s \<Longrightarrow>
     json_plain s"
proof -
  assume a: "list_all (\<lambda>c. 32 \<le> (of_char c :: nat) \<and> (of_char c :: nat) < 127 \<and> c \<noteq> quote_char \<and> c \<noteq> backslash_char) s"
  then have r: "32 \<le> (of_char c :: nat) \<and> (of_char c :: nat) < 127 \<and> c \<noteq> quote_char \<and> c \<noteq> backslash_char" if "c \<in> set s" for c
    using that unfolding list_all_iff by blast
  have asc: "is_ascii s" unfolding is_ascii_def list_all_iff using r by fastforce
  have "json_escape_char [c] = [c]" if "c \<in> set s" for c
  proof -
    have "\<not> is_control [c]" using r [OF that] unfolding is_control_def Let_def codepoint.simps by linarith
    moreover have "c \<noteq> lf_char" "c \<noteq> cr_char" "c \<noteq> tab_char" using r [OF that] by auto
    ultimately show ?thesis using r [OF that] by (simp add: json_escape_char_def)
  qed
  then have "map json_escape_char (map (\<lambda>c. [c]) s) = map (\<lambda>c. [c]) s" by simp
  then have "json_escape s = s" by (simp only: json_escape_def utf8_chars_ascii [OF asc] concat_singletons)
  then show ?thesis using is_str_ascii [OF asc] by (simp add: json_plain_def)
qed

lemma json_string_escape: "is_str s \<Longrightarrow> json_string s (jq (json_escape s))"
  by (auto simp: json_string_def jq_def json_decode_escape)

lemma json_string_plain: "json_plain s \<Longrightarrow> json_string s (jq s)"
  using json_string_escape [of s] by (simp add: json_plain_def)

lemma json_text_escape: "is_str s \<Longrightarrow> json_text (JStr s) (jq (json_escape s))"
  by (intro json_text_json_elems_json_members.str json_string_escape)

lemma json_text_plain: "json_plain s \<Longrightarrow> json_text (JStr s) (jq s)"
  by (intro json_text_json_elems_json_members.str json_string_plain)

lemma json_text_pad: "json_text v t \<Longrightarrow> json_ws a \<Longrightarrow> json_text v (a @ t)" "json_text v t \<Longrightarrow> json_ws a \<Longrightarrow> json_text v (t @ a)"
  using json_text_json_elems_json_members.padded [of v t a "[]"]
    json_text_json_elems_json_members.padded [of v t "[]" a] by simp_all

lemma member_last: "\<lbrakk>json_plain k; json_text v t\<rbrakk> \<Longrightarrow> json_members [(k, v)] (jkey k @ t)"
  using json_text_json_elems_json_members.member [of k "jq k" "[]" "[]" v "CHR '' '' # t"]
    json_string_plain [of k] json_text_pad(1) [of v t "'' ''"]
  by (simp add: jkey_def)

lemma member_more:
  "\<lbrakk>json_plain k; json_text v t; json_ws w; json_members ms u\<rbrakk> \<Longrightarrow>
     json_members ((k, v) # ms) (jkey k @ t @ CHR '','' # w @ u)"
  using json_text_json_elems_json_members.members [of k "jq k" "[]" "[]" v "CHR '' '' # t" ms "w @ u"]
    json_string_plain [of k] json_text_pad(1) [of v t "'' ''"] json_members_pad [of ms u w]
  by (simp add: jkey_def)

lemma json_elems_join:
  "\<lbrakk>list_all2 json_text vs ts; vs \<noteq> []; json_ws w\<rbrakk> \<Longrightarrow> json_elems vs (join (CHR '','' # w) ts)"
proof (induction vs ts rule: list_all2_induct)
  case (Cons v vs t ts)
  show ?case
  proof (cases "vs = []")
    case True
    then show ?thesis using Cons.hyps
      by (auto intro: json_text_json_elems_json_members.elem)
  next
    case False
    then obtain t' ts' where "ts = t' # ts'" using Cons.hyps(2) by (cases ts) auto
    then show ?thesis using Cons False json_elems_pad
        json_text_json_elems_json_members.elems [of v t vs "w @ join (CHR '','' # w) ts"] by simp
  qed
qed simp

lemma json_array_join:
  assumes "list_all2 json_text vs ts" and "json_ws w" "json_ws a" "json_ws b"
  shows "json_text (JArr vs) (CHR ''['' # a @ join (CHR '','' # w) ts @ b @ '']'')"
proof (cases "vs = []")
  case True
  then have "ts = []" using assms(1) by simp
  then show ?thesis using True assms json_text_json_elems_json_members.empty_array [of "a @ b"] by simp
next
  case False
  from json_elems_pad [OF json_elems_join [OF assms(1) False assms(2)] assms(3)] show ?thesis
    using json_text_json_elems_json_members.array [of vs "a @ join (CHR '','' # w) ts" b] assms(4) by simp
qed

lemma json_object:
  "\<lbrakk>json_members ms t; json_ws w; json_ws a\<rbrakk> \<Longrightarrow> json_text (JObj ms) (CHR ''{'' # a @ t @ w @ ''}'')"
  using json_text_json_elems_json_members.object [of ms "a @ t" w] json_members_pad [of ms t a] by simp

text \<open>
  Objects. The code writes an object on one line with a comma and a blank between members, or one
  member a line; a member is given here by its name and the text of its value.
\<close>

definition jmember :: "string \<times> string \<Rightarrow> string" where
  "jmember m = jkey (fst m) @ snd m"

definition jobj :: "(string \<times> string) list \<Rightarrow> string" where
  "jobj ms = ''{'' @ join '', '' (map jmember ms) @ ''}''"

definition jlines :: "string \<Rightarrow> string \<Rightarrow> (string \<times> string) list \<Rightarrow> string" where
  "jlines indent close ms =
     ''{'' @ [lf_char] @ join ('','' @ [lf_char]) (map (\<lambda>m. indent @ jmember m) ms) @ [lf_char] @ close @ ''}''"

definition jarr :: "string list \<Rightarrow> string" where
  "jarr ts = ''['' @ join '', '' ts @ '']''"

definition jarr_lines :: "string \<Rightarrow> string list \<Rightarrow> string" where
  "jarr_lines close ts =
     ''['' @ [lf_char] @ join ('','' @ [lf_char]) ts @ [lf_char] @ close @ '']''"

definition jstr :: "string \<Rightarrow> string" where
  "jstr s = jq (json_escape s)"

definition jopt :: "string option \<Rightarrow> string" where
  "jopt v = (case v of Some s \<Rightarrow> jstr s | None \<Rightarrow> ''null'')"

definition member_text :: "string \<times> json \<Rightarrow> string \<times> string \<Rightarrow> bool" where
  "member_text m t \<longleftrightarrow> fst m = fst t \<and> json_plain (fst t) \<and> json_text (snd m) (snd t)"

lemma member_text_simp [simp]:
  "member_text (k, v) (k', t) \<longleftrightarrow> k = k' \<and> json_plain k \<and> json_text v t"
  by (auto simp: member_text_def)

lemma json_members_join:
  "\<lbrakk>list_all2 member_text ms ts; ms \<noteq> []; json_ws w; json_ws ind\<rbrakk> \<Longrightarrow>
     json_members ms (join (CHR '','' # w) (map (\<lambda>m. ind @ jmember m) ts))"
proof (induction ms ts rule: list_all2_induct)
  case (Cons m ms t ts)
  obtain k v u where m: "m = (k, v)" "t = (k, u)" "json_plain k" "json_text v u"
    using Cons.hyps(1) by (cases m; cases t) auto
  show ?case
  proof (cases "ms = []")
    case True
    then show ?thesis using Cons.hyps(2) Cons.prems m json_members_pad [OF member_last]
      by (simp add: jmember_def)
  next
    case False
    then obtain t' ts' where ts: "ts = t' # ts'" using Cons.hyps(2) by (cases ts) auto
    have "json_members ms (join (CHR '','' # w) (map (\<lambda>m. ind @ jmember m) ts))"
      using Cons False by blast
    from json_members_pad [OF member_more [OF m(3,4) Cons.prems(2) this] Cons.prems(3)] show ?thesis
      using ts m by (simp add: jmember_def)
  qed
qed simp

lemma json_jobj: "list_all2 member_text ms ts \<Longrightarrow> json_text (JObj ms) (jobj ts)"
proof (cases "ms = []")
  case True
  assume "list_all2 member_text ms ts"
  then show ?thesis using True json_text_json_elems_json_members.empty_object [of "[]"] by (simp add: jobj_def)
next
  case False
  assume a: "list_all2 member_text ms ts"
  from json_object [OF json_members_join [OF a False, of "'' ''" "[]"], of "[]" "[]"] show ?thesis
    by (simp add: jobj_def)
qed

lemma json_jlines:
  assumes "list_all2 member_text ms ts" and "ms \<noteq> []" and "json_ws indent" and "json_ws close"
  shows "json_text (JObj ms) (jlines indent close ts)"
  using json_object [OF json_members_join [OF assms(1,2), of "[lf_char]" indent], of "lf_char # close" "[lf_char]"] assms(3,4)
  by (simp add: jlines_def)

lemma json_jarr: "list_all2 json_text vs ts \<Longrightarrow> json_text (JArr vs) (jarr ts)"
  using json_array_join [of vs ts "'' ''" "[]" "[]"] by (simp add: jarr_def)

lemma json_jarr_lines:
  "list_all2 json_text vs ts \<Longrightarrow> json_ws close \<Longrightarrow> json_text (JArr vs) (jarr_lines close ts)"
  using json_array_join [of vs ts "[lf_char]" "[lf_char]" "lf_char # close"] by (simp add: jarr_lines_def)

lemma json_jstr: "is_str s \<Longrightarrow> json_text (JStr s) (jstr s)"
  by (simp add: jstr_def json_text_escape)

lemma json_jopt:
  "pred_option is_str v \<Longrightarrow> json_text (case v of Some s \<Rightarrow> JStr s | None \<Rightarrow> JNull) (jopt v)"
  by (auto simp: jopt_def json_jstr json_text_json_elems_json_members.null split: option.split)

lemmas json_build = json_jobj json_jarr json_jstr json_jopt json_text_plain
  json_text_json_elems_json_members.num json_text_json_elems_json_members.bool
  json_text_json_elems_json_members.null

lemma json_escape_append: "is_str s \<Longrightarrow> json_escape (s @ t) = json_escape s @ json_escape t"
  by (simp add: json_escape_def utf8_chars_append)

end
