(* ===== verification/Report.thy ===== *)
theory Report
  imports Runner Json
begin

text \<open>
  The reports of \<open>src/report.rs\<close> (with \<open>src/ansi.rs\<close>): the JSON, SARIF, Markdown and text
  documents, and the lines the terminal reports print. The versions of the installed tools are an
  argument, and so is Rust's debug rendering of a string.
\<close>

section \<open>Formatting\<close>

text \<open>
  \<open>{:<n}\<close> and \<open>{:>n}\<close>: blanks behind or before, up to a number of characters. \<open>{:02}\<close>: zeros before.
  \<open>{:+}\<close>: always a sign.
\<close>

definition pad_right :: "nat \<Rightarrow> string \<Rightarrow> string" where
  "pad_right n s = s @ replicate (n - length (utf8_chars s)) (CHR '' '')"

definition pad_left :: "nat \<Rightarrow> string \<Rightarrow> string" where
  "pad_left n s = replicate (n - length (utf8_chars s)) (CHR '' '') @ s"

definition pad_zero :: "nat \<Rightarrow> string \<Rightarrow> string" where
  "pad_zero n s = replicate (n - length s) (CHR ''0'') @ s"

definition show_signed :: "int \<Rightarrow> string" where
  "show_signed i = (if i < 0 then show_int i else CHR ''+'' # show_int i)"

definition esc_seq :: "string \<Rightarrow> string" where "esc_seq s = CHR 0x1B # s"

definition RESET :: string where "RESET = esc_seq ''[0m''"
definition BOLD :: string where "BOLD = esc_seq ''[1m''"
definition GREEN :: string where "GREEN = esc_seq ''[38;5;82m''"
definition RED :: string where "RED = esc_seq ''[38;5;203m''"
definition YELLOW :: string where "YELLOW = esc_seq ''[38;5;220m''"
definition CYAN :: string where "CYAN = esc_seq ''[38;5;51m''"
definition MAGENTA :: string where "MAGENTA = esc_seq ''[38;5;171m''"
definition GRAY :: string where "GRAY = esc_seq ''[38;5;244m''"
definition WHITE :: string where "WHITE = esc_seq ''[38;5;255m''"

definition ansi_paint :: "string \<Rightarrow> string \<Rightarrow> string" where
  "ansi_paint color text = color @ text @ RESET"

definition paint :: "bool \<Rightarrow> string \<Rightarrow> string \<Rightarrow> string" where
  "paint color color_code text = (if color then ansi_paint color_code text else text)"

definition ansi_bold :: "string \<Rightarrow> string" where
  "ansi_bold text = BOLD @ text @ RESET"

definition ansi_badge :: "string \<Rightarrow> string \<Rightarrow> string" where
  "ansi_badge color text = BOLD @ color @ ''[ '' @ text @ '' ]'' @ RESET"

text \<open>\<open>command_version\<close>: whether the process succeeded and its standard output, if it ran at all.\<close>

definition command_version :: "(string \<Rightarrow> string list \<Rightarrow> (bool \<times> u8 list) option) \<Rightarrow> string \<Rightarrow> string list \<Rightarrow> string option" where
  "command_version run_command program args =
     (case run_command program args of
        None \<Rightarrow> None
      | Some (success, stdout) \<Rightarrow>
          (if \<not> success then None
           else (let out = trim (from_utf8_lossy stdout) in if out = [] then None else Some out)))"

definition actual_name :: "case_report \<Rightarrow> string" where
  "actual_name r = (case cr_actual_code r of Some code \<Rightarrow> code_name code | None \<Rightarrow> ''HOST_ERROR'')"

definition passed_count :: "case_report list \<Rightarrow> nat" where
  "passed_count rs = length (filter passed rs)"

definition failed_count :: "case_report list \<Rightarrow> nat" where
  "failed_count rs = length rs - passed_count rs"

definition gates_plain :: "gate list \<Rightarrow> string" where
  "gates_plain gs =
     join '', '' (map (\<lambda>g. gate_name g @ '':'' @ (if gate_passed g then ''ok'' else ''fail'')) gs)"

definition gates_painted :: "gate list \<Rightarrow> bool \<Rightarrow> string" where
  "gates_painted gs color =
     join '', '' (map (\<lambda>g. gate_name g @ '':'' @
       (if gate_passed g then paint color GREEN ''ok'' else paint color RED ''fail'')) gs)"

definition last_logged :: "case_report \<Rightarrow> import_event option" where
  "last_logged r = (let es = events (cr_telemetry r) in if es = [] then None else Some (last es))"

section \<open>JSON\<close>

definition json_event :: "import_event \<Rightarrow> string" where
  "json_event e = jobj
     [(''import'', jstr (ev_import e)), (''decision'', jq (decision e)),
      (''result'', jq (code_name (ev_result_code e))), (''detail'', jstr (ev_detail e)),
      (''gates'', jstr (gates_plain (ev_gates e)))]"

definition json_timing :: "case_report \<Rightarrow> string" where
  "json_timing r = jobj
     [(''compile'', show_nat (cr_compile_us r)), (''instantiate'', show_nat (cr_instantiate_us r)),
      (''run'', show_nat (cr_run_us r))]"

definition render_json_case :: "case_report \<Rightarrow> string" where
  "render_json_case r = ''    '' @ jlines ''      '' ''    ''
     [(''name'', jstr (cr_name r)), (''category'', jstr (cr_category r)),
      (''severity'', jstr (cr_severity r)), (''stage'', jstr (cr_stage r)), (''ttp'', jstr (cr_ttp r)),
      (''description'', jstr (cr_description r)), (''control'', jstr (cr_control r)),
      (''detection'', jstr (cr_detection r)), (''expected'', jq (code_name (cr_expected_code r))),
      (''actual'', jq (actual_name r)), (''passed'', show_bool (passed r)),
      (''timing_us'', json_timing r),
      (''events'', jarr (map json_event (events (cr_telemetry r))))]"

text \<open>The fields of the policy every report lists.\<close>

definition policy_members :: "policy \<Rightarrow> (string \<times> string) list" where
  "policy_members p =
     [(''max_packet_len'', show_u32 (max_packet_len p)),
      (''max_cap_string_len'', show_u32 (max_cap_string_len p)),
      (''max_alloc'', show_u32 (max_alloc p)), (''fuel'', show_u32 (initial_fuel p)),
      (''max_memory_pages'', show_u32 (max_memory_pages p)),
      (''require_tick_import'', show_bool (require_tick_import p)),
      (''supervisor_timeout_ms'', show_nat (unat (supervisor_timeout_ms p)))]"

definition TOOL_NAME :: string where "TOOL_NAME = ''wasmer-hostile-guest-security-harness''"

definition render_json_report :: "case_report list \<Rightarrow> policy \<Rightarrow> string" where
  "render_json_report rs p = jlines ''  '' []
     [(''tool'', jq TOOL_NAME), (''runtime_crate'', jq ''wasmer=6.1.0''),
      (''policy'', jobj (policy_members p)),
      (''summary'', jobj [(''total'', show_nat (length rs)), (''passed'', show_nat (passed_count rs)),
         (''failed'', show_nat (failed_count rs))]),
      (''cases'', jarr_lines ''  '' (map render_json_case rs))] @ [lf_char]"

section \<open>SARIF\<close>

definition sarif_rule_id :: "case_report \<Rightarrow> string" where
  "sarif_rule_id r = ''wasmer-harness/'' @ cr_name r"

definition sarif_level :: "case_report \<Rightarrow> string" where
  "sarif_level r =
     (if cr_severity r = ''critical'' \<or> cr_severity r = ''high'' then ''error''
      else if cr_severity r = ''medium'' then ''warning'' else ''note'')"

definition render_sarif_rule :: "case_report \<Rightarrow> string" where
  "render_sarif_rule r = ''            '' @ jobj
     [(''id'', jq (sarif_rule_id r)), (''name'', jstr (cr_name r)),
      (''shortDescription'', jobj [(''text'', jstr (cr_description r))]),
      (''fullDescription'', jobj [(''text'', jstr (cr_control r))]),
      (''properties'', jobj
         [(''category'', jstr (cr_category r)), (''severity'', jstr (cr_severity r)),
          (''stage'', jstr (cr_stage r)), (''ttp'', jstr (cr_ttp r)),
          (''expected'', jq (code_name (cr_expected_code r))), (''control'', jstr (cr_control r)),
          (''detection'', jstr (cr_detection r))])]"

definition sarif_detail :: "case_report \<Rightarrow> string" where
  "sarif_detail r =
     (case cr_host_error r of
        Some err \<Rightarrow> err
      | None \<Rightarrow> (case last_logged r of Some e \<Rightarrow> ev_detail e | None \<Rightarrow> ''no boundary telemetry captured''))"

definition render_sarif_result :: "case_report \<Rightarrow> string" where
  "render_sarif_result r = ''        '' @ jobj
     [(''ruleId'', jq (sarif_rule_id r)), (''level'', jq (sarif_level r)),
      (''message'', jobj [(''text'', jq (json_escape (cr_name r) @ '' expected '' @
         code_name (cr_expected_code r) @ '' but got '' @ actual_name r @ ''; '' @
         json_escape (sarif_detail r)))]),
      (''locations'', ''['' @ jobj [(''physicalLocation'', jobj
         [(''artifactLocation'', jobj [(''uri'', jstr (cr_source_path r))]),
          (''region'', jobj [(''startLine'', ''1'')])])] @ '']''),
      (''properties'', jobj
         [(''category'', jstr (cr_category r)), (''severity'', jstr (cr_severity r)),
          (''stage'', jstr (cr_stage r)), (''ttp'', jstr (cr_ttp r)),
          (''expected'', jq (code_name (cr_expected_code r))), (''actual'', jq (actual_name r)),
          (''control'', jstr (cr_control r)), (''detection'', jstr (cr_detection r))])]"

definition sarif_results :: "case_report list \<Rightarrow> string" where
  "sarif_results rs =
     (let failures = filter (\<lambda>r. \<not> passed r) rs in
      ''['' @ (if failures \<noteq> [] then [lf_char] else []) @
      join ('','' @ [lf_char]) (map render_sarif_result failures) @
      (if failures \<noteq> [] then [lf_char] @ ''      '' else []) @ '']'')"

definition render_sarif_report :: "case_report list \<Rightarrow> policy \<Rightarrow> string" where
  "render_sarif_report rs p = jlines ''  '' []
     [(''$schema'', jq ''https://json.schemastore.org/sarif-2.1.0.json''), (''version'', jq ''2.1.0''),
      (''runs'', ''['' @ [lf_char] @ ''    '' @ jlines ''      '' ''    ''
         [(''tool'', jlines ''        '' ''      ''
            [(''driver'', jlines ''          '' ''        ''
               [(''name'', jq TOOL_NAME), (''informationUri'', jq ''https://github.com/wasmerio/wasmer''),
                (''semanticVersion'', jq ''0.1.0''),
                (''rules'', jarr_lines ''          '' (map render_sarif_rule rs))])]),
          (''invocations'', ''['' @ jobj
             [(''executionSuccessful'', show_bool (failed_count rs = 0)),
              (''properties'', jobj
                 [(''totalCases'', show_nat (length rs)), (''passedCases'', show_nat (passed_count rs)),
                  (''failedCases'', show_nat (failed_count rs)),
                  (''maxPacketLen'', show_u32 (max_packet_len p)),
                  (''maxCapStringLen'', show_u32 (max_cap_string_len p)),
                  (''maxAlloc'', show_u32 (max_alloc p)), (''fuel'', show_u32 (initial_fuel p)),
                  (''maxMemoryPages'', show_u32 (max_memory_pages p)),
                  (''requireTickImport'', show_bool (require_tick_import p)),
                  (''supervisorTimeoutMs'', show_nat (unat (supervisor_timeout_ms p)))])] @ '']''),
          (''results'', sarif_results rs)] @ [lf_char] @ ''  ]'')] @ [lf_char]"

section \<open>The documents are JSON\<close>

text \<open>The invariant of Rust's strings, for every string of a report.\<close>

definition event_strs :: "import_event \<Rightarrow> bool" where
  "event_strs e \<longleftrightarrow> is_str (ev_import e) \<and> is_str (ev_detail e) \<and>
     list_all (\<lambda>g. is_str (gate_name g)) (ev_gates e)"

definition report_strs :: "case_report \<Rightarrow> bool" where
  "report_strs r \<longleftrightarrow>
     list_all is_str [cr_name r, cr_description r, cr_category r, cr_severity r, cr_control r,
       cr_stage r, cr_ttp r, cr_detection r, cr_source_path r] \<and>
     pred_option is_str (cr_host_error r) \<and> list_all event_strs (events (cr_telemetry r))"

text \<open>The values the JSON report stands for.\<close>

definition event_value :: "import_event \<Rightarrow> json" where
  "event_value e = JObj
     [(''import'', JStr (ev_import e)), (''decision'', JStr (decision e)),
      (''result'', JStr (code_name (ev_result_code e))), (''detail'', JStr (ev_detail e)),
      (''gates'', JStr (gates_plain (ev_gates e)))]"

definition timing_value :: "case_report \<Rightarrow> json" where
  "timing_value r = JObj
     [(''compile'', JNum (cr_compile_us r)), (''instantiate'', JNum (cr_instantiate_us r)),
      (''run'', JNum (cr_run_us r))]"

definition case_value :: "case_report \<Rightarrow> json" where
  "case_value r = JObj
     [(''name'', JStr (cr_name r)), (''category'', JStr (cr_category r)),
      (''severity'', JStr (cr_severity r)), (''stage'', JStr (cr_stage r)), (''ttp'', JStr (cr_ttp r)),
      (''description'', JStr (cr_description r)), (''control'', JStr (cr_control r)),
      (''detection'', JStr (cr_detection r)), (''expected'', JStr (code_name (cr_expected_code r))),
      (''actual'', JStr (actual_name r)), (''passed'', JBool (passed r)),
      (''timing_us'', timing_value r), (''events'', JArr (map event_value (events (cr_telemetry r))))]"

definition policy_value :: "policy \<Rightarrow> json" where
  "policy_value p = JObj
     [(''max_packet_len'', JNum (unat (max_packet_len p))),
      (''max_cap_string_len'', JNum (unat (max_cap_string_len p))),
      (''max_alloc'', JNum (unat (max_alloc p))), (''fuel'', JNum (unat (initial_fuel p))),
      (''max_memory_pages'', JNum (unat (max_memory_pages p))),
      (''require_tick_import'', JBool (require_tick_import p)),
      (''supervisor_timeout_ms'', JNum (unat (supervisor_timeout_ms p)))]"

definition report_value :: "case_report list \<Rightarrow> policy \<Rightarrow> json" where
  "report_value rs p = JObj
     [(''tool'', JStr TOOL_NAME), (''runtime_crate'', JStr ''wasmer=6.1.0''), (''policy'', policy_value p),
      (''summary'', JObj [(''total'', JNum (length rs)), (''passed'', JNum (passed_count rs)),
         (''failed'', JNum (length (filter (\<lambda>r. \<not> passed r) rs)))]),
      (''cases'', JArr (map case_value rs))]"

lemma failed_count_filter: "failed_count rs = length (filter (\<lambda>r. \<not> passed r) rs)"
  using sum_length_filter_compl [of passed rs] by (simp add: failed_count_def passed_count_def)

lemma json_plain_code_name [simp]: "json_plain (code_name c)"
  by (rule json_plain_ascii) (simp add: code_name_def)

lemma json_plain_actual [simp]: "json_plain (actual_name r)"
  by (cases "cr_actual_code r") (simp_all add: actual_name_def, rule json_plain_ascii, simp)

lemma json_plain_decision [simp]: "json_plain (decision e)"
  by (rule json_plain_ascii) (simp add: decision_def)

lemma is_str_gates_plain:
  "list_all (\<lambda>g. is_str (gate_name g)) gs \<Longrightarrow> is_str (gates_plain gs)"
  unfolding gates_plain_def
  by (rule is_str_join) (auto simp: is_str_ascii list_all_iff intro!: is_str_append)

lemma json_plain_names [simp]:
  "json_plain ''import''" "json_plain ''decision''" "json_plain ''result''" "json_plain ''detail''"
  "json_plain ''gates''" "json_plain ''compile''" "json_plain ''instantiate''" "json_plain ''run''"
  "json_plain ''name''" "json_plain ''category''" "json_plain ''severity''" "json_plain ''stage''"
  "json_plain ''ttp''" "json_plain ''description''" "json_plain ''control''" "json_plain ''detection''"
  "json_plain ''expected''" "json_plain ''actual''" "json_plain ''passed''" "json_plain ''timing_us''"
  "json_plain ''events''" "json_plain ''max_packet_len''" "json_plain ''max_cap_string_len''"
  "json_plain ''max_alloc''" "json_plain ''fuel''" "json_plain ''max_memory_pages''"
  "json_plain ''require_tick_import''" "json_plain ''supervisor_timeout_ms''" "json_plain ''tool''"
  "json_plain ''runtime_crate''" "json_plain ''wasmer=6.1.0''" "json_plain ''policy''"
  "json_plain ''summary''" "json_plain ''total''" "json_plain ''failed''" "json_plain ''cases''"
  "json_plain TOOL_NAME"
  by (rule json_plain_ascii; code_simp)+

lemma json_event_text: "event_strs e \<Longrightarrow> json_text (event_value e) (json_event e)"
  unfolding event_value_def json_event_def
  by (intro json_jobj) (simp add: event_strs_def json_build is_str_gates_plain)

lemma json_timing_text: "json_text (timing_value r) (json_timing r)"
  unfolding timing_value_def json_timing_def by (intro json_jobj) (simp add: json_build)

lemma json_policy_text: "json_text (policy_value p) (jobj (policy_members p))"
  unfolding policy_value_def policy_members_def by (intro json_jobj) (simp add: json_build)

lemma list_all2_map: "list_all2 P (map f xs) (map g xs) \<longleftrightarrow> list_all (\<lambda>x. P (f x) (g x)) xs"
  by (induction xs) simp_all

lemma json_case_text:
  assumes "report_strs r"
  shows "json_text (case_value r) (render_json_case r)"
proof -
  have "json_text (JArr (map event_value (events (cr_telemetry r)))) (jarr (map json_event (events (cr_telemetry r))))"
    using assms by (intro json_jarr) (auto simp: list_all2_map list_all_iff report_strs_def json_event_text)
  then have "json_text (case_value r) (jlines ''      '' ''    ''
     [(''name'', jstr (cr_name r)), (''category'', jstr (cr_category r)),
      (''severity'', jstr (cr_severity r)), (''stage'', jstr (cr_stage r)), (''ttp'', jstr (cr_ttp r)),
      (''description'', jstr (cr_description r)), (''control'', jstr (cr_control r)),
      (''detection'', jstr (cr_detection r)), (''expected'', jq (code_name (cr_expected_code r))),
      (''actual'', jq (actual_name r)), (''passed'', show_bool (passed r)),
      (''timing_us'', json_timing r),
      (''events'', jarr (map json_event (events (cr_telemetry r))))])"
    using assms unfolding case_value_def
    by (intro json_jlines) (simp_all add: report_strs_def json_build json_timing_text)
  then show ?thesis unfolding render_json_case_def by (rule json_text_pad(1)) simp
qed

text \<open>
  C35. The JSON report is well formed and says what happened. For any reports, whatever their
  strings hold, the document is JSON by RFC 8259 and denotes the counts of the run, the policy,
  and of every case its strings, codes, verdict, times and events.
\<close>

theorem json_report_denotes:
  assumes "list_all report_strs rs"
  shows "json_text (report_value rs p) (render_json_report rs p)"
proof -
  have c: "json_text (JArr (map case_value rs)) (jarr_lines ''  '' (map render_json_case rs))"
    using assms by (intro json_jarr_lines) (auto simp: list_all2_map list_all_iff json_case_text)
  show ?thesis unfolding render_json_report_def report_value_def failed_count_filter [symmetric]
    by (intro json_text_pad(2) json_jlines) (simp_all add: json_build json_policy_text c)
qed

lemma json_report_denotes_witness:
  "json_text (report_value [error_report (demo_case RunExport) Cranelift [quote_char, lf_char, CHR 0x01]] policy_default)
     (render_json_report [error_report (demo_case RunExport) Cranelift [quote_char, lf_char, CHR 0x01]] policy_default)"
  by (rule json_report_denotes)
    (simp add: report_strs_def error_report_def demo_case_def case_of_def threat_intel_of_def
      default_threat_intel_def intel_def guest_path_def Let_def is_str_ascii telemetry_default_def)

section \<open>The SARIF report\<close>

definition sarif_properties :: "case_report \<Rightarrow> (string \<times> json) list" where
  "sarif_properties r =
     [(''category'', JStr (cr_category r)), (''severity'', JStr (cr_severity r)),
      (''stage'', JStr (cr_stage r)), (''ttp'', JStr (cr_ttp r)),
      (''expected'', JStr (code_name (cr_expected_code r)))]"

definition rule_value :: "case_report \<Rightarrow> json" where
  "rule_value r = JObj
     [(''id'', JStr (sarif_rule_id r)), (''name'', JStr (cr_name r)),
      (''shortDescription'', JObj [(''text'', JStr (cr_description r))]),
      (''fullDescription'', JObj [(''text'', JStr (cr_control r))]),
      (''properties'', JObj (sarif_properties r @
         [(''control'', JStr (cr_control r)), (''detection'', JStr (cr_detection r))]))]"

definition result_value :: "case_report \<Rightarrow> json" where
  "result_value r = JObj
     [(''ruleId'', JStr (sarif_rule_id r)), (''level'', JStr (sarif_level r)),
      (''message'', JObj [(''text'', JStr (cr_name r @ '' expected '' @
         code_name (cr_expected_code r) @ '' but got '' @ actual_name r @ ''; '' @ sarif_detail r))]),
      (''locations'', JArr [JObj [(''physicalLocation'', JObj
         [(''artifactLocation'', JObj [(''uri'', JStr (cr_source_path r))]),
          (''region'', JObj [(''startLine'', JNum 1)])])]]),
      (''properties'', JObj (sarif_properties r @
         [(''actual'', JStr (actual_name r)), (''control'', JStr (cr_control r)),
          (''detection'', JStr (cr_detection r))]))]"

definition sarif_value :: "case_report list \<Rightarrow> policy \<Rightarrow> json" where
  "sarif_value rs p = JObj
     [(''$schema'', JStr ''https://json.schemastore.org/sarif-2.1.0.json''), (''version'', JStr ''2.1.0''),
      (''runs'', JArr [JObj
         [(''tool'', JObj [(''driver'', JObj
               [(''name'', JStr TOOL_NAME), (''informationUri'', JStr ''https://github.com/wasmerio/wasmer''),
                (''semanticVersion'', JStr ''0.1.0''), (''rules'', JArr (map rule_value rs))])]),
          (''invocations'', JArr [JObj
             [(''executionSuccessful'', JBool (list_all passed rs)),
              (''properties'', JObj
                 [(''totalCases'', JNum (length rs)), (''passedCases'', JNum (passed_count rs)),
                  (''failedCases'', JNum (failed_count rs)),
                  (''maxPacketLen'', JNum (unat (max_packet_len p))),
                  (''maxCapStringLen'', JNum (unat (max_cap_string_len p))),
                  (''maxAlloc'', JNum (unat (max_alloc p))), (''fuel'', JNum (unat (initial_fuel p))),
                  (''maxMemoryPages'', JNum (unat (max_memory_pages p))),
                  (''requireTickImport'', JBool (require_tick_import p)),
                  (''supervisorTimeoutMs'', JNum (unat (supervisor_timeout_ms p)))])]]),
          (''results'', JArr (map result_value (filter (\<lambda>r. \<not> passed r) rs)))]])]"

lemma sarif_names [simp]:
  "json_plain ''id''" "json_plain ''shortDescription''" "json_plain ''fullDescription''" "json_plain ''text''"
  "json_plain ''properties''" "json_plain ''ruleId''" "json_plain ''level''" "json_plain ''message''"
  "json_plain ''locations''" "json_plain ''physicalLocation''" "json_plain ''artifactLocation''"
  "json_plain ''uri''" "json_plain ''region''" "json_plain ''startLine''" "json_plain ''$schema''"
  "json_plain ''version''" "json_plain ''runs''" "json_plain ''driver''" "json_plain ''informationUri''"
  "json_plain ''semanticVersion''" "json_plain ''rules''" "json_plain ''invocations''"
  "json_plain ''executionSuccessful''" "json_plain ''totalCases''" "json_plain ''passedCases''"
  "json_plain ''failedCases''" "json_plain ''maxPacketLen''" "json_plain ''maxCapStringLen''"
  "json_plain ''maxAlloc''" "json_plain ''maxMemoryPages''" "json_plain ''requireTickImport''"
  "json_plain ''supervisorTimeoutMs''" "json_plain ''results''" "json_plain ''2.1.0''" "json_plain ''0.1.0''"
  "json_plain ''https://json.schemastore.org/sarif-2.1.0.json''"
  "json_plain ''https://github.com/wasmerio/wasmer''"
  by (rule json_plain_ascii; code_simp)+

lemma json_plain_level [simp]: "json_plain (sarif_level r)"
  by (rule json_plain_ascii) (simp add: sarif_level_def)

lemma json_plain_append: "\<lbrakk>json_plain s; json_plain t\<rbrakk> \<Longrightarrow> json_plain (s @ t)"
  by (simp add: json_plain_def json_escape_append is_str_append)

lemma json_plain_rule_id: "json_plain (cr_name r) \<Longrightarrow> json_plain (sarif_rule_id r)"
  unfolding sarif_rule_id_def by (rule json_plain_append) (rule json_plain_ascii, code_simp)

lemma json_rule_text:
  assumes "report_strs r" and "json_plain (cr_name r)"
  shows "json_text (rule_value r) (render_sarif_rule r)"
  unfolding render_sarif_rule_def rule_value_def sarif_properties_def using assms json_plain_rule_id [OF assms(2)]
  by (intro json_text_pad(1) json_jobj) (simp_all add: report_strs_def json_build)

lemma is_str_sarif_detail: "report_strs r \<Longrightarrow> is_str (sarif_detail r)"
  by (auto simp: sarif_detail_def last_logged_def report_strs_def event_strs_def list_all_iff Let_def
      is_str_ascii split: option.split)

lemma json_message_text:
  assumes "report_strs r"
  shows "json_text (JStr (cr_name r @ '' expected '' @ code_name (cr_expected_code r) @ '' but got '' @
      actual_name r @ ''; '' @ sarif_detail r))
    (jq (json_escape (cr_name r) @ '' expected '' @ code_name (cr_expected_code r) @ '' but got '' @
      actual_name r @ ''; '' @ json_escape (sarif_detail r)))"
proof -
  have p: "json_plain '' expected ''" "json_plain '' but got ''" "json_plain ''; ''"
    by (rule json_plain_ascii; code_simp)+
  note plain = p [unfolded json_plain_def] json_plain_code_name [unfolded json_plain_def]
    json_plain_actual [unfolded json_plain_def]
  have n: "is_str (cr_name r)" using assms by (simp add: report_strs_def)
  have "json_escape (cr_name r @ '' expected '' @ code_name (cr_expected_code r) @ '' but got '' @
      actual_name r @ ''; '' @ sarif_detail r) = json_escape (cr_name r) @ '' expected '' @
      code_name (cr_expected_code r) @ '' but got '' @ actual_name r @ ''; '' @ json_escape (sarif_detail r)"
    by (simp only: json_escape_append n plain)
  moreover have "is_str (cr_name r @ '' expected '' @ code_name (cr_expected_code r) @ '' but got '' @
      actual_name r @ ''; '' @ sarif_detail r)"
    by (intro is_str_append n is_str_sarif_detail [OF assms]) (simp_all only: plain)
  ultimately show ?thesis using json_text_escape by metis
qed


lemma json_singleton: "json_text v t \<Longrightarrow> json_text (JArr [v]) (''['' @ t @ '']'')"
  using json_jarr [of "[v]" "[t]"] by (simp add: jarr_def)

lemma json_singleton_padded:
  "json_text v t \<Longrightarrow> json_text (JArr [v]) (''['' @ [lf_char] @ ''    '' @ t @ [lf_char] @ ''  ]'')"
  using json_array_join [of "[v]" "[t]" "[]" "lf_char # ''    ''" "lf_char # ''  ''"] by simp

lemma json_result_text:
  assumes "report_strs r" and "json_plain (cr_name r)"
  shows "json_text (result_value r) (render_sarif_result r)"
proof -
  note b = json_build json_plain_rule_id [OF assms(2)] json_message_text [OF assms(1)]
  have "show_nat (Suc 0) = ''1''" by code_simp
  then have one: "json_text (JNum (Suc 0)) ''1''"
    using json_text_json_elems_json_members.num [of "Suc 0"] by simp
  have loc: "json_text (JArr [JObj [(''physicalLocation'', JObj
         [(''artifactLocation'', JObj [(''uri'', JStr (cr_source_path r))]),
          (''region'', JObj [(''startLine'', JNum 1)])])]])
      (''['' @ jobj [(''physicalLocation'', jobj
         [(''artifactLocation'', jobj [(''uri'', jstr (cr_source_path r))]),
          (''region'', jobj [(''startLine'', ''1'')])])] @ '']'')"
    using assms(1) by (intro json_singleton json_jobj) (simp add: b one report_strs_def)
  have msg: "json_text (JObj [(''text'', JStr (cr_name r @ '' expected '' @
         code_name (cr_expected_code r) @ '' but got '' @ actual_name r @ ''; '' @ sarif_detail r))])
      (jobj [(''text'', jq (json_escape (cr_name r) @ '' expected '' @
         code_name (cr_expected_code r) @ '' but got '' @ actual_name r @ ''; '' @
         json_escape (sarif_detail r)))])"
    using json_message_text [OF assms(1)] by (intro json_jobj) (simp del: append.simps)
  show ?thesis unfolding render_sarif_result_def result_value_def sarif_properties_def using assms(1)
    by (intro json_text_pad(1) json_jobj) (simp_all add: report_strs_def b loc [simplified] msg [simplified])
qed

lemma sarif_results_text:
  "list_all (\<lambda>r. report_strs r \<and> json_plain (cr_name r)) rs \<Longrightarrow>
     json_text (JArr (map result_value (filter (\<lambda>r. \<not> passed r) rs))) (sarif_results rs)"
proof -
  assume a: "list_all (\<lambda>r. report_strs r \<and> json_plain (cr_name r)) rs"
  have "list_all2 json_text (map result_value (filter (\<lambda>r. \<not> passed r) rs))
      (map render_sarif_result (filter (\<lambda>r. \<not> passed r) rs))"
    using a by (auto simp: list_all2_map list_all_iff json_result_text)
  from json_array_join [OF this, of "[lf_char]" "if filter (\<lambda>r. \<not> passed r) rs \<noteq> [] then [lf_char] else []"
      "if filter (\<lambda>r. \<not> passed r) rs \<noteq> [] then [lf_char] @ ''      '' else []"]
  show ?thesis by (simp add: sarif_results_def Let_def)
qed

lemma failed_none: "failed_count rs = 0 \<longleftrightarrow> list_all passed rs"
  by (simp add: failed_count_filter filter_empty_conv list_all_iff)

text \<open>
  C36. The SARIF report is well formed and lists exactly the failures. If the case names need no
  escaping, whatever the other strings hold, the document is JSON by RFC 8259 and denotes one rule
  per case, one result per case that did not pass, and an invocation that is successful exactly if
  every case passed. A name with a quote makes it no JSON (\<open>sarif_rule_id_unescaped\<close> below).
\<close>

theorem sarif_report_denotes:
  assumes "list_all report_strs rs" and "list_all (\<lambda>r. json_plain (cr_name r)) rs"
  shows "json_text (sarif_value rs p) (render_sarif_report rs p)"
proof -
  have a: "list_all (\<lambda>r. report_strs r \<and> json_plain (cr_name r)) rs"
    using assms by (simp add: list_all_iff)
  have rules: "json_text (JArr (map rule_value rs)) (jarr_lines ''          '' (map render_sarif_rule rs))"
    using a by (intro json_jarr_lines) (auto simp: list_all2_map list_all_iff json_rule_text)
  note b = json_build rules sarif_results_text [OF a] json_singleton [simplified] json_jlines
  show ?thesis unfolding render_sarif_report_def sarif_value_def failed_none [symmetric]
    by (intro json_text_pad(2) json_jlines) (simp_all add: b json_singleton_padded [simplified])
qed

lemma sarif_report_denotes_witness:
  "json_text (sarif_value [error_report (demo_case RunExport) Cranelift [quote_char, lf_char, CHR 0x01]] policy_default)
     (render_sarif_report [error_report (demo_case RunExport) Cranelift [quote_char, lf_char, CHR 0x01]] policy_default)"
proof (rule sarif_report_denotes)
  let ?r = "error_report (demo_case RunExport) Cranelift [quote_char, lf_char, CHR 0x01]"
  show "list_all report_strs [?r]"
    by (simp add: report_strs_def error_report_def demo_case_def case_of_def threat_intel_of_def
      default_threat_intel_def intel_def guest_path_def Let_def is_str_ascii telemetry_default_def)
  have "cr_name ?r = ''demo''"
    by (simp add: error_report_def demo_case_def case_of_def Let_def)
  then show "list_all (\<lambda>r. json_plain (cr_name r)) [?r]"
    by (auto intro!: json_plain_ascii)
qed

text \<open>
  The hypothesis on the names is needed: the rule identifier is written without escaping, so the
  name of a case with a quote in it makes the identifier of its rule no JSON string.
\<close>

lemma sarif_rule_id_unescaped:
  assumes "cr_name r = [CHR ''a'', quote_char, CHR ''b'']"
  shows "\<not> (\<exists>v. json_string v (jq (sarif_rule_id r)))"
proof -
  have "json_decode (utf8_chars (''wasmer-harness/'' @ [CHR ''a'', quote_char, CHR ''b''])) = None"
    by code_simp
  then show ?thesis using assms by (simp add: sarif_rule_id_def json_string_def jq_def)
qed

end
