(* ===== verification/Text_Report.thy ===== *)
theory Text_Report
  imports Report
begin

text \<open>
  The Markdown and text documents of \<open>src/report.rs\<close> and what its printing functions write to
  standard output, with the colours of \<open>src/ansi.rs\<close>. A printing function is the text it prints.
  How the installed tools are run and how Rust shows a list of strings for debugging are the
  arguments of type \<open>terminal\<close>.
\<close>

record terminal =
  run_command :: "string \<Rightarrow> string list \<Rightarrow> (bool \<times> u8 list) option"
  debug_strings :: "string list \<Rightarrow> string"

definition line :: "string \<Rightarrow> string" where
  "line s = s @ [lf_char]"

section \<open>Documents\<close>

definition tick_quoted :: "string \<Rightarrow> string" where
  "tick_quoted s = [CHR 0x60] @ s @ [CHR 0x60]"

definition policy_text :: "policy \<Rightarrow> string" where
  "policy_text p = ''max_packet='' @ show_u32 (max_packet_len p) @
     '' max_cap_string='' @ show_u32 (max_cap_string_len p) @ '' max_alloc='' @ show_u32 (max_alloc p) @
     '' fuel='' @ show_u32 (initial_fuel p) @ '' max_memory_pages='' @ show_u32 (max_memory_pages p) @
     '' require_tick_import='' @ show_bool (require_tick_import p) @
     '' supervisor_timeout_ms='' @ show_nat (unat (supervisor_timeout_ms p))"

definition verdict_name :: "case_report \<Rightarrow> string" where
  "verdict_name r = (if passed r then ''PASS'' else ''FAIL'')"

definition markdown_row :: "case_report \<Rightarrow> string" where
  "markdown_row r = line (''| '' @ tick_quoted (cr_name r) @ '' | '' @ cr_stage r @ '' | '' @
     tick_quoted (cr_ttp r) @ '' | '' @ cr_category r @ '' | '' @ cr_severity r @ '' | '' @
     tick_quoted (code_name (cr_expected_code r)) @ '' | '' @ tick_quoted (actual_name r) @ '' | '' @
     verdict_name r @ '' |'')"

definition markdown_evidence :: "case_report \<Rightarrow> string" where
  "markdown_evidence r =
     line (''### '' @ tick_quoted (cr_name r)) @ line [] @
     line (''- Attack: '' @ cr_description r) @ line (''- Stage: '' @ cr_stage r) @
     line (''- TTP: '' @ tick_quoted (cr_ttp r)) @ line (''- Detection: '' @ cr_detection r) @
     line (''- Control: '' @ cr_control r) @
     line (''- Runtime: compile='' @ show_nat (cr_compile_us r) @ ''us instantiate='' @
       show_nat (cr_instantiate_us r) @ ''us run='' @ show_nat (cr_run_us r) @ ''us'') @
     (case last_logged r of
        Some e \<Rightarrow>
          line (''- Boundary: '' @ tick_quoted (ev_import e) @ '' => '' @ tick_quoted (decision e) @ '' '' @
            tick_quoted (code_name (ev_result_code e))) @
          line (''- Gates: '' @ tick_quoted (gates_plain (ev_gates e))) @
          line (''- Evidence: '' @ ev_detail e)
      | None \<Rightarrow> []) @ line []"

definition render_markdown_report :: "case_report list \<Rightarrow> policy \<Rightarrow> string" where
  "render_markdown_report rs p =
     line ''# Wasmer Hostile-Guest Security Harness'' @ line [] @ line ''## Summary'' @ line [] @
     line (''- Runtime crate: '' @ tick_quoted ''wasmer=6.1.0'') @
     line (''- Cases: '' @ tick_quoted (show_nat (length rs))) @
     line (''- Passed: '' @ tick_quoted (show_nat (passed_count rs))) @
     line (''- Failed: '' @ tick_quoted (show_nat (failed_count rs))) @
     line (''- Policy: '' @ policy_text p) @ line [] @
     line ''## Cases'' @ line [] @
     line ''| Case | Stage | TTP | Category | Severity | Expected | Actual | Result |'' @
     line ''|---|---|---|---|---:|---|---|---|'' @
     concat (map markdown_row rs) @ line [] @ line ''## Evidence'' @ line [] @
     concat (map markdown_evidence rs)"

text \<open>The line of a case, in the text document and on the terminal.\<close>

definition case_line :: "string \<Rightarrow> case_report \<Rightarrow> string" where
  "case_line status r = line (''['' @ status @ ''] '' @ pad_right 22 (cr_name r) @ '' '' @
     pad_right 10 (cr_category r) @ '' '' @ pad_right 8 (cr_severity r) @ '' expected '' @
     pad_right 16 (code_name (cr_expected_code r)) @ '' got '' @ pad_right 16 (actual_name r) @ '' '' @
     cr_description r)"

definition intel_lines :: "case_report \<Rightarrow> string" where
  "intel_lines r = line (''  emulation: stage='' @ cr_stage r @ '' ttp='' @ cr_ttp r) @
     line (''  control: '' @ cr_control r) @ line (''  detection: '' @ cr_detection r)"

definition summary_line :: "case_report list \<Rightarrow> string" where
  "summary_line rs = ''summary: '' @ show_nat (passed_count rs) @ ''/'' @ show_nat (length rs) @
     '' passed, '' @ show_nat (failed_count rs) @ '' failed''"

definition text_case :: "case_report \<Rightarrow> string" where
  "text_case r = case_line (verdict_name r) r @ intel_lines r @
     (case last_logged r of
        Some e \<Rightarrow> line (''  boundary: '' @ ev_import e @ '' => '' @ decision e @ '' '' @
          code_name (ev_result_code e) @ '' gates='' @ gates_plain (ev_gates e) @ '' evidence='' @ ev_detail e)
      | None \<Rightarrow> [])"

definition render_text_report :: "case_report list \<Rightarrow> policy \<Rightarrow> string" where
  "render_text_report rs p =
     line ''Wasmer hostile-guest security harness'' @
     line (''runtime crate wasmer=6.1.0 | cases='' @ show_nat (length rs) @ '' | policy '' @ policy_text p) @
     line [] @ concat (map text_case rs) @ line [] @ line (summary_line rs)"

section \<open>The terminal\<close>

definition print_case_list :: "guest_case list \<Rightarrow> string" where
  "print_case_list cs = concat (map (\<lambda>c. line (pad_right 22 (gc_name c) @ '' '' @
     pad_right 10 (gc_category c) @ '' '' @ pad_right 8 (gc_severity c) @ '' '' @
     pad_right 24 (gc_ttp c) @ '' expected '' @ pad_right 16 (code_name (gc_expected_code c)) @ '' '' @
     gc_description c)) cs)"

definition badge :: "bool \<Rightarrow> case_report \<Rightarrow> string" where
  "badge color r = (if passed r then paint color GREEN ''PASS'' else paint color RED ''FAIL'')"

definition print_header :: "terminal \<Rightarrow> case_report list \<Rightarrow> policy \<Rightarrow> bool \<Rightarrow> string" where
  "print_header t rs p color =
     (let backend = (case rs of r # _ \<Rightarrow> backend_name (cr_backend r) | [] \<Rightarrow> ''cranelift'') in
      line (paint color BOLD ''Wasmer hostile-guest security harness'') @
      line (''runtime crate wasmer=6.1.0 | '' @
        unwrap_or (command_version (run_command t) ''wasmer'' [''--version'']) ''wasmer cli unavailable'' @
        '' | backend='' @ backend @ '' | cases='' @ show_nat (length rs)) @
      line (unwrap_or (command_version (run_command t) ''rustc'' [''--version'']) ''rustc version unavailable'') @
      line (''policy '' @ policy_text p @ '' allowed_paths='' @ debug_strings t (allowed_paths p)) @
      line [])"

definition opt_field :: "string \<Rightarrow> ('a \<Rightarrow> string) \<Rightarrow> 'a option \<Rightarrow> string" where
  "opt_field name shown v = name @ ''='' @ (case v of Some x \<Rightarrow> shown x | None \<Rightarrow> ''-'')"

definition print_event :: "bool \<Rightarrow> import_event \<Rightarrow> string" where
  "print_event color e =
     (let decision_color = (if ev_result_code e = OK then GREEN else RED) in
      line (''    '' @ ev_import e @ '' '' @ opt_field ''ptr'' (\<lambda>v. ''0x'' @ hex8 v) (ev_ptr e) @ '' '' @
        opt_field ''len'' (\<lambda>v. show_u32 v) (ev_len e) @ '' '' @
        opt_field ''align'' (\<lambda>v. show_u32 v) (ev_align e) @ '' '' @
        opt_field ''mem'' (\<lambda>v. show_nat (unat v)) (ev_memory_size e) @ '' => '' @
        paint color decision_color (decision e) @ '' '' @ code_name (ev_result_code e) @ '' ('' @
        gates_painted (ev_gates e) color @ '') in '' @ show_nat (ev_elapsed_us e) @ ''us'') @
      line (''      '' @ ev_detail e))"

definition host_error_line :: "case_report \<Rightarrow> string" where
  "host_error_line r = (case cr_host_error r of Some err \<Rightarrow> line (''  host_error: '' @ err) | None \<Rightarrow> [])"

definition print_case :: "bool \<Rightarrow> case_report \<Rightarrow> string" where
  "print_case color r =
     case_line (badge color r) r @ intel_lines r @ host_error_line r @
     line (''  timing compile='' @ show_nat (cr_compile_us r) @ ''us instantiate='' @
       show_nat (cr_instantiate_us r) @ ''us run='' @ show_nat (cr_run_us r) @ ''us | wasm='' @
       show_nat (cr_wasm_bytes r) @ ''B'') @
     line (''  memory pages '' @ show_u32 (snap_pages (cr_memory_before r)) @ '' -> '' @
       show_u32 (snap_pages (cr_memory_after r)) @ '' ('' @
       show_signed (delta_pages (cr_memory_before r) (cr_memory_after r)) @ '') | bytes '' @
       show_nat (unat (snap_bytes (cr_memory_before r))) @ '' -> '' @
       show_nat (unat (snap_bytes (cr_memory_after r))) @ '' | ptr 0x'' @
       show_hex (snap_data_ptr (cr_memory_before r)) @ '' -> 0x'' @
       show_hex (snap_data_ptr (cr_memory_after r))) @
     line (''  imports logged='' @ show_nat (length (events (cr_telemetry r))) @ '' ticks_seen='' @
       show_u32 (ticks_seen (cr_telemetry r))) @
     concat (map (print_event color) (events (cr_telemetry r))) @ line []"

definition print_summary :: "bool \<Rightarrow> case_report list \<Rightarrow> string" where
  "print_summary color rs =
     line (paint color (if failed_count rs = 0 then GREEN else RED) (summary_line rs))"

definition print_reports :: "terminal \<Rightarrow> case_report list \<Rightarrow> policy \<Rightarrow> bool \<Rightarrow> string" where
  "print_reports t rs p color =
     print_header t rs p color @ concat (map (print_case color) rs) @ print_summary color rs"

definition print_interview_case :: "bool \<Rightarrow> case_report \<Rightarrow> string" where
  "print_interview_case color r =
     line (''['' @ badge color r @ ''] '' @ cr_name r @ '' -> expected '' @
       code_name (cr_expected_code r) @ '' got '' @ actual_name r) @
     line (''  attack: '' @ cr_description r) @
     line (''  class: category='' @ cr_category r @ '' severity='' @ cr_severity r) @ intel_lines r @
     line (''  runtime: compile='' @ show_nat (cr_compile_us r) @ ''us instantiate='' @
       show_nat (cr_instantiate_us r) @ ''us run='' @ show_nat (cr_run_us r) @ ''us memory_pages '' @
       show_u32 (snap_pages (cr_memory_before r)) @ ''->'' @ show_u32 (snap_pages (cr_memory_after r))) @
     (case last_logged r of
        Some e \<Rightarrow>
          line (''  host boundary: '' @ ev_import e @ '' => '' @ decision e @ '' '' @
            code_name (ev_result_code e)) @
          line (''  gates: '' @ gates_painted (ev_gates e) color) @ line (''  evidence: '' @ ev_detail e)
      | None \<Rightarrow> []) @ host_error_line r @ line []"

definition print_interview_report :: "terminal \<Rightarrow> case_report list \<Rightarrow> policy \<Rightarrow> bool \<Rightarrow> string" where
  "print_interview_report t rs p color =
     print_header t rs p color @ line ''mode: interview narrative'' @
     line ''threat model: malicious guest controls linear memory and import arguments'' @
     line ''adversary emulation: deterministic APT-style TTP chain without weaponized behavior'' @
     line [] @ concat (map (print_interview_case color) rs) @ print_summary color rs"

text \<open>
  The ticks are summed in 32 bits. A build with overflow checks panics when the sum overflows
  (\<open>None\<close>), any other build wraps.
\<close>

definition sum_u32 :: "bool \<Rightarrow> u32 list \<Rightarrow> u32 option" where
  "sum_u32 overflow_checks xs =
     (if overflow_checks \<and> 2 ^ 32 \<le> sum_list (map unat xs) then None else Some (sum_list xs))"

definition print_summary_report ::
  "bool \<Rightarrow> terminal \<Rightarrow> case_report list \<Rightarrow> policy \<Rightarrow> bool \<Rightarrow> string option" where
  "print_summary_report overflow_checks t rs p color =
     (case sum_u32 overflow_checks (map (\<lambda>r. ticks_seen (cr_telemetry r)) rs) of
        None \<Rightarrow> None
      | Some total_ticks \<Rightarrow> Some (print_header t rs p color @
          line (''aggregate compile='' @ show_nat (sum_list (map cr_compile_us rs)) @ ''us instantiate='' @
            show_nat (sum_list (map cr_instantiate_us rs)) @ ''us run='' @
            show_nat (sum_list (map cr_run_us rs)) @ ''us imports_logged='' @
            show_nat (sum_list (map (\<lambda>r. length (events (cr_telemetry r))) rs)) @ '' ticks_seen='' @
            show_u32 total_ticks) @
          concat (map (print_case color) (filter (\<lambda>r. \<not> passed r) rs)) @ print_summary color rs))"

section \<open>Colours carry no information\<close>

text \<open>What a terminal shows: everything but the escape sequences, which end with an \<open>m\<close>.\<close>

abbreviation ESC :: char where "ESC \<equiv> CHR 0x1B"

function strip_ansi :: "string \<Rightarrow> string" where
  "strip_ansi [] = []"
| "strip_ansi (c # cs) =
     (if c = ESC then strip_ansi (drop 1 (dropWhile (\<lambda>d. d \<noteq> CHR ''m'') cs)) else c # strip_ansi cs)"
  by pat_completeness auto
termination
  by (relation "measure length") (auto simp: less_Suc_eq_le intro: le_trans [OF diff_le_self length_dropWhile_le])

definition no_esc :: "string \<Rightarrow> bool" where
  "no_esc = list_all (\<lambda>c. c \<noteq> ESC)"

definition shown_as :: "string \<Rightarrow> string \<Rightarrow> bool" where
  "shown_as s t \<longleftrightarrow> (\<forall>u. strip_ansi (s @ u) = t @ strip_ansi u)"

lemma no_esc_append [simp]: "no_esc (s @ t) \<longleftrightarrow> no_esc s \<and> no_esc t"
  by (simp add: no_esc_def)

lemma no_esc_Cons [simp]: "no_esc (c # s) \<longleftrightarrow> c \<noteq> ESC \<and> no_esc s"
  by (simp add: no_esc_def)

lemma no_esc_Nil [simp]: "no_esc []"
  by (simp add: no_esc_def)

named_theorems shown

lemma shown_plain [shown]: "no_esc s \<Longrightarrow> shown_as s s"
  unfolding shown_as_def by (induction s) (auto simp: no_esc_def)

lemma shown_append [shown]: "\<lbrakk>shown_as s s'; shown_as t t'\<rbrakk> \<Longrightarrow> shown_as (s @ t) (s' @ t')"
  by (simp add: shown_as_def)

lemma shown_line [shown]: "shown_as s s' \<Longrightarrow> shown_as (line s) (line s')"
  unfolding line_def by (intro shown_append shown_plain) auto

lemma shown_concat [shown]:
  "(\<And>x. x \<in> set xs \<Longrightarrow> shown_as (f x) (g x)) \<Longrightarrow> shown_as (concat (map f xs)) (concat (map g xs))"
  by (induction xs) (auto intro: shown)

lemma shown_paint:
  assumes "c \<in> {BOLD, GREEN, RED}" and "no_esc s"
  shows "shown_as (paint True c s) (paint False c s)"
proof -
  have "shown_as c []" "shown_as RESET []"
    using assms(1) by (auto simp: shown_as_def BOLD_def GREEN_def RED_def RESET_def esc_seq_def)
  from shown_append [OF this(1) shown_append [OF shown_plain [OF assms(2)] this(2)]]
  show ?thesis by (simp add: paint_def ansi_paint_def)
qed

lemma shown_join:
  "\<lbrakk>no_esc sep; list_all2 shown_as xs ys\<rbrakk> \<Longrightarrow> shown_as (join sep xs) (join sep ys)"
proof (induction sep xs arbitrary: ys rule: join.induct)
  case (3 sep x y zs)
  then show ?case
    by (auto simp: list_all2_Cons1 intro!: shown_append [OF _ shown_append [OF shown_plain]])
qed (auto simp: list_all2_Cons1 intro: shown_plain)

text \<open>The strings of a report, of the policy and of the installed tools, without escape sequences.\<close>

definition event_plain :: "import_event \<Rightarrow> bool" where
  "event_plain e \<longleftrightarrow> no_esc (ev_import e) \<and> no_esc (ev_detail e) \<and> list_all (\<lambda>g. no_esc (gate_name g)) (ev_gates e)"

definition report_plain :: "case_report \<Rightarrow> bool" where
  "report_plain r \<longleftrightarrow>
     list_all no_esc [cr_name r, cr_description r, cr_category r, cr_severity r, cr_control r, cr_stage r,
       cr_ttp r, cr_detection r] \<and>
     pred_option no_esc (cr_host_error r) \<and> list_all event_plain (events (cr_telemetry r))"

definition terminal_plain :: "terminal \<Rightarrow> policy \<Rightarrow> bool" where
  "terminal_plain t p \<longleftrightarrow>
     (\<forall>tool \<in> {''wasmer'', ''rustc''}. pred_option no_esc (command_version (run_command t) tool [''--version''])) \<and>
     no_esc (debug_strings t (allowed_paths p))"

lemma no_esc_replicate [simp]: "no_esc (replicate n c) \<longleftrightarrow> n = 0 \<or> c \<noteq> ESC"
  by (auto simp: no_esc_def list_all_iff)

lemma no_esc_pad [simp]: "no_esc (pad_right n s) \<longleftrightarrow> no_esc s"
  by (simp add: pad_right_def)

lemma char_of_no_esc: "\<lbrakk>k < 256; k \<noteq> 27\<rbrakk> \<Longrightarrow> (char_of (k :: nat) = ESC) = False"
  by (simp add: char_of_eq_iff take_bit_eq_mod)

lemma no_esc_line [simp]: "no_esc (line s) = no_esc s"
  by (simp add: line_def)

lemma no_esc_unwrap_or [simp]: "no_esc d \<Longrightarrow> no_esc (unwrap_or v d) = pred_option no_esc v"
  by (cases v) auto

lemma no_esc_show_nat [simp]: "no_esc (show_nat n)"
  by (induction n rule: show_nat.induct) (subst show_nat.simps, auto simp: digit_char_def char_of_no_esc)

lemma no_esc_hex [simp]: "no_esc (show_hex n)" "no_esc (hex_pad w n)"
proof -
  show h: "no_esc (show_hex n)" for n
    by (induction n rule: show_hex.induct) (subst show_hex.simps, auto simp: hex_digit_def char_of_no_esc)
  show "no_esc (hex_pad w n)" by (simp add: hex_pad_def Let_def h)
qed

lemma no_esc_signed [simp]: "no_esc (show_signed i)"
  by (simp add: show_signed_def show_int_def)

lemma no_esc_bool [simp]: "no_esc (show_bool b)"
  by (simp add: show_bool_def)

lemma no_esc_code_name [simp]: "no_esc (code_name c)"
  by (simp add: code_name_def)

lemma no_esc_names [simp]:
  "no_esc (actual_name r)" "no_esc (backend_name b)" "no_esc (decision e)" "no_esc (verdict_name r)"
  "no_esc (policy_text p)" "no_esc (summary_line rs)"
  by (auto simp: actual_name_def backend_name_def decision_def verdict_name_def policy_text_def
      summary_line_def split: option.split backend.split)

lemma shown_badge: "shown_as (badge True r) (badge False r)"
  by (simp add: badge_def shown_paint)

lemma shown_gates:
  assumes "list_all (\<lambda>g. no_esc (gate_name g)) gs"
  shows "shown_as (gates_painted gs True) (gates_painted gs False)"
proof -
  have "shown_as (gate_name g @ '':'' @ (if gate_passed g then paint True GREEN ''ok'' else paint True RED ''fail''))
      (gate_name g @ '':'' @ (if gate_passed g then paint False GREEN ''ok'' else paint False RED ''fail''))"
    if "g \<in> set gs" for g
    using assms that by (auto simp: list_all_iff intro!: shown_append [OF shown_plain] shown_append [OF shown_plain [of "'':''"], simplified] shown_paint)
  then show ?thesis unfolding gates_painted_def
    by (intro shown_join) (auto simp: list_all2_map1 list_all2_map2 list_all2_same)
qed

lemma no_esc_opt_field [simp]:
  "no_esc (opt_field name shown v) \<longleftrightarrow> no_esc name \<and> pred_option (\<lambda>x. no_esc (shown x)) v"
  by (auto simp: opt_field_def split: option.split)

lemma shown_event: "event_plain e \<Longrightarrow> shown_as (print_event True e) (print_event False e)"
  unfolding print_event_def Let_def event_plain_def
  by (intro shown shown_gates shown_paint) (auto simp: option.pred_True)

lemma shown_host_error: "report_plain r \<Longrightarrow> shown_as (host_error_line r) (host_error_line r)"
  by (auto simp: host_error_line_def report_plain_def intro!: shown split: option.split)

lemma shown_intel: "report_plain r \<Longrightarrow> shown_as (intel_lines r) (intel_lines r)"
  unfolding intel_lines_def report_plain_def by (intro shown) auto

lemma shown_case: "report_plain r \<Longrightarrow> shown_as (print_case True r) (print_case False r)"
  unfolding print_case_def case_line_def
  by (intro shown_append shown_line shown_concat shown_plain shown_badge shown_intel shown_host_error shown_event)
    (auto simp: report_plain_def list_all_iff)

lemma shown_summary: "shown_as (print_summary True rs) (print_summary False rs)"
  unfolding print_summary_def by (intro shown shown_paint) auto

lemma shown_header: "terminal_plain t p \<Longrightarrow> shown_as (print_header t rs p True) (print_header t rs p False)"
  unfolding print_header_def Let_def
  by (intro shown shown_paint)
    (auto simp: terminal_plain_def split: list.split)

text \<open>
  Colours carry no information. If no string of the reports, of the tools' versions or of the
  policy holds an escape character, what the coloured report shows once the terminal has taken the
  escape sequences out is the report without colours.
\<close>

theorem colours_only:
  assumes "list_all report_plain rs" and "terminal_plain t p"
  shows "strip_ansi (print_reports t rs p True) = print_reports t rs p False"
proof -
  have "shown_as (print_reports t rs p True) (print_reports t rs p False)"
    unfolding print_reports_def using assms
    by (intro shown_append shown_header shown_concat shown_case shown_summary) (auto simp: list_all_iff)
  then have "strip_ansi (print_reports t rs p True @ []) = print_reports t rs p False @ strip_ansi []"
    unfolding shown_as_def by blast
  then show ?thesis by simp
qed

definition no_tools :: terminal where
  "no_tools = \<lparr>run_command = \<lambda>_ _. None, debug_strings = \<lambda>_. ''[]''\<rparr>"

lemma colours_only_witness:
  "strip_ansi (print_reports no_tools [error_report (demo_case RunExport) Cranelift ''trap''] policy_default True) =
     print_reports no_tools [error_report (demo_case RunExport) Cranelift ''trap''] policy_default False"
proof (rule colours_only)
  show "list_all report_plain [error_report (demo_case RunExport) Cranelift ''trap'']"
    by (simp add: report_plain_def error_report_def demo_case_def case_of_def threat_intel_of_def
      default_threat_intel_def intel_def Let_def telemetry_default_def)
  show "terminal_plain no_tools policy_default"
    by (simp add: terminal_plain_def no_tools_def command_version_def)
qed

text \<open>Without overflow checks the total of the ticks is wrong, with them the summary report panics.\<close>

lemma summary_ticks_overflow:
  "print_summary_report True t rs p color = None \<longleftrightarrow>
     2 ^ 32 \<le> sum_list (map (\<lambda>r. unat (ticks_seen (cr_telemetry r))) rs)"
  by (simp add: print_summary_report_def sum_u32_def comp_def)

end
