(* ===== verification/Session.thy ===== *)
theory Session
  imports Text_Report Corpus Supervisor
begin

text \<open>
  The session store of \<open>src/session.rs\<close>: a directory with one JSON document for each recorded run
  and an index of tab-separated lines. The disk is a map from paths to contents; which of its
  operations fail, and what a failed write leaves behind, is an argument, and so is the clock.
\<close>

section \<open>The disk\<close>

type_synonym disk = "string \<rightharpoonup> string"

text \<open>
  The faults of one run: the message of an operation that fails, and for the two writes also what
  is at the path afterwards.
\<close>

record faults =
  create_dir_fault :: "string \<Rightarrow> string option"
  write_fault :: "string \<Rightarrow> (string \<times> string option) option"
  open_fault :: "string \<Rightarrow> string option"
  append_fault :: "string \<Rightarrow> (string \<times> string option) option"
  read_fault :: "string \<Rightarrow> string option"

definition no_faults :: faults where
  "no_faults = \<lparr>create_dir_fault = \<lambda>_. None, write_fault = \<lambda>_. None, open_fault = \<lambda>_. None,
     append_fault = \<lambda>_. None, read_fault = \<lambda>_. None\<rparr>"

section \<open>Summaries and the index\<close>

record session_summary =
  ss_id :: string
  ss_created_unix_ms :: nat
  ss_label :: string
  ss_backend :: string
  ss_isolation :: string
  ss_total :: nat
  ss_passed :: nat
  ss_failed :: nat
  ss_total_runtime_us :: nat
  ss_path :: string

record session_store =
  st_dir :: string
  st_index_path :: string

definition store_new :: "string \<Rightarrow> session_store" where
  "store_new dir = \<lparr>st_dir = dir, st_index_path = join_path dir ''index.tsv''\<rparr>"

definition store_default :: session_store where
  "store_default = store_new ''target/security-sessions''"

definition clean_tsv :: "string \<Rightarrow> string" where
  "clean_tsv = map (\<lambda>c. if c \<in> {tab_char, lf_char, cr_char} then CHR '' '' else c)"

definition is_ascii_alphanumeric :: "string \<Rightarrow> bool" where
  "is_ascii_alphanumeric ch =
     (case ch of
        [c] \<Rightarrow> (let n = (of_char c :: nat) in
          48 \<le> n \<and> n \<le> 57 \<or> 65 \<le> n \<and> n \<le> 90 \<or> 97 \<le> n \<and> n \<le> 122)
      | _ \<Rightarrow> False)"

text \<open>\<open>to_ascii_lowercase\<close>, of a character and of a string: the bytes of other characters are above 127.\<close>

definition to_ascii_lowercase :: "string \<Rightarrow> string" where
  "to_ascii_lowercase = map (\<lambda>c. let n = (of_char c :: nat) in
     if 65 \<le> n \<and> n \<le> 90 then char_of (n + 32) else c)"

definition slugify :: "string \<Rightarrow> string" where
  "slugify value =
     (let slug = concat (map (\<lambda>ch. if is_ascii_alphanumeric ch then to_ascii_lowercase ch else ''-'')
            (utf8_chars value));
          slug = join ''-'' (filter (\<lambda>part. part \<noteq> []) (split_on CHR ''-'' slug))
      in if slug = [] then ''run'' else slug)"

definition make_summary :: "string \<Rightarrow> nat \<Rightarrow> string \<Rightarrow> config \<Rightarrow> case_report list \<Rightarrow> string \<Rightarrow> session_summary" where
  "make_summary sid created label cf rs path =
     \<lparr>ss_id = sid, ss_created_unix_ms = created, ss_label = label,
      ss_backend = backend_name (cf_backend cf), ss_isolation = isolation_name (cf_isolation cf),
      ss_total = length rs, ss_passed = passed_count rs, ss_failed = failed_count rs,
      ss_total_runtime_us = sum_list (map (\<lambda>r. cr_compile_us r + cr_instantiate_us r + cr_run_us r) rs),
      ss_path = path\<rparr>"

definition index_fields :: "session_summary \<Rightarrow> string list" where
  "index_fields s =
     [ss_id s, show_nat (ss_created_unix_ms s), clean_tsv (ss_label s), ss_backend s, ss_isolation s,
      show_nat (ss_total s), show_nat (ss_passed s), show_nat (ss_failed s),
      show_nat (ss_total_runtime_us s), clean_tsv (ss_path s)]"

definition index_line :: "session_summary \<Rightarrow> string" where
  "index_line s = join [tab_char] (index_fields s)"

definition parse_index_line :: "string \<Rightarrow> session_summary option" where
  "parse_index_line l =
     (case split_on tab_char l of
        [sid, created, label, backend, isolation, n_total, n_passed, n_failed, runtime, path] \<Rightarrow>
          (case (field_u128 created, field_usize n_total, field_usize n_passed, field_usize n_failed,
                 field_u128 runtime) of
             (Some created, Some n_total, Some n_passed, Some n_failed, Some runtime) \<Rightarrow>
               Some \<lparr>ss_id = sid, ss_created_unix_ms = created, ss_label = label, ss_backend = backend,
                 ss_isolation = isolation, ss_total = n_total, ss_passed = n_passed, ss_failed = n_failed,
                 ss_total_runtime_us = runtime, ss_path = path\<rparr>
           | _ \<Rightarrow> None)
      | _ \<Rightarrow> None)"

section \<open>The session document\<close>

definition session_version :: "terminal \<Rightarrow> string \<Rightarrow> string list \<Rightarrow> string option" where
  "session_version t program args =
     (case run_command t program args of
        None \<Rightarrow> None
      | Some (success, stdout) \<Rightarrow> if \<not> success then None else Some (trim (from_utf8_lossy stdout)))"

definition session_gate :: "gate \<Rightarrow> string" where
  "session_gate g = jobj [(''name'', jstr (gate_name g)), (''passed'', show_bool (gate_passed g))]"

definition session_event :: "import_event \<Rightarrow> string" where
  "session_event e = jobj
     [(''import'', jstr (ev_import e)), (''decision'', jq (decision e)),
      (''result'', jq (code_name (ev_result_code e))), (''detail'', jstr (ev_detail e)),
      (''elapsed_us'', show_nat (ev_elapsed_us e)), (''gates'', jarr (map session_gate (ev_gates e)))]"

definition session_case :: "case_report \<Rightarrow> string" where
  "session_case r = ''    '' @ jlines ''      '' ''    ''
     [(''name'', jstr (cr_name r)), (''category'', jstr (cr_category r)),
      (''severity'', jstr (cr_severity r)), (''stage'', jstr (cr_stage r)), (''ttp'', jstr (cr_ttp r)),
      (''description'', jstr (cr_description r)), (''control'', jstr (cr_control r)),
      (''detection'', jstr (cr_detection r)), (''source_path'', jstr (cr_source_path r)),
      (''expected'', jq (code_name (cr_expected_code r))), (''actual'', jq (actual_name r)),
      (''passed'', show_bool (passed r)), (''timing_us'', json_timing r),
      (''memory'', jobj
         [(''before_pages'', show_u32 (snap_pages (cr_memory_before r))),
          (''after_pages'', show_u32 (snap_pages (cr_memory_after r))),
          (''before_bytes'', show_nat (unat (snap_bytes (cr_memory_before r)))),
          (''after_bytes'', show_nat (unat (snap_bytes (cr_memory_after r))))]),
      (''host_error'', jopt (cr_host_error r)),
      (''events'', jarr (map session_event (events (cr_telemetry r))))]"

definition render_session_json ::
  "terminal \<Rightarrow> session_summary \<Rightarrow> string \<Rightarrow> config \<Rightarrow> policy \<Rightarrow> case_report list \<Rightarrow> string" where
  "render_session_json t s label cf p rs = jlines ''  '' []
     [(''tool'', jq TOOL_NAME),
      (''session'', jobj [(''id'', jstr (ss_id s)), (''label'', jstr label),
         (''created_unix_ms'', show_nat (ss_created_unix_ms s))]),
      (''runtime'', jobj [(''crate'', jq ''wasmer=6.1.0''),
         (''wasmer_cli'', jstr (unwrap_or (session_version t ''wasmer'' [''--version'']) ''unavailable'')),
         (''rustc'', jstr (unwrap_or (session_version t ''rustc'' [''--version'']) ''unavailable''))]),
      (''execution'', jobj [(''backend'', jq (backend_name (cf_backend cf))),
         (''isolation'', jq (isolation_name (cf_isolation cf))), (''profile'', jq (profile_name (cf_profile cf))),
         (''repeat'', show_nat (cf_repeat cf)), (''corpus_dir'', jopt (cf_corpus_dir cf)),
         (''policy_path'', jopt (cf_policy_path cf))]),
      (''policy'', jobj (policy_members p @ [(''allowed_paths'', jarr (map jstr (allowed_paths p)))])),
      (''summary'', jobj [(''total'', show_nat (ss_total s)), (''passed'', show_nat (ss_passed s)),
         (''failed'', show_nat (ss_failed s)), (''total_runtime_us'', show_nat (ss_total_runtime_us s))]),
      (''cases'', jarr_lines ''  '' (map session_case rs))] @ [lf_char]"

section \<open>The operations\<close>

text \<open>\<open>record_run\<close>; \<open>now\<close> is the time in milliseconds since 1970, zero before.\<close>

definition append_line :: "faults \<Rightarrow> string \<Rightarrow> string \<Rightarrow> disk \<Rightarrow> (string + unit) \<times> disk" where
  "append_line fs path l d =
     (case open_fault fs path of
        Some err \<Rightarrow> (Inl (''failed to open '' @ path @ '': '' @ err), d)
      | None \<Rightarrow>
          (case append_fault fs path of
             Some (err, left) \<Rightarrow> (Inl (''failed to update '' @ path @ '': '' @ err), d(path := left))
           | None \<Rightarrow> (Inr (), d(path \<mapsto> unwrap_or (d path) [] @ line l))))"

definition record_run ::
  "faults \<Rightarrow> terminal \<Rightarrow> nat \<Rightarrow> session_store \<Rightarrow> string \<Rightarrow> config \<Rightarrow> policy \<Rightarrow> case_report list \<Rightarrow> disk \<Rightarrow>
     (string + session_summary) \<times> disk" where
  "record_run fs t now st label cf p rs d =
     (case create_dir_fault fs (st_dir st) of
        Some err \<Rightarrow> (Inl (''failed to create '' @ st_dir st @ '': '' @ err), d)
      | None \<Rightarrow>
          (let sid = show_nat now;
               path = join_path (st_dir st) (''session-'' @ sid @ ''-'' @ slugify label @ ''.json'');
               summary = make_summary sid now label cf rs path
           in case write_fault fs path of
                Some (err, left) \<Rightarrow> (Inl (''failed to write '' @ path @ '': '' @ err), d(path := left))
              | None \<Rightarrow>
                  (case append_line fs (st_index_path st) (index_line summary)
                          (d(path \<mapsto> render_session_json t summary label cf p rs)) of
                     (Inl err, d) \<Rightarrow> (Inl err, d)
                   | (Inr _, d) \<Rightarrow> (Inr summary, d))))"

definition list_recent :: "faults \<Rightarrow> session_store \<Rightarrow> nat \<Rightarrow> disk \<Rightarrow> string + session_summary list" where
  "list_recent fs st limit d =
     (case d (st_index_path st) of
        None \<Rightarrow> Inr []
      | Some contents \<Rightarrow>
          (case read_fault fs (st_index_path st) of
             Some err \<Rightarrow> Inl (''failed to read '' @ st_index_path st @ '': '' @ err)
           | None \<Rightarrow> Inr (take limit (rev (List.map_filter parse_index_line (lines contents))))))"

definition latest :: "faults \<Rightarrow> session_store \<Rightarrow> disk \<Rightarrow> string + session_summary option" where
  "latest fs st d =
     result_bind (list_recent fs st 1 d) (\<lambda>ss. Inr (case ss of s # _ \<Rightarrow> Some s | [] \<Rightarrow> None))"

text \<open>Reading also fails if the file does not exist; the message is then the library's.\<close>

definition read_session :: "faults \<Rightarrow> string \<Rightarrow> session_summary \<Rightarrow> disk \<Rightarrow> string + string" where
  "read_session fs not_found s d =
     (case read_fault fs (ss_path s) of
        Some err \<Rightarrow> Inl (''failed to read '' @ ss_path s @ '': '' @ err)
      | None \<Rightarrow> (case d (ss_path s) of
           None \<Rightarrow> Inl (''failed to read '' @ ss_path s @ '': '' @ not_found)
         | Some contents \<Rightarrow> Inr contents))"

section \<open>The index\<close>

definition clean_field :: "string \<Rightarrow> bool" where
  "clean_field s \<longleftrightarrow> set s \<inter> {tab_char, lf_char, cr_char} = {}"

definition summary_ok :: "session_summary \<Rightarrow> bool" where
  "summary_ok s \<longleftrightarrow> clean_field (ss_id s) \<and> clean_field (ss_backend s) \<and> clean_field (ss_isolation s) \<and>
     ss_created_unix_ms s < 2 ^ 128 \<and> ss_total_runtime_us s < 2 ^ 128 \<and>
     ss_total s \<le> usize_max \<and> ss_passed s \<le> usize_max \<and> ss_failed s \<le> usize_max"

definition cleaned :: "session_summary \<Rightarrow> session_summary" where
  "cleaned s = s\<lparr>ss_label := clean_tsv (ss_label s), ss_path := clean_tsv (ss_path s)\<rparr>"

lemma clean_tsv_clean: "clean_field (clean_tsv s)"
  by (auto simp: clean_field_def clean_tsv_def)

lemma clean_tsv_id: "clean_field s \<Longrightarrow> clean_tsv s = s"
  unfolding clean_tsv_def clean_field_def by (rule map_idI) auto

lemma clean_field_show_nat: "clean_field (show_nat n)"
proof -
  have "\<not> is_digit c" if "c \<in> {tab_char, lf_char, cr_char}" for c
    using that by (elim insertE emptyE) (simp_all add: is_digit_def digit_of_def)
  then show ?thesis using show_nat_digits [of _ n] by (auto simp: clean_field_def)
qed

lemma index_fields_clean: "summary_ok s \<Longrightarrow> f \<in> set (index_fields s) \<Longrightarrow> clean_field f"
  by (auto simp: index_fields_def summary_ok_def clean_tsv_clean clean_field_show_nat)

lemma parse_index_line_index_line:
  assumes "summary_ok s"
  shows "parse_index_line (index_line s) = Some (cleaned s)"
proof -
  have "split_on tab_char (index_line s) = index_fields s"
    unfolding index_line_def using index_fields_clean [OF assms]
    by (intro split_on_join) (auto simp: clean_field_def, simp add: index_fields_def)
  moreover have "field_u128 (show_nat (ss_created_unix_ms s)) = Some (ss_created_unix_ms s)"
    "field_u128 (show_nat (ss_total_runtime_us s)) = Some (ss_total_runtime_us s)"
    "field_usize (show_nat (ss_total s)) = Some (ss_total s)"
    "field_usize (show_nat (ss_passed s)) = Some (ss_passed s)"
    "field_usize (show_nat (ss_failed s)) = Some (ss_failed s)"
    using assms by (auto simp: summary_ok_def intro!: u128_field.dec_enc usize_field.dec_enc)
  ultimately show ?thesis
    by (simp add: parse_index_line_def index_fields_def cleaned_def)
qed

lemma index_line_one_line:
  assumes "summary_ok s"
  shows "lf_char \<notin> set (index_line s) \<and> cr_char \<notin> set (index_line s)"
  using set_join [of "[tab_char]" "index_fields s"] index_fields_clean [OF assms]
  by (fastforce simp: index_line_def clean_field_def)

text \<open>An index every line of which is ended.\<close>

definition closed_index :: "session_store \<Rightarrow> disk \<Rightarrow> bool" where
  "closed_index st d \<longleftrightarrow> (\<forall>contents. d (st_index_path st) = Some contents \<longrightarrow> contents = [] \<or> last contents = lf_char)"

lemma split_inclusive_append:
  "a = [] \<or> last a = c \<Longrightarrow> split_inclusive c (a @ b) = split_inclusive c a @ split_inclusive c b"
proof (induction a)
  case (Cons x a)
  show ?case
  proof (cases "a = []")
    case False
    then have "split_inclusive c a \<noteq> []" by (cases a) (auto split: list.split)
    then show ?thesis using Cons False by (auto split: list.split)
  qed (use Cons.prems in simp)
qed simp

lemma lines_append: "a = [] \<or> last a = lf_char \<Longrightarrow> lines (a @ b) = lines a @ lines b"
  by (simp add: lines_def split_inclusive_append)

lemma lines_snoc_line:
  assumes "a = [] \<or> last a = lf_char" and "summary_ok s"
  shows "lines (a @ line (index_line s)) = lines a @ [index_line s]"
  using lines_append [OF assms(1)] lines_line [of "index_line s" "[]"] index_line_one_line [OF assms(2)]
  by (simp add: line_def)

lemma append_line_Inr:
  "append_line fs path l d = (Inr u, d') \<Longrightarrow> d' = d(path \<mapsto> unwrap_or (d path) [] @ line l)"
  by (auto simp: append_line_def split: option.splits)

lemma record_run_Inr:
  assumes "record_run fs t now st label cf p rs d = (Inr s, d')"
  defines "path \<equiv> join_path (st_dir st) (''session-'' @ show_nat now @ ''-'' @ slugify label @ ''.json'')"
  shows "s = make_summary (show_nat now) now label cf rs path"
    and "\<exists>d1. d1 = d(path \<mapsto> render_session_json t s label cf p rs) \<and>
       d' = d1(st_index_path st \<mapsto> unwrap_or (d1 (st_index_path st)) [] @ line (index_line s))"
  using assms by (auto simp: record_run_def Let_def split: option.splits sum.splits prod.splits dest!: append_line_Inr)

section \<open>File names\<close>

definition slug_char :: "char \<Rightarrow> bool" where
  "slug_char c \<longleftrightarrow> (let n = of_char c :: nat in 48 \<le> n \<and> n \<le> 57 \<or> 97 \<le> n \<and> n \<le> 122)"

lemma slug_char_dash: "\<not> slug_char CHR ''-''"
  by (simp add: slug_char_def)

definition slug_step :: "string \<Rightarrow> string" where
  "slug_step ch = (if is_ascii_alphanumeric ch then to_ascii_lowercase ch else ''-'')"

lemma slug_step_chars: "c \<in> set (slug_step ch) \<Longrightarrow> slug_char c \<or> c = CHR ''-''"
  by (auto simp: slug_step_def is_ascii_alphanumeric_def to_ascii_lowercase_def slug_char_def Let_def
      split: list.splits if_splits)

lemma slug_step_id: "slug_char c \<or> c = CHR ''-'' \<Longrightarrow> slug_step [c] = [c]"
  by (auto simp: slug_step_def is_ascii_alphanumeric_def to_ascii_lowercase_def slug_char_def Let_def)

definition words :: "string list \<Rightarrow> bool" where
  "words ws \<longleftrightarrow> ws \<noteq> [] \<and> list_all (\<lambda>w. w \<noteq> [] \<and> list_all slug_char w) ws"

lemma set_join_part: "p \<in> set ps \<Longrightarrow> set p \<subseteq> set (join sep ps)"
  by (induction sep ps rule: join.induct) auto

lemma join_empty: "list_all (\<lambda>p. p \<noteq> []) ps \<Longrightarrow> join sep ps = [] \<longleftrightarrow> ps = []"
  by (cases "(sep, ps)" rule: join.cases) auto

lemma slugify_words: "\<exists>ws. words ws \<and> slugify v = join ''-'' ws"
proof -
  define raw where "raw = concat (map slug_step (utf8_chars v))"
  define ws where "ws = filter (\<lambda>part. part \<noteq> []) (split_on CHR ''-'' raw)"
  have raw: "slug_char c \<or> c = CHR ''-''" if "c \<in> set raw" for c
    using that slug_step_chars by (auto simp: raw_def)
  have "list_all slug_char w" if w: "w \<in> set (split_on CHR ''-'' raw)" for w
  proof -
    have "set w \<subseteq> set (join ''-'' (split_on CHR ''-'' raw))" using w by (rule set_join_part)
    then have "set w \<subseteq> set raw" by (simp only: join_split_on)
    then show ?thesis using raw split_on_no_sep [OF w] by (auto simp: list_all_iff)
  qed
  then have ok: "ws \<noteq> [] \<Longrightarrow> words ws"
    by (auto simp: words_def ws_def list_all_iff)
  have "slugify v = (if join ''-'' ws = [] then ''run'' else join ''-'' ws)"
    by (simp add: slugify_def ws_def raw_def slug_step_def [abs_def] Let_def)
  moreover have "join ''-'' ws = [] \<longleftrightarrow> ws = []"
    by (rule join_empty) (simp add: ws_def list_all_iff)
  moreover have "words [''run'']" by (simp add: words_def slug_char_def)
  ultimately show ?thesis using ok by (cases "ws = []") (auto intro: exI [of _ "[''run'']"])
qed

lemma slugify_join:
  assumes "words ws"
  shows "slugify (join ''-'' ws) = join ''-'' ws"
proof -
  have chars: "slug_char c \<or> c = CHR ''-''" if "c \<in> set (join ''-'' ws)" for c
    using that assms set_join [of "''-''" ws] by (auto simp: words_def list_all_iff)
  then have "is_ascii (join ''-'' ws)"
    unfolding is_ascii_def list_all_iff slug_char_def Let_def by fastforce
  then have "concat (map slug_step (utf8_chars (join ''-'' ws))) = concat (map (\<lambda>c. [c]) (join ''-'' ws))"
    using chars by (simp add: utf8_chars_ascii comp_def slug_step_id cong: map_cong)
  then have raw: "concat (map slug_step (utf8_chars (join ''-'' ws))) = join ''-'' ws"
    by simp
  have "split_on CHR ''-'' (join ''-'' ws) = ws"
    using assms slug_char_dash by (intro split_on_join) (auto simp: words_def list_all_iff)
  moreover have "filter (\<lambda>p. p \<noteq> []) ws = ws"
    using assms by (simp add: words_def list_all_iff filter_id_conv)
  moreover have "join ''-'' ws \<noteq> []"
    using assms join_empty [of ws] by (auto simp: words_def list_all_iff)
  ultimately show ?thesis
    using raw by (simp add: slugify_def Let_def slug_step_def [abs_def])
qed

text \<open>
  The label of a session gives a safe file name. Its slug is a list of one or more words of
  lower-case letters and digits, with single dashes between them: no separator of directories, no
  dot, nothing empty, whatever the label holds. Slugs are their own slugs.
\<close>

theorem slugify_safe:
  "(\<exists>ws. words ws \<and> slugify v = join ''-'' ws) \<and> slugify (slugify v) = slugify v"
  using slugify_words [of v] slugify_join by auto

section \<open>Recording and listing\<close>

lemma ends_with_append: "ends_with p (s @ p)"
  by (simp add: ends_with_def)

lemma session_path_not_index:
  assumes "st = store_new dir"
  shows "join_path (st_dir st) (n @ ''.json'') \<noteq> st_index_path st"
proof -
  have "last (join_path dir (n @ ''.json'')) = CHR ''n''" "last (join_path dir ''index.tsv'') = CHR ''v''"
    by (auto simp: join_path_def)
  then show ?thesis using assms by (auto simp: store_new_def)
qed

lemma make_summary_ok:
  assumes "now < 2 ^ 128" and "length rs \<le> usize_max"
    and "sum_list (map (\<lambda>r. cr_compile_us r + cr_instantiate_us r + cr_run_us r) rs) < 2 ^ 128"
  shows "summary_ok (make_summary (show_nat now) now label cf rs path)"
proof -
  have "passed_count rs \<le> length rs" "failed_count rs \<le> length rs"
    by (simp_all add: passed_count_def failed_count_def)
  moreover have "clean_field (backend_name b)" "clean_field (isolation_name m)" for b m
    by (cases b; cases m; simp add: backend_name_def isolation_name_def clean_field_def)+
  ultimately show ?thesis using assms by (simp add: summary_ok_def make_summary_def clean_field_show_nat)
qed

text \<open>
  C37. What was recorded is what is listed. After a successful run has been recorded, the history is
  the new session, in front, and then what it was before; the index still ends in a whole line;
  and the session's file holds the document of the run. The tabs and line ends of the label and
  the path have become blanks.
\<close>

theorem recorded_session_listed:
  assumes "record_run fs t now st label cf p rs d = (Inr s, d')"
    and "st = store_new dir" and "closed_index st d"
    and "now < 2 ^ 128" and "length rs \<le> usize_max"
    and "sum_list (map (\<lambda>r. cr_compile_us r + cr_instantiate_us r + cr_run_us r) rs) < 2 ^ 128"
    and "list_recent fs st n d = Inr history" and "read_fault fs (st_index_path st) = None"
  shows "list_recent fs st (Suc n) d' = Inr (cleaned s # history) \<and> closed_index st d' \<and>
    d' (ss_path s) = Some (render_session_json t s label cf p rs)"
proof -
  let ?path = "join_path (st_dir st) (''session-'' @ show_nat now @ ''-'' @ slugify label @ ''.json'')"
  have neq: "?path \<noteq> st_index_path st"
    using session_path_not_index [OF assms(2), of "''session-'' @ show_nat now @ ''-'' @ slugify label"] by simp
  have s: "s = make_summary (show_nat now) now label cf rs ?path"
    by (rule record_run_Inr(1) [OF assms(1)])
  then have path: "ss_path s = ?path" by (simp add: make_summary_def)
  have ok: "summary_ok s" unfolding s by (rule make_summary_ok [OF assms(4-6)])
  let ?old = "unwrap_or (d (st_index_path st)) []"
  have d': "d' = d(?path \<mapsto> render_session_json t s label cf p rs, st_index_path st \<mapsto> ?old @ line (index_line s))"
    using record_run_Inr(2) [OF assms(1)] neq by auto
  have closed: "?old = [] \<or> last ?old = lf_char"
    using assms(3) by (cases "d (st_index_path st)") (auto simp: closed_index_def)
  have "history = take n (rev (List.map_filter parse_index_line (lines ?old)))"
    using assms(7,8) by (auto simp: list_recent_def split: option.splits)
  then have "list_recent fs st (Suc n) d' = Inr (cleaned s # history)"
    using assms(8) lines_snoc_line [OF closed ok] parse_index_line_index_line [OF ok]
    by (simp add: list_recent_def d' List.map_filter_def)
  then show ?thesis using neq by (simp add: closed_index_def d' path line_def)
qed

definition demo_session :: session_summary where
  "demo_session = make_summary ''7'' 7 ''a demo'' config_default [] ''h/session-7-a-demo.json''"

lemma recorded_session_listed_witness:
  "list_recent no_faults (store_new ''h'') 1
      (snd (record_run no_faults no_tools 7 (store_new ''h'') ''a demo'' config_default policy_default [] (\<lambda>_. None))) =
      Inr [cleaned demo_session]"
proof -
  let ?doc = "render_session_json no_tools demo_session ''a demo'' config_default policy_default []"
  have slug: "slugify ''a demo'' = ''a-demo''" by code_simp
  have num: "show_nat 7 = ''7''" by code_simp
  have r: "record_run no_faults no_tools 7 (store_new ''h'') ''a demo'' config_default policy_default [] (\<lambda>_. None) =
      (Inr demo_session, [''h/session-7-a-demo.json'' \<mapsto> ?doc, ''h/index.tsv'' \<mapsto> line (index_line demo_session)])"
    by (simp add: record_run_def no_faults_def slug num append_line_def store_new_def join_path_def ends_with_def
        demo_session_def make_summary_def Let_def)
  have "closed_index (store_new ''h'') (\<lambda>_. None)" by (simp add: closed_index_def)
  moreover have "list_recent no_faults (store_new ''h'') 0 (\<lambda>_. None) = Inr []"
    by (simp add: list_recent_def)
  ultimately show ?thesis
    using recorded_session_listed [OF r refl, of 0 "[]"] unfolding r by (simp add: no_faults_def usize_max_def)
qed

text \<open>
  Two runs recorded in the same millisecond whose labels have the same slug share a file: the
  second replaces the document of the first, which stays in the index.
\<close>

lemma same_millisecond_overwrites:
  assumes "slugify label = slugify label'" and "record_run fs t now st label cf p rs d = (Inr s, d1)"
    and "record_run fs t now st label' cf' p' rs' d1 = (Inr s', d2)" and "st = store_new dir"
  shows "ss_path s = ss_path s' \<and> d2 (ss_path s) = Some (render_session_json t s' label' cf' p' rs')"
proof -
  have "ss_path s = ss_path s'"
    using record_run_Inr(1) [OF assms(2)] record_run_Inr(1) [OF assms(3)] assms(1) by (simp add: make_summary_def)
  then show ?thesis
    using record_run_Inr [OF assms(3)]
      session_path_not_index [OF assms(4), of "''session-'' @ show_nat now @ ''-'' @ slugify label'"]
    by (auto simp: make_summary_def)
qed

section \<open>The session document is JSON\<close>

definition gate_value :: "gate \<Rightarrow> json" where
  "gate_value g = JObj [(''name'', JStr (gate_name g)), (''passed'', JBool (gate_passed g))]"

definition session_event_value :: "import_event \<Rightarrow> json" where
  "session_event_value e = JObj
     [(''import'', JStr (ev_import e)), (''decision'', JStr (decision e)),
      (''result'', JStr (code_name (ev_result_code e))), (''detail'', JStr (ev_detail e)),
      (''elapsed_us'', JNum (ev_elapsed_us e)), (''gates'', JArr (map gate_value (ev_gates e)))]"

definition opt_value :: "string option \<Rightarrow> json" where
  "opt_value v = (case v of Some s \<Rightarrow> JStr s | None \<Rightarrow> JNull)"

definition session_case_value :: "case_report \<Rightarrow> json" where
  "session_case_value r = JObj
     [(''name'', JStr (cr_name r)), (''category'', JStr (cr_category r)),
      (''severity'', JStr (cr_severity r)), (''stage'', JStr (cr_stage r)), (''ttp'', JStr (cr_ttp r)),
      (''description'', JStr (cr_description r)), (''control'', JStr (cr_control r)),
      (''detection'', JStr (cr_detection r)), (''source_path'', JStr (cr_source_path r)),
      (''expected'', JStr (code_name (cr_expected_code r))), (''actual'', JStr (actual_name r)),
      (''passed'', JBool (passed r)), (''timing_us'', timing_value r),
      (''memory'', JObj
         [(''before_pages'', JNum (unat (snap_pages (cr_memory_before r)))),
          (''after_pages'', JNum (unat (snap_pages (cr_memory_after r)))),
          (''before_bytes'', JNum (unat (snap_bytes (cr_memory_before r)))),
          (''after_bytes'', JNum (unat (snap_bytes (cr_memory_after r))))]),
      (''host_error'', opt_value (cr_host_error r)),
      (''events'', JArr (map session_event_value (events (cr_telemetry r))))]"

definition session_value ::
  "terminal \<Rightarrow> session_summary \<Rightarrow> string \<Rightarrow> config \<Rightarrow> policy \<Rightarrow> case_report list \<Rightarrow> json" where
  "session_value t s label cf p rs = JObj
     [(''tool'', JStr TOOL_NAME),
      (''session'', JObj [(''id'', JStr (ss_id s)), (''label'', JStr label),
         (''created_unix_ms'', JNum (ss_created_unix_ms s))]),
      (''runtime'', JObj [(''crate'', JStr ''wasmer=6.1.0''),
         (''wasmer_cli'', JStr (unwrap_or (session_version t ''wasmer'' [''--version'']) ''unavailable'')),
         (''rustc'', JStr (unwrap_or (session_version t ''rustc'' [''--version'']) ''unavailable''))]),
      (''execution'', JObj [(''backend'', JStr (backend_name (cf_backend cf))),
         (''isolation'', JStr (isolation_name (cf_isolation cf))), (''profile'', JStr (profile_name (cf_profile cf))),
         (''repeat'', JNum (cf_repeat cf)), (''corpus_dir'', opt_value (cf_corpus_dir cf)),
         (''policy_path'', opt_value (cf_policy_path cf))]),
      (''policy'', (case policy_value p of
          JObj ms \<Rightarrow> JObj (ms @ [(''allowed_paths'', JArr (map JStr (allowed_paths p)))]) | v \<Rightarrow> v)),
      (''summary'', JObj [(''total'', JNum (ss_total s)), (''passed'', JNum (ss_passed s)),
         (''failed'', JNum (ss_failed s)), (''total_runtime_us'', JNum (ss_total_runtime_us s))]),
      (''cases'', JArr (map session_case_value rs))]"

lemma session_names [simp]:
  "json_plain ''source_path''" "json_plain ''memory''" "json_plain ''before_pages''" "json_plain ''after_pages''"
  "json_plain ''before_bytes''" "json_plain ''after_bytes''" "json_plain ''host_error''" "json_plain ''elapsed_us''"
  "json_plain ''session''" "json_plain ''id''" "json_plain ''label''" "json_plain ''created_unix_ms''"
  "json_plain ''runtime''" "json_plain ''crate''" "json_plain ''wasmer_cli''" "json_plain ''rustc''"
  "json_plain ''execution''" "json_plain ''backend''" "json_plain ''isolation''" "json_plain ''profile''"
  "json_plain ''repeat''" "json_plain ''corpus_dir''" "json_plain ''policy_path''" "json_plain ''allowed_paths''"
  "json_plain ''total_runtime_us''" "json_plain ''cranelift''"
  by (rule json_plain_ascii; code_simp)+

lemma json_plain_modes [simp]:
  "json_plain (backend_name b)" "json_plain (isolation_name m)" "json_plain (profile_name q)"
  by (rule json_plain_ascii, cases b; cases m; cases q; simp add: backend_name_def isolation_name_def profile_name_def)+

lemma json_opt_text: "pred_option is_str v \<Longrightarrow> json_text (opt_value v) (jopt v)"
  unfolding opt_value_def by (rule json_jopt)

lemma session_event_text: "event_strs e \<Longrightarrow> json_text (session_event_value e) (session_event e)"
proof -
  assume a: "event_strs e"
  have "json_text (gate_value g) (session_gate g)" if "g \<in> set (ev_gates e)" for g
    unfolding gate_value_def session_gate_def using a that
    by (intro json_jobj) (simp add: json_build event_strs_def list_all_iff)
  then have "json_text (JArr (map gate_value (ev_gates e))) (jarr (map session_gate (ev_gates e)))"
    by (intro json_jarr) (simp add: list_all2_map list_all_iff)
  then show ?thesis unfolding session_event_value_def session_event_def using a
    by (intro json_jobj) (simp add: event_strs_def json_build)
qed

lemma session_case_text:
  assumes "report_strs r"
  shows "json_text (session_case_value r) (session_case r)"
proof -
  have e: "json_text (JArr (map session_event_value (events (cr_telemetry r)))) (jarr (map session_event (events (cr_telemetry r))))"
    using assms by (intro json_jarr) (auto simp: list_all2_map list_all_iff report_strs_def session_event_text)
  show ?thesis unfolding session_case_value_def session_case_def using assms
    by (intro json_text_pad(1) json_jlines) (simp_all add: report_strs_def json_build json_timing_text json_opt_text e)
qed

text \<open>
  C38. The document of a session is well formed and complete. For any label, configuration, policy
  and reports, whatever their strings hold and whatever the installed tools print, it is JSON by
  RFC 8259 and denotes the session, the execution, the policy with its paths, the counts and every
  case with its gates.
\<close>

theorem session_json_denotes:
  assumes "is_str label" and "pred_option is_str (cf_corpus_dir cf)" and "pred_option is_str (cf_policy_path cf)"
    and "list_all is_str (allowed_paths p)" and "list_all report_strs rs" and "is_str (ss_id s)"
  shows "json_text (session_value t s label cf p rs) (render_session_json t s label cf p rs)"
proof -
  have tools: "is_str (unwrap_or (session_version t tool args) ''unavailable'')" for tool args
    by (auto simp: session_version_def is_str_trim is_str_lossy is_str_ascii split: option.split)
  have paths: "json_text (JArr (map JStr (allowed_paths p))) (jarr (map jstr (allowed_paths p)))"
    using assms(4) by (intro json_jarr) (simp add: list_all2_map list_all_iff json_build)
  have cases: "json_text (JArr (map session_case_value rs)) (jarr_lines ''  '' (map session_case rs))"
    using assms(5) by (intro json_jarr_lines) (auto simp: list_all2_map list_all_iff session_case_text)
  show ?thesis unfolding render_session_json_def session_value_def using assms
    by (intro json_text_pad(2) json_jlines)
      (simp_all add: json_build tools paths cases json_opt_text policy_members_def policy_value_def)
qed

lemma session_json_denotes_witness:
  "json_text (session_value no_tools demo_session [quote_char, lf_char] config_default policy_default
       [error_report (demo_case RunExport) Cranelift [CHR 0x01]])
     (render_session_json no_tools demo_session [quote_char, lf_char] config_default policy_default
       [error_report (demo_case RunExport) Cranelift [CHR 0x01]])"
  by (rule session_json_denotes)
    (simp_all add: report_strs_def error_report_def demo_case_def case_of_def threat_intel_of_def
      default_threat_intel_def intel_def guest_path_def Let_def is_str_ascii telemetry_default_def
      config_default_def policy_default_def demo_session_def make_summary_def)

end
