(* ===== verification/Dashboard.thy ===== *)
theory Dashboard
  imports Text_Report Async_Runner
begin

text \<open>
  The live dashboard of \<open>src/tui.rs\<close>: the frames it draws while it runs the cases one after the
  other and replays the gates of every event, the text of a frame, and the evidence rollup. The
  results of floating point operations and the clock are arguments (\<open>screen\<close>): how many of a
  bar's cells are filled, the percentage, the cell of an offset in the memory map, and the elapsed
  time at each frame. Sleeping leaves no trace.
\<close>

record screen =
  filled_cells :: "nat \<Rightarrow> nat \<Rightarrow> nat"
  percent_text :: "nat \<Rightarrow> nat \<Rightarrow> string"
  map_cell :: "u64 \<Rightarrow> u64 \<Rightarrow> nat"
  elapsed_text :: "nat \<Rightarrow> string"
  debug_paths :: "string list \<Rightarrow> string"

section \<open>Frames\<close>

text \<open>
  \<open>df_current_report\<close> is with the report whether it is the last of \<open>df_reports\<close> itself, which the code
  finds out by comparing addresses.
\<close>

record event_cursor =
  ec_event_index :: nat
  ec_gate_count :: nat

record draw_frame =
  df_reports :: "case_report list"
  df_current_index :: nat
  df_current_case :: "guest_case option"
  df_current_report :: "(case_report \<times> bool) option"
  df_cursor :: "event_cursor option"
  df_phase :: string

definition replay_frame ::
  "case_report list \<Rightarrow> nat \<Rightarrow> guest_case \<Rightarrow> case_report \<Rightarrow> nat \<Rightarrow> nat \<Rightarrow> draw_frame" where
  "replay_frame reports index c r event_index gate_count =
     \<lparr>df_reports = reports, df_current_index = index, df_current_case = Some c,
      df_current_report = Some (r, False),
      df_cursor = Some \<lparr>ec_event_index = event_index, ec_gate_count = gate_count\<rparr>,
      df_phase = ''replaying validation gates''\<rparr>"

definition replay_event ::
  "bool \<Rightarrow> case_report list \<Rightarrow> nat \<Rightarrow> guest_case \<Rightarrow> case_report \<Rightarrow> nat \<Rightarrow> import_event \<Rightarrow> draw_frame list" where
  "replay_event delay reports index c r event_index e =
     (let gate_count = max (length (ev_gates e)) 1 in
      if \<not> delay then [replay_frame reports index c r event_index gate_count]
      else map (replay_frame reports index c r event_index) [1..<Suc gate_count])"

definition replay_events ::
  "bool \<Rightarrow> case_report list \<Rightarrow> nat \<Rightarrow> guest_case \<Rightarrow> case_report \<Rightarrow> draw_frame list" where
  "replay_events delay reports index c r =
     concat (map (\<lambda>(i, e). replay_event delay reports index c r i e)
       (List.enumerate 0 (events (cr_telemetry r))))"

definition loading_frame :: "case_report list \<Rightarrow> nat \<Rightarrow> guest_case \<Rightarrow> draw_frame" where
  "loading_frame reports index c =
     \<lparr>df_reports = reports, df_current_index = index, df_current_case = Some c,
      df_current_report = None, df_cursor = None, df_phase = ''loading guest''\<rparr>"

definition captured_frame :: "case_report list \<Rightarrow> nat \<Rightarrow> guest_case \<Rightarrow> case_report \<Rightarrow> draw_frame" where
  "captured_frame reports index c r =
     \<lparr>df_reports = reports, df_current_index = index, df_current_case = Some c,
      df_current_report = Some (r, False), df_cursor = None, df_phase = ''host boundary captured''\<rparr>"

definition sealed_frame :: "case_report list \<Rightarrow> nat \<Rightarrow> guest_case \<Rightarrow> case_report \<Rightarrow> draw_frame" where
  "sealed_frame reports index c r =
     \<lparr>df_reports = reports @ [r], df_current_index = index, df_current_case = Some c,
      df_current_report = Some (r, True), df_cursor = None, df_phase = ''case sealed''\<rparr>"

definition complete_frame :: "case_report list \<Rightarrow> nat \<Rightarrow> draw_frame" where
  "complete_frame reports n =
     \<lparr>df_reports = reports, df_current_index = n, df_current_case = None,
      df_current_report = None, df_cursor = None, df_phase = ''complete''\<rparr>"

text \<open>The loop over the cases: frames and reports so far, \<open>None\<close> if a guest never returns.\<close>

fun dashboard_loop ::
  "run_env \<Rightarrow> backend \<Rightarrow> policy \<Rightarrow> bool \<Rightarrow> guest_case list \<Rightarrow> nat \<Rightarrow> draw_frame list \<times> case_report list \<Rightarrow>
     (draw_frame list \<times> case_report list) option" where
  "dashboard_loop env b p delay [] index acc = Some acc"
| "dashboard_loop env b p delay (c # cs) index (frames, reports) =
     (case run_case (re_engine env) (re_timings env index) c b p of
        None \<Rightarrow> None
      | Some r \<Rightarrow>
          dashboard_loop env b p delay cs (Suc index)
            (frames @ [loading_frame reports index c, captured_frame reports index c r] @
               replay_events delay reports index c r @ [sealed_frame reports index c r],
             reports @ [r]))"

definition dashboard_frames ::
  "run_env \<Rightarrow> guest_case list \<Rightarrow> backend \<Rightarrow> policy \<Rightarrow> bool \<Rightarrow> (draw_frame list \<times> case_report list) option" where
  "dashboard_frames env cs b p delay =
     map_option (\<lambda>(frames, reports). (frames @ [complete_frame reports (length cs)], reports))
       (dashboard_loop env b p delay cs 0 ([], []))"

section \<open>The rollup\<close>

record rollup =
  ru_total_events :: nat
  ru_allows :: nat
  ru_denies :: nat
  ru_ticks :: u32
  ru_compile_us :: nat
  ru_instantiate_us :: nat
  ru_run_us :: nat

definition rollup_default :: rollup where
  "rollup_default = \<lparr>ru_total_events = 0, ru_allows = 0, ru_denies = 0, ru_ticks = 0, ru_compile_us = 0,
     ru_instantiate_us = 0, ru_run_us = 0\<rparr>"

definition rollup_add :: "case_report \<Rightarrow> rollup \<Rightarrow> rollup" where
  "rollup_add r u =
     u\<lparr>ru_total_events := ru_total_events u + length (events (cr_telemetry r)),
       ru_denies := ru_denies u + length (filter (\<lambda>e. ev_result_code e \<noteq> OK) (events (cr_telemetry r))),
       ru_allows := ru_allows u + length (filter (\<lambda>e. ev_result_code e = OK) (events (cr_telemetry r))),
       ru_ticks := saturating_add (ru_ticks u) (ticks_seen (cr_telemetry r)),
       ru_compile_us := ru_compile_us u + cr_compile_us r,
       ru_instantiate_us := ru_instantiate_us u + cr_instantiate_us r,
       ru_run_us := ru_run_us u + cr_run_us r\<rparr>"

definition frame_rollup :: "case_report list \<Rightarrow> (case_report \<times> bool) option \<Rightarrow> rollup" where
  "frame_rollup reports current =
     (let u = fold rollup_add reports rollup_default in
      case current of
        Some (r, already_counted) \<Rightarrow> if \<not> already_counted then rollup_add r u else u
      | None \<Rightarrow> u)"

section \<open>The text of a frame\<close>

definition truncate_text :: "string \<Rightarrow> nat \<Rightarrow> string" where
  "truncate_text value max_chars =
     (if length (utf8_chars value) \<le> max_chars then value
      else concat (take (max_chars - 3) (utf8_chars value)) @ ''...'')"

definition fmt_ptr :: "u32 option \<Rightarrow> string" where
  "fmt_ptr v = (case v of Some x \<Rightarrow> ''0x'' @ hex8 x | None \<Rightarrow> ''-'')"

definition fmt_value :: "u32 option \<Rightarrow> string" where
  "fmt_value v = (case v of Some x \<Rightarrow> show_u32 x | None \<Rightarrow> ''-'')"

definition dash_bold :: "bool \<Rightarrow> string \<Rightarrow> string" where
  "dash_bold color text = (if color then ansi_bold text else text)"

definition dash_badge :: "bool \<Rightarrow> string \<Rightarrow> string \<Rightarrow> string" where
  "dash_badge color code text = (if color then ansi_badge code text else ''[ '' @ text @ '' ]'')"

definition dash_rule :: "bool \<Rightarrow> string \<Rightarrow> string" where
  "dash_rule color label = paint color GRAY (replicate 18 (CHR ''-'')) @ '' '' @ paint color WHITE label"

definition decision_badge :: "case_report \<Rightarrow> bool \<Rightarrow> string" where
  "decision_badge r color = (if passed r then paint color GREEN ''PASS'' else paint color RED ''FAIL'')"

definition cells :: "bool \<Rightarrow> string \<Rightarrow> bool list \<Rightarrow> string" where
  "cells color code marks =
     concat (map (\<lambda>m. if m then paint color code ''#'' else paint color GRAY ''.'') marks)"

definition progress_bar :: "screen \<Rightarrow> string \<Rightarrow> nat \<Rightarrow> nat \<Rightarrow> nat \<Rightarrow> bool \<Rightarrow> string" where
  "progress_bar sc label width n_done n_total color =
     pad_right 7 label @ '' ['' @ cells color GREEN (map (\<lambda>i. i < filled_cells sc n_done n_total) [0..<width]) @ ''] '' @
     pad_left 2 (show_nat n_done) @ ''/'' @ pad_right 2 (show_nat n_total) @ '' '' @
     percent_text sc n_done n_total @ ''%''"

definition BAR_WIDTH :: nat where "BAR_WIDTH = 44"
definition MEMORY_WIDTH :: nat where "MEMORY_WIDTH = 58"
definition DETAIL_WIDTH :: nat where "DETAIL_WIDTH = 108"

definition dash_header ::
  "screen \<Rightarrow> policy \<Rightarrow> backend \<Rightarrow> bool \<Rightarrow> nat \<Rightarrow> guest_case list \<Rightarrow> case_report list \<Rightarrow> string \<Rightarrow> string" where
  "dash_header sc p b color n cs reports phase =
     (let completed = length reports; n_failed = failed_count reports in
      line (dash_bold color ''Wasmer hostile-guest security cockpit'' @ '' '' @ dash_badge color CYAN ''LIVE'' @
        '' '' @ paint color GRAY (''phase='' @ phase)) @
      line (''crate wasmer=6.1.0 | backend='' @ backend_name b @ '' | cases='' @ show_nat (length cs) @
        '' | elapsed='' @ elapsed_text sc n @ ''s | passed='' @
        paint color GREEN (show_nat (passed_count reports)) @ '' failed='' @
        paint color (if n_failed = 0 then GREEN else RED) (show_nat n_failed)) @
      line (''policy packet<='' @ show_u32 (max_packet_len p) @ '' cap_string<='' @
        show_u32 (max_cap_string_len p) @ '' alloc<='' @ show_u32 (max_alloc p) @ '' fuel='' @
        show_u32 (initial_fuel p) @ '' memory_pages<='' @ show_u32 (max_memory_pages p) @
        '' tick_import='' @ show_bool (require_tick_import p) @ '' timeout_ms='' @
        show_nat (unat (supervisor_timeout_ms p)) @ '' allowed_paths='' @ debug_paths sc (allowed_paths p)) @
      line (progress_bar sc ''corpus'' BAR_WIDTH completed (length cs) color) @
      line (dash_rule color ''hostile corpus''))"

definition case_status ::
  "bool \<Rightarrow> case_report list \<Rightarrow> nat \<Rightarrow> (case_report \<times> bool) option \<Rightarrow> nat \<Rightarrow> string" where
  "case_status color reports current_index current index =
     (if index < length reports then
        (if passed (reports ! index) then paint color GREEN ''PASS'' else paint color RED ''FAIL'')
      else if index = current_index then
        (case current of Some (r, _) \<Rightarrow> decision_badge r color | None \<Rightarrow> paint color YELLOW ''RUN '')
      else paint color GRAY ''WAIT'')"

definition case_list ::
  "bool \<Rightarrow> guest_case list \<Rightarrow> case_report list \<Rightarrow> nat \<Rightarrow> (case_report \<times> bool) option \<Rightarrow> string" where
  "case_list color cs reports current_index current =
     concat (map (\<lambda>(index, c).
       line (paint color GRAY (pad_zero 2 (show_nat (index + 1))) @ '' '' @
         (if index = current_index then ''>'' else '' '') @ '' '' @ pad_right 24 (gc_name c) @ '' '' @
         pad_right 10 (gc_category c) @ '' '' @ pad_right 8 (gc_severity c) @ '' '' @
         case_status color reports current_index current index))
       (List.enumerate 0 cs))"

definition gate_pipeline :: "gate list \<Rightarrow> nat \<Rightarrow> bool \<Rightarrow> string" where
  "gate_pipeline gs visible color =
     (if gs = [] then paint color GRAY ''no gates''
      else join '' -> '' (map (\<lambda>(index, g).
        (case (if \<not> index < visible then (GRAY, ''....'') else if gate_passed g then (GREEN, '' ok '')
               else (RED, ''fail'')) of
           (code, mark) \<Rightarrow> paint color code (''['' @ mark @ '' '' @ gate_name g @ '']'')))
        (List.enumerate 0 gs)))"

text \<open>\<open>map_offset\<close>: the guard of the code, and the cell the floating point ratio rounds to.\<close>

definition map_offset :: "screen \<Rightarrow> u64 \<Rightarrow> u64 \<Rightarrow> nat" where
  "map_offset sc offset memory_size = (if memory_size = 0 then 0 else map_cell sc offset memory_size)"

definition map_marks :: "screen \<Rightarrow> import_event \<Rightarrow> u64 \<Rightarrow> bool list" where
  "map_marks sc e memory_size =
     (case (ev_ptr e, ev_len e) of
        (Some ptr, Some len) \<Rightarrow>
          (let start = map_offset sc (ucast ptr) memory_size;
               end_value = ucast ptr + ucast len;
               mark_end = map_offset sc (min end_value memory_size) memory_size;
               mark_end = min (max mark_end (start + 1)) MEMORY_WIDTH
           in map (\<lambda>i. start \<le> i \<and> i < mark_end) [0..<MEMORY_WIDTH])
      | _ \<Rightarrow> replicate MEMORY_WIDTH False)"

definition memory_map :: "screen \<Rightarrow> import_event \<Rightarrow> bool \<Rightarrow> string" where
  "memory_map sc e color =
     (case ev_memory_size e of
        None \<Rightarrow> ''mem    '' @ paint color GRAY ''host-only import; no guest memory read''
      | Some memory_size \<Rightarrow> ''mem    0x00000000 ['' @ cells color CYAN (map_marks sc e memory_size) @ ''] 0x'' @
          hex_pad 8 (min (unat memory_size) (2 ^ 32 - 1)))"

definition event_panel :: "screen \<Rightarrow> bool \<Rightarrow> import_event \<Rightarrow> nat \<Rightarrow> string" where
  "event_panel sc color e gate_limit =
     (let code = (if ev_result_code e = OK then GREEN else RED) in
      line (''import '' @ paint color WHITE (ev_import e) @ '' => '' @ paint color code (decision e) @ '' '' @
        paint color code (code_name (ev_result_code e)) @ '' in '' @ show_nat (ev_elapsed_us e) @ ''us'') @
      line (''args   ptr='' @ fmt_ptr (ev_ptr e) @ '' len='' @ fmt_value (ev_len e) @ '' align='' @
        fmt_value (ev_align e) @ '' mem='' @
        (case ev_memory_size e of Some v \<Rightarrow> show_nat (unat v) | None \<Rightarrow> ''-'')) @
      line (memory_map sc e color) @
      line (''gates  '' @ gate_pipeline (ev_gates e) gate_limit color) @
      line (''trace  '' @ truncate_text (ev_detail e) DETAIL_WIDTH))"

text \<open>\<open>selected_event\<close> and \<open>event_index\<close>: the event the cursor names, else the last, with its index.\<close>

definition selected_event :: "case_report \<Rightarrow> event_cursor option \<Rightarrow> (nat \<times> import_event) option" where
  "selected_event r cursor =
     (let es = events (cr_telemetry r) in
      case cursor of
        Some c \<Rightarrow> if ec_event_index c < length es then Some (ec_event_index c, es ! ec_event_index c)
                  else if es = [] then None else Some (length es - 1, last es)
      | None \<Rightarrow> if es = [] then None else Some (length es - 1, last es))"

definition current_panel ::
  "screen \<Rightarrow> bool \<Rightarrow> guest_case option \<Rightarrow> (case_report \<times> bool) option \<Rightarrow> event_cursor option \<Rightarrow> string" where
  "current_panel sc color current_case current cursor =
     line (dash_rule color ''current boundary'') @
     (case current_case of
        None \<Rightarrow> line (paint color GREEN ''all hostile guests completed'')
      | Some c \<Rightarrow>
          line (dash_bold color (gc_name c) @ '' '' @
            paint color GRAY (gc_category c @ '' / '' @ gc_severity c) @ '' expected '' @
            paint color CYAN (code_name (gc_expected_code c))) @
          line (''attack  '' @ truncate_text (gc_description c) DETAIL_WIDTH) @
          line (''ttp     '' @ truncate_text (gc_stage c) 40 @ '' / '' @ truncate_text (gc_ttp c) 54) @
          line (''control '' @ truncate_text (gc_control c) DETAIL_WIDTH) @
          line (''detect  '' @ truncate_text (gc_detection c) DETAIL_WIDTH) @
          (case current of
             None \<Rightarrow>
               line ''runtime compiling WAT -> Wasmer module -> instance -> guest run() under host imports'' @
               line ''boundary pending: every guest pointer, length, alignment, and capability string is hostile''
           | Some (r, _) \<Rightarrow>
               line (''runtime compile='' @ show_nat (cr_compile_us r) @ ''us instantiate='' @
                 show_nat (cr_instantiate_us r) @ ''us run='' @ show_nat (cr_run_us r) @ ''us wasm='' @
                 show_nat (cr_wasm_bytes r) @ ''B memory_pages '' @ show_u32 (snap_pages (cr_memory_before r)) @
                 ''->'' @ show_u32 (snap_pages (cr_memory_after r)) @ '' ('' @
                 show_signed (delta_pages (cr_memory_before r) (cr_memory_after r)) @ '')'') @
               (case cr_host_error r of
                  Some err \<Rightarrow> line (''host_error '' @ paint color RED (truncate_text err DETAIL_WIDTH))
                | None \<Rightarrow>
                    (case selected_event r cursor of
                       None \<Rightarrow> line ''host boundary no imports were logged''
                     | Some (i, e) \<Rightarrow> event_panel sc color e
                         (case cursor of
                            Some k \<Rightarrow> if ec_event_index k = i then ec_gate_count k else length (ev_gates e)
                          | None \<Rightarrow> length (ev_gates e))))))"

definition aggregate_panel :: "bool \<Rightarrow> case_report list \<Rightarrow> (case_report \<times> bool) option \<Rightarrow> string" where
  "aggregate_panel color reports current =
     (let u = frame_rollup reports current in
      line (dash_rule color ''evidence rollup'') @
      line (''imports_logged='' @ paint color CYAN (show_nat (ru_total_events u)) @ '' allows='' @
        paint color GREEN (show_nat (ru_allows u)) @ '' denies='' @ paint color RED (show_nat (ru_denies u)) @
        '' ticks_seen='' @ paint color YELLOW (show_u32 (ru_ticks u))) @
      line (''time_us compile='' @ paint color CYAN (show_nat (ru_compile_us u)) @ '' instantiate='' @
        paint color MAGENTA (show_nat (ru_instantiate_us u)) @ '' run='' @
        paint color GREEN (show_nat (ru_run_us u))))"

definition draw :: "screen \<Rightarrow> policy \<Rightarrow> backend \<Rightarrow> bool \<Rightarrow> guest_case list \<Rightarrow> nat \<Rightarrow> draw_frame \<Rightarrow> string" where
  "draw sc p b color cs n f =
     esc_seq ''[H'' @ dash_header sc p b color n cs (df_reports f) (df_phase f) @
     case_list color cs (df_reports f) (df_current_index f) (df_current_report f) @
     current_panel sc color (df_current_case f) (df_current_report f) (df_cursor f) @
     aggregate_panel color (df_reports f) (df_current_report f) @
     concat (replicate 4 (line (esc_seq ''[K'')))"

definition print_final_summary :: "case_report list \<Rightarrow> policy \<Rightarrow> bool \<Rightarrow> string" where
  "print_final_summary reports p color =
     line (paint color (if failed_count reports = 0 then GREEN else RED) (summary_line reports)) @
     line (''policy: packet<='' @ show_u32 (max_packet_len p) @ '' cap_string<='' @
       show_u32 (max_cap_string_len p) @ '' alloc<='' @ show_u32 (max_alloc p) @ '' fuel='' @
       show_u32 (initial_fuel p) @ '' memory_pages<='' @ show_u32 (max_memory_pages p) @
       '' tick_import='' @ show_bool (require_tick_import p) @ '' timeout_ms='' @
       show_nat (unat (supervisor_timeout_ms p)))"

text \<open>\<open>run_security_dashboard\<close>: the text it prints and the reports it returns.\<close>

definition run_security_dashboard ::
  "screen \<Rightarrow> run_env \<Rightarrow> guest_case list \<Rightarrow> backend \<Rightarrow> policy \<Rightarrow> nat \<Rightarrow> bool \<Rightarrow> (string \<times> case_report list) option" where
  "run_security_dashboard sc env cs b p delay_ms color =
     map_option (\<lambda>(frames, reports).
       (esc_seq ''[2J'' @ esc_seq ''[?25l'' @
        concat (map (\<lambda>(n, f). draw sc p b color cs n f) (List.enumerate 0 frames)) @
        line (esc_seq ''[?25h'' @ RESET) @ print_final_summary reports p color, reports))
     (dashboard_frames env cs b p (0 < delay_ms))"

section \<open>The dashboard shows the run\<close>

definition event_shown :: "draw_frame list \<Rightarrow> case_report \<Rightarrow> nat \<Rightarrow> bool" where
  "event_shown frames r i \<longleftrightarrow> list_ex (\<lambda>f. df_current_report f = Some (r, False) \<and>
     df_cursor f = Some \<lparr>ec_event_index = i,
       ec_gate_count = max (length (ev_gates (events (cr_telemetry r) ! i))) 1\<rparr>) frames"

definition all_shown :: "draw_frame list \<Rightarrow> case_report \<Rightarrow> bool" where
  "all_shown frames r \<longleftrightarrow> list_all (event_shown frames r) [0..<length (events (cr_telemetry r))]"

definition sequential :: "backend \<Rightarrow> config" where
  "sequential b = config_default\<lparr>cf_backend := b\<rparr>"

lemma event_shown_append: "event_shown (xs @ ys) r i \<longleftrightarrow> event_shown xs r i \<or> event_shown ys r i"
  by (simp add: event_shown_def)

lemma all_shown_append: "all_shown xs r \<Longrightarrow> all_shown (xs @ ys) r" "all_shown ys r \<Longrightarrow> all_shown (xs @ ys) r"
  by (auto simp: all_shown_def event_shown_append list_all_iff)

lemma replay_event_last:
  "replay_frame reports index c r i (max (length (ev_gates e)) 1) \<in> set (replay_event delay reports index c r i e)"
  by (auto simp: replay_event_def Let_def)

lemma replay_events_shown: "all_shown (replay_events delay reports index c r) r"
proof -
  have "event_shown (replay_events delay reports index c r) r i" if "i < length (events (cr_telemetry r))" for i
  proof -
    let ?es = "events (cr_telemetry r)"
    have "(i, ?es ! i) \<in> set (List.enumerate 0 ?es)"
      using that by (simp add: in_set_enumerate_eq)
    then have "replay_frame reports index c r i (max (length (ev_gates (?es ! i))) 1) \<in>
        set (replay_events delay reports index c r)"
      using replay_event_last unfolding replay_events_def by fastforce
    then show ?thesis
      unfolding event_shown_def list_ex_iff by (rule bexI [rotated]) (simp add: replay_frame_def)
  qed
  then show ?thesis by (simp add: all_shown_def list_all_iff)
qed

lemma replay_event_reports: "f \<in> set (replay_event delay reports index c r i e) \<Longrightarrow> df_reports f = reports"
  by (auto simp: replay_event_def Let_def replay_frame_def split: if_splits)

lemma replay_events_reports: "f \<in> set (replay_events delay reports index c r) \<Longrightarrow> df_reports f = reports"
  by (auto simp: replay_events_def dest: replay_event_reports)

lemma run_sequential:
  "run_selected_case env k (sequential b) c p = run_case (re_engine env) (re_timings env k) c b p"
  by (simp add: run_selected_case_def sequential_def config_default_def)

lemma dashboard_loop_extends:
  "dashboard_loop env b p delay cs k (frames, reports) = Some (frames', reports') \<Longrightarrow>
   \<exists>new. frames' = frames @ new \<and> prefix reports reports' \<and>
     list_all (\<lambda>f. prefix (df_reports f) reports') new \<and>
     list_all (all_shown new) (drop (length reports) reports') \<and>
     collect_round env (sequential b) p k cs reports = Some reports'"
proof (induction cs arbitrary: k frames reports)
  case (Cons c cs)
  obtain r where r: "run_case (re_engine env) (re_timings env k) c b p = Some r"
    using Cons.prems by (auto split: option.splits)
  define step where "step = [loading_frame reports k c, captured_frame reports k c r] @
      replay_events delay reports k c r @ [sealed_frame reports k c r]"
  obtain new where new: "frames' = (frames @ step) @ new" "prefix (reports @ [r]) reports'"
    "list_all (\<lambda>f. prefix (df_reports f) reports') new"
    "list_all (all_shown new) (drop (length (reports @ [r])) reports')"
    "collect_round env (sequential b) p (Suc k) cs (reports @ [r]) = Some reports'"
  proof -
    have "dashboard_loop env b p delay cs (Suc k) (frames @ step, reports @ [r]) = Some (frames', reports')"
      using Cons.prems r by (simp add: step_def)
    from Cons.IH [OF this] show thesis using that by blast
  qed
  have shown: "all_shown step r"
    unfolding step_def by (rule all_shown_append(2), rule all_shown_append(1), rule replay_events_shown)
  obtain rest where rest: "reports' = reports @ r # rest"
    using new(2) by (auto simp: prefix_def)
  have "list_all (\<lambda>f. prefix (df_reports f) reports') step"
    by (auto simp: step_def rest loading_frame_def captured_frame_def sealed_frame_def list_all_iff
        dest: replay_events_reports)
  moreover have "list_all (all_shown (step @ new)) (drop (length reports) reports')"
    using shown new(4) by (auto simp: rest list_all_iff intro: all_shown_append)
  moreover have "collect_round env (sequential b) p k (c # cs) reports = Some reports'"
    using new(5) r by (simp add: run_sequential)
  ultimately show ?case using new(1,3) rest by (intro exI [of _ "step @ new"]) auto
qed auto

text \<open>
  C39. The dashboard is a faithful view of the run. Its reports are those of the sequential
  collection in the process, every frame shows a prefix of them, the last frame shows all of
  them, and every event of every report is replayed up to its last gate.
\<close>

theorem dashboard_shows_run:
  assumes "dashboard_frames env cs b p delay = Some (frames, reports)"
  shows "collect_reports env (sequential b) cs p = Some reports \<and>
    list_all (\<lambda>f. prefix (df_reports f) reports) frames \<and> list_all (all_shown frames) reports \<and>
    last frames = complete_frame reports (length cs)"
proof -
  obtain fs where fs: "dashboard_loop env b p delay cs 0 ([], []) = Some (fs, reports)"
    "frames = fs @ [complete_frame reports (length cs)]"
    using assms by (auto simp: dashboard_frames_def)
  from dashboard_loop_extends [OF fs(1)]
  have "list_all (\<lambda>f. prefix (df_reports f) reports) fs" "list_all (all_shown fs) reports"
    "collect_round env (sequential b) p 0 cs [] = Some reports" by auto
  moreover have "cf_repeat (sequential b) = Suc 0" by (simp add: sequential_def config_default_def)
  ultimately show ?thesis using fs(2)
    by (auto simp: collect_reports_def complete_frame_def list_all_iff intro: all_shown_append)
qed

section \<open>The rollup adds up\<close>

lemma rollup_adds_up:
  "ru_allows (fold rollup_add rs u) + ru_denies (fold rollup_add rs u) + ru_total_events u =
     ru_total_events (fold rollup_add rs u) + ru_allows u + ru_denies u"
proof (induction rs arbitrary: u)
  case (Cons r rs)
  have split: "length (filter (\<lambda>e. ev_result_code e = OK) es) + length (filter (\<lambda>e. ev_result_code e \<noteq> OK) es) = length es"
    for es by (rule sum_length_filter_compl)
  have "ru_allows (rollup_add r u) + ru_denies (rollup_add r u) + ru_total_events u =
      ru_total_events (rollup_add r u) + ru_allows u + ru_denies u"
    using split [of "events (cr_telemetry r)"] by (simp add: rollup_add_def)
  then show ?case using Cons [of "rollup_add r u"] by simp
qed simp

lemma frame_rollup_complete:
  "ru_allows (frame_rollup rs None) + ru_denies (frame_rollup rs None) = ru_total_events (frame_rollup rs None)"
  using rollup_adds_up [of rs rollup_default] by (simp add: frame_rollup_def rollup_default_def)

text \<open>The memory map always marks a cell of a range, if the ratio rounds to a cell of the map.\<close>

lemma memory_map_marks:
  assumes "ev_ptr e = Some ptr" and "ev_len e = Some len"
    and "\<And>offset size. map_cell sc offset size < MEMORY_WIDTH"
  shows "length (map_marks sc e memory_size) = MEMORY_WIDTH \<and>
    map_marks sc e memory_size ! map_offset sc (ucast ptr) memory_size"
proof -
  have "map_offset sc x memory_size < MEMORY_WIDTH" for x
    using assms(3) by (simp add: map_offset_def MEMORY_WIDTH_def)
  then show ?thesis using assms(1,2) by (simp add: map_marks_def Let_def)
qed

definition static_env :: run_env where
  "static_env = failing_env\<lparr>re_engine := engine_of (module_running [(''host'', ''tick'')] 1 (Done 0)),
     re_timings := \<lambda>_. no_timings\<rparr>"

lemma dashboard_shows_run_witness:
  "\<exists>frames r. dashboard_frames static_env [demo_case StaticAudit] Cranelift policy_default True = Some (frames, [r]) \<and>
     length (events (cr_telemetry r)) = 1 \<and> event_shown frames r 0"
proof -
  obtain r where r: "run_case (re_engine static_env) (re_timings static_env 0) (demo_case StaticAudit) Cranelift policy_default = Some r"
    "length (events (cr_telemetry r)) = 1"
    by (simp add: static_env_def run_case_def run_case_compiled demo_case_def audit_denial_report_def)
  then obtain frames where
    f: "dashboard_frames static_env [demo_case StaticAudit] Cranelift policy_default True = Some (frames, [r])"
    by (simp add: dashboard_frames_def)
  from dashboard_shows_run [OF this] have "all_shown frames r" by simp
  then show ?thesis using f r(2) by (auto simp: all_shown_def)
qed

end
