(* ===== verification/Charts.thy ===== *)
theory Charts
  imports Session "HOL-Library.Product_Lexorder" "HOL-Library.Multiset"
begin

text \<open>
  The bars and sparklines of \<open>src/visual.rs\<close> and the counting of \<open>src/main.rs\<close> behind them. What the
  code computes in floating point is an argument (\<open>charts\<close>): the filled cells of a bar, the level of
  a sparkline's column, and a time in whole milliseconds.
\<close>

record charts =
  bar_filled :: "nat \<Rightarrow> nat \<Rightarrow> nat \<Rightarrow> nat"
  spark_level :: "nat \<Rightarrow> nat \<Rightarrow> nat"
  whole_ms :: "nat \<Rightarrow> nat"

definition bar :: "charts \<Rightarrow> nat \<Rightarrow> nat \<Rightarrow> nat \<Rightarrow> bool \<Rightarrow> string" where
  "bar ch value limit width color =
     (let width = max width 1; limit = max limit 1; filled = bar_filled ch (min value limit) limit width
      in concat (map (\<lambda>i. if i < filled then paint color GREEN ''#'' else paint color GRAY ''.'') [0..<width]))"

definition bar_line :: "charts \<Rightarrow> string \<Rightarrow> nat \<Rightarrow> nat \<Rightarrow> nat \<Rightarrow> bool \<Rightarrow> string" where
  "bar_line ch label value limit width color =
     pad_right 18 label @ '' ['' @ bar ch value limit width color @ ''] '' @ show_nat value"

definition spark_chars :: string where
  "spark_chars = '' .:-=+*#%@''"

definition sparkline :: "charts \<Rightarrow> nat list \<Rightarrow> nat \<Rightarrow> bool \<Rightarrow> string" where
  "sparkline ch values width color =
     (if values = [] then paint color GRAY ''no data''
      else (let limit = max (Max (set values)) 1; buckets = min (max width (length values)) 64
            in map (\<lambda>v. spark_chars ! spark_level ch v limit) (take buckets values)))"

definition sorted_desc_counts :: "(string \<times> nat) list \<Rightarrow> (string \<times> nat) list" where
  "sorted_desc_counts = sort_key (\<lambda>(label, n). (- int n, label))"

text \<open>\<open>counts_by\<close>: a map with ordered keys counts the labels.\<close>

definition counts_by :: "string list \<Rightarrow> (string \<times> nat) list" where
  "counts_by labels =
     sorted_desc_counts (map (\<lambda>label. (label, count_list labels label)) (sort (remdups labels)))"

section \<open>Counts are exact\<close>

lemma set_counts_by: "set (counts_by labels) = (\<lambda>label. (label, count_list labels label)) ` set labels"
  by (simp add: counts_by_def sorted_desc_counts_def)

lemma mset_counts_by:
  "mset (map f (counts_by labels)) = mset (map (\<lambda>label. f (label, count_list labels label)) (remdups labels))"
proof -
  have "mset (counts_by labels) = mset (map (\<lambda>label. (label, count_list labels label)) (remdups labels))"
    by (simp add: counts_by_def sorted_desc_counts_def)
  then have "image_mset f (mset (counts_by labels)) =
      image_mset f (mset (map (\<lambda>label. (label, count_list labels label)) (remdups labels)))" by (rule arg_cong)
  then show ?thesis by (simp add: image_mset.compositionality comp_def)
qed

lemma distinct_counts_by: "distinct (map fst (counts_by labels))"
  using mset_counts_by [of fst labels] mset_eq_imp_distinct_iff by fastforce

lemma counts_by_total: "sum_list (map snd (counts_by labels)) = length labels"
proof -
  have "sum_list (map snd (counts_by labels)) = sum_list (map (count_list labels) (remdups labels))"
    using mset_counts_by [of snd labels] by (simp flip: sum_mset_sum_list)
  also have "\<dots> = (\<Sum>x\<in>set labels. count_list labels x)"
    by (simp add: sum_list_distinct_conv_sum_set)
  also have "\<dots> = length labels" by (rule sum_count_set) simp_all
  finally show ?thesis .
qed

lemma counts_by_sorted: "sorted (map (\<lambda>(label, n). (- int n, label)) (counts_by labels))"
  by (simp add: counts_by_def sorted_desc_counts_def)

end
