(* ===== verification/Process.thy ===== *)
theory Process
  imports Charts Dashboard
begin

text \<open>
  The process the harness runs as: what it has written to its two streams, what is left of its
  input (its lines, \<open>None\<close> a read that fails), the disk, and how many steps that read the clock or
  run guests it has made. A program is a function of that state. It may never return (\<open>None\<close>), leave the process, panic, or go on with a
  value. What the runtime's panic hook writes to standard error is left out.
\<close>

section \<open>State\<close>

record proc =
  p_out :: string
  p_err :: string
  p_in :: "string option list"
  p_disk :: disk
  p_step :: nat

datatype halt = Exit i32 | Panicked

type_synonym 'a io = "proc \<Rightarrow> ((halt + 'a) \<times> proc) option"

definition io_return :: "'a \<Rightarrow> 'a io" where
  "io_return x s = Some (Inr x, s)"

definition io_bind :: "'a io \<Rightarrow> ('a \<Rightarrow> 'b io) \<Rightarrow> 'b io" where
  "io_bind m f s =
     (case m s of
        None \<Rightarrow> None
      | Some (Inl h, s') \<Rightarrow> Some (Inl h, s')
      | Some (Inr x, s') \<Rightarrow> f x s')"

definition io_then :: "'a io \<Rightarrow> 'b io \<Rightarrow> 'b io" where
  "io_then m k = io_bind m (\<lambda>_. k)"

definition halt_with :: "halt \<Rightarrow> 'a io" where
  "halt_with h s = Some (Inl h, s)"

section \<open>Streams\<close>

definition print_str :: "string \<Rightarrow> unit io" where
  "print_str t s = Some (Inr (), s\<lparr>p_out := p_out s @ t\<rparr>)"

definition println :: "string \<Rightarrow> unit io" where
  "println t = print_str (line t)"

definition eprintln :: "string \<Rightarrow> unit io" where
  "eprintln t s = Some (Inr (), s\<lparr>p_err := p_err s @ line t\<rparr>)"

definition print_lines :: "string list \<Rightarrow> unit io" where
  "print_lines ts = print_str (concat (map line ts))"

text \<open>\<open>std::process::exit\<close> after messages on standard error.\<close>

definition fail_with :: "i32 \<Rightarrow> string list \<Rightarrow> 'a io" where
  "fail_with code ts s = Some (Inl (Exit code), s\<lparr>p_err := p_err s @ concat (map line ts)\<rparr>)"

section \<open>The disk\<close>

definition read_disk :: "faults \<Rightarrow> string \<Rightarrow> disk \<Rightarrow> string \<Rightarrow> string + string" where
  "read_disk fs not_found d path =
     (case read_fault fs path of
        Some err \<Rightarrow> Inl err
      | None \<Rightarrow> (case d path of Some contents \<Rightarrow> Inr contents | None \<Rightarrow> Inl not_found))"

definition write_disk :: "faults \<Rightarrow> string \<Rightarrow> string \<Rightarrow> (string + unit) io" where
  "write_disk fs path contents s =
     (case write_fault fs path of
        Some (err, left) \<Rightarrow> Some (Inr (Inl err), s\<lparr>p_disk := (p_disk s)(path := left)\<rparr>)
      | None \<Rightarrow> Some (Inr (Inr ()), s\<lparr>p_disk := (p_disk s)(path \<mapsto> contents)\<rparr>))"

section \<open>Rules\<close>

text \<open>
  The equations that run a program step by step, and the inversion of a bind that did not halt.
\<close>

named_theorems run_io

lemma io_bind_return [run_io]: "io_bind (io_return x) f = f x"
  by (simp add: fun_eq_iff io_bind_def io_return_def)

lemma io_bind_halt [run_io]: "io_bind (halt_with h) f = halt_with h"
  by (simp add: fun_eq_iff io_bind_def halt_with_def)

lemma io_bind_fail [run_io]: "io_bind (fail_with c ts) f = fail_with c ts"
  by (simp add: fun_eq_iff io_bind_def fail_with_def)

lemma io_bind_assoc: "io_bind (io_bind m f) g = io_bind m (\<lambda>x. io_bind (f x) g)"
  by (simp add: fun_eq_iff io_bind_def split: option.split sum.split)

lemma io_bind_print [run_io]: "io_bind (print_str t) f s = f () (s\<lparr>p_out := p_out s @ t\<rparr>)"
  by (simp add: io_bind_def print_str_def)

lemma io_bind_eprintln [run_io]: "io_bind (eprintln t) f s = f () (s\<lparr>p_err := p_err s @ line t\<rparr>)"
  by (simp add: io_bind_def eprintln_def)

lemma io_bind_Some:
  "io_bind m f s = Some (r, s') \<longleftrightarrow>
     (\<exists>h. m s = Some (Inl h, s') \<and> r = Inl h) \<or> (\<exists>x s1. m s = Some (Inr x, s1) \<and> f x s1 = Some (r, s'))"
  by (auto simp: io_bind_def split: option.split sum.split)

lemma io_bind_InrE:
  assumes "io_bind m f s = Some (Inr y, s')"
  obtains x s1 where "m s = Some (Inr x, s1)" "f x s1 = Some (Inr y, s')"
  using assms by (auto simp: io_bind_Some)

end
