(* ===== verification/Cli.thy ===== *)
theory Cli
  imports Process
begin

text \<open>
  The entry point of \<open>src/main.rs\<close> without the interactive menu: loading the policy, choosing
  cases, the worker, the reports and the exit status. What the process finds around it is an
  argument (\<open>world\<close>): its command line, the embedded guests, the faults of the disk, the corpus
  directories, the installed tools, the engine and the scheduler of each run, the clock, and
  whether the runtime starts.
\<close>

record world =
  w_args :: "string list"
  w_guest_file :: "string \<Rightarrow> string"
  w_faults :: faults
  w_not_found :: string
  w_corpus :: "string \<Rightarrow> corpus_fs"
  w_first_key :: "string list \<Rightarrow> string"
  w_tools :: terminal
  w_screen :: screen
  w_charts :: charts
  w_runs :: "nat \<Rightarrow> run_env"
  w_pick :: "nat \<Rightarrow> nat \<Rightarrow> nat"
  w_parallelism :: "nat option"
  w_overflow_checks :: bool
  w_now :: "nat \<Rightarrow> nat"
  w_is_terminal :: bool
  w_runtime_fault :: "string option"
  w_tui_fault :: "string option"
  w_join_error :: string

section \<open>Policy and cases\<close>

definition override_policy :: "config \<Rightarrow> policy \<Rightarrow> policy" where
  "override_policy cf p =
     (let p = (if cf_allow_unmetered cf then p\<lparr>require_tick_import := False\<rparr> else p);
          p = (case cf_timeout_ms cf of Some t \<Rightarrow> p\<lparr>supervisor_timeout_ms := t\<rparr> | None \<Rightarrow> p)
      in if cf_worker_execute_static cf then p\<lparr>require_tick_import := False\<rparr> else p)"

definition load_policy :: "world \<Rightarrow> config \<Rightarrow> policy io" where
  "load_policy w cf s =
     (case cf_policy_path cf of
        Some path \<Rightarrow>
          (case policy_from_file (read_disk (w_faults w) (w_not_found w) (p_disk s)) path of
             Inr p \<Rightarrow> io_return (override_policy cf p) s
           | Inl err \<Rightarrow> fail_with 2 [''failed to load policy: '' @ err] s)
      | None \<Rightarrow> io_return (override_policy cf policy_default) s)"

definition choose_external_cases :: "world \<Rightarrow> string \<Rightarrow> string option \<Rightarrow> guest_case list io" where
  "choose_external_cases w dir selected =
     (case load_corpus (w_first_key w) (w_corpus w dir) dir of
        Inl err \<Rightarrow> fail_with 2 [''failed to load corpus: '' @ err]
      | Inr cs \<Rightarrow>
          (case selected of
             None \<Rightarrow> io_return cs
           | Some name \<Rightarrow>
               (case find (\<lambda>c. gc_name c = name) cs of
                  Some c \<Rightarrow> io_return [c]
                | None \<Rightarrow>
                    io_then (eprintln (''unknown external corpus case '' @ squote name))
                   (io_then (eprintln ''available cases:'')
                   (io_then (print_str (print_case_list cs))
                     (fail_with 2 []))))))"

section \<open>The worker\<close>

definition worker_select :: "world \<Rightarrow> config \<Rightarrow> string \<Rightarrow> guest_case io" where
  "worker_select w cf name =
     (case cf_corpus_dir cf of
        Some dir \<Rightarrow>
          io_bind (choose_external_cases w dir (Some name)) (\<lambda>cs.
            case cs of
              c # _ \<Rightarrow> io_return c
            | [] \<Rightarrow> fail_with 2 [''unknown worker case '' @ squote name])
      | None \<Rightarrow>
          (case find_case (w_guest_file w) name of
             Some c \<Rightarrow> io_return c
           | None \<Rightarrow> fail_with 2 [''unknown worker case '' @ squote name]))"

definition worker_execute :: "world \<Rightarrow> config \<Rightarrow> policy \<Rightarrow> guest_case \<Rightarrow> case_report io" where
  "worker_execute w cf p c s =
     (let env = w_runs w (p_step s) in
      map_option (\<lambda>r. (Inr r, s\<lparr>p_step := Suc (p_step s)\<rparr>))
        (if cf_worker_execute_static cf
         then run_case_executing_static_fixture (re_engine env) (re_timings env 0) c (cf_backend cf) p
         else run_case (re_engine env) (re_timings env 0) c (cf_backend cf) p))"

definition run_worker :: "world \<Rightarrow> config \<Rightarrow> policy \<Rightarrow> string \<Rightarrow> unit io" where
  "run_worker w cf p name =
     io_bind (worker_select w cf name) (\<lambda>c.
     io_bind (worker_execute w cf p c) (\<lambda>r.
       println (encode_worker_report r)))"

section \<open>Reports\<close>

definition write_or_print_report :: "world \<Rightarrow> config \<Rightarrow> string \<Rightarrow> unit io" where
  "write_or_print_report w cf rendered =
     (case cf_report_path cf of
        Some path \<Rightarrow>
          io_bind (write_disk (w_faults w) path rendered) (\<lambda>res.
            case res of
              Inl err \<Rightarrow> fail_with 1 [''failed to write report '' @ path @ '': '' @ err]
            | Inr _ \<Rightarrow> println (''report written: '' @ path))
      | None \<Rightarrow> print_str rendered)"

definition print_text_report :: "world \<Rightarrow> config \<Rightarrow> case_report list \<Rightarrow> policy \<Rightarrow> bool \<Rightarrow> unit io" where
  "print_text_report w cf rs p interview_output =
     (let color = \<not> cf_no_color cf in
      if cf_summary_only cf then
        (case print_summary_report (w_overflow_checks w) (w_tools w) rs p color of
           None \<Rightarrow> io_then (print_str (print_header (w_tools w) rs p color)) (halt_with Panicked)
         | Some t \<Rightarrow> print_str t)
      else if interview_output then print_str (print_interview_report (w_tools w) rs p color)
      else print_str (print_reports (w_tools w) rs p color))"

definition emit_report :: "world \<Rightarrow> config \<Rightarrow> case_report list \<Rightarrow> policy \<Rightarrow> bool \<Rightarrow> unit io" where
  "emit_report w cf rs p interview_output =
     (case cf_output_format cf of
        Text \<Rightarrow>
          (if cf_report_path cf = None then print_text_report w cf rs p interview_output
           else write_or_print_report w cf (render_text_report rs p))
      | Json \<Rightarrow> write_or_print_report w cf (render_json_report rs p)
      | Markdown \<Rightarrow> write_or_print_report w cf (render_markdown_report rs p)
      | Sarif \<Rightarrow> write_or_print_report w cf (render_sarif_report rs p))"

section \<open>Writing the modules\<close>

text \<open>\<open>Path::join\<close>: an absolute path replaces what it is joined to.\<close>

definition path_join :: "string \<Rightarrow> string \<Rightarrow> string" where
  "path_join dir name = (if starts_with ''/'' name then name else join_path dir name)"

fun emit_modules :: "world \<Rightarrow> string \<Rightarrow> guest_case list \<Rightarrow> unit io" where
  "emit_modules w dir [] = io_return ()"
| "emit_modules w dir (c # cs) =
     (\<lambda>s. case wasm_bytes (en_wat (re_engine (w_runs w (p_step s)))) (gc_source c) of
        Inl err \<Rightarrow> fail_with 1 [''failed to parse '' @ gc_name c @ '': '' @ err] s
      | Inr wasm \<Rightarrow>
          (let path = path_join dir (gc_name c @ ''.wasm'') in
           io_bind (write_disk (w_faults w) path (string_of_bytes wasm)) (\<lambda>res.
             case res of
               Inl err \<Rightarrow> fail_with 1 [''failed to write '' @ path @ '': '' @ err]
             | Inr _ \<Rightarrow> io_then (println path) (emit_modules w dir cs)) s))"

definition emit_wasm :: "world \<Rightarrow> guest_case list \<Rightarrow> string \<Rightarrow> unit io" where
  "emit_wasm w cs dir =
     (case create_dir_fault (w_faults w) dir of
        Some err \<Rightarrow> fail_with 1 [''failed to create '' @ dir @ '': '' @ err]
      | None \<Rightarrow> emit_modules w dir cs)"

section \<open>Dispatch\<close>

text \<open>\<open>run_blocking\<close>: a panic of the blocking task is caught and becomes the status 1.\<close>

definition run_blocking :: "world \<Rightarrow> i32 io \<Rightarrow> i32 io" where
  "run_blocking w run s =
     (case run s of
        Some (Inl Panicked, s') \<Rightarrow>
          io_then (eprintln (''blocking task failed: '' @ w_join_error w)) (io_return 1) s'
      | res \<Rightarrow> res)"

definition select_cases :: "world \<Rightarrow> config \<Rightarrow> (i32 + guest_case list) io" where
  "select_cases w cf =
     (case cf_corpus_dir cf of
        Some dir \<Rightarrow> io_bind (choose_external_cases w dir (cf_case cf)) (\<lambda>cs. io_return (Inr cs))
      | None \<Rightarrow>
          (case cf_case cf of
             Some name \<Rightarrow>
               (case find_case (w_guest_file w) name of
                  Some c \<Rightarrow> io_return (Inr [c])
                | None \<Rightarrow>
                    io_then (eprintln (''unknown case '' @ squote name))
                   (io_then (eprintln ''available cases:'')
                   (io_then (print_str (print_case_list (all_cases (w_guest_file w))))
                     (io_return (Inl 2)))))
           | None \<Rightarrow> io_return (Inr (profile_cases (w_guest_file w) (cf_profile cf)))))"

definition verdict_status :: "case_report list \<Rightarrow> i32" where
  "verdict_status rs = (if list_ex (\<lambda>r. \<not> passed r) rs then 1 else 0)"

definition run_dashboard :: "world \<Rightarrow> config \<Rightarrow> guest_case list \<Rightarrow> policy \<Rightarrow> case_report list io" where
  "run_dashboard w cf cs p s =
     map_option (\<lambda>(text, rs). (Inr rs, s\<lparr>p_out := p_out s @ text, p_step := Suc (p_step s)\<rparr>))
       (run_security_dashboard (w_screen w) (w_runs w (p_step s)) cs (cf_backend cf) p
          (unat (cf_tui_delay_ms cf)) (\<not> cf_no_color cf))"

definition run_tui :: "world \<Rightarrow> config \<Rightarrow> guest_case list \<Rightarrow> policy \<Rightarrow> i32 io" where
  "run_tui w cf cs p =
     (if cf_isolation cf = Process then
        io_then (eprintln ''--tui does not support --isolate process; use CLI/report mode instead'')
          (io_return 2)
      else
        (case w_tui_fault w of
           Some err \<Rightarrow> io_then (eprintln (''tui worker failed: '' @ err)) (io_return 1)
         | None \<Rightarrow> io_bind (run_dashboard w cf cs p) (\<lambda>rs. io_return (verdict_status rs))))"

definition run_async :: "world \<Rightarrow> config \<Rightarrow> guest_case list \<Rightarrow> policy \<Rightarrow> case_report list io" where
  "run_async w cf cs p s =
     map_option (\<lambda>rs. (Inr rs, s\<lparr>p_step := Suc (p_step s)\<rparr>))
       (collect_reports_async (w_runs w (p_step s)) (w_pick w) (w_parallelism w) cf cs p)"

definition run_selected :: "world \<Rightarrow> config \<Rightarrow> policy \<Rightarrow> guest_case list \<Rightarrow> i32 io" where
  "run_selected w cf p cs =
     (if cf_list cf then io_then (print_str (print_case_list cs)) (io_return 0)
      else
        (case cf_emit_wasm_dir cf of
           Some dir \<Rightarrow> io_then (emit_wasm w cs dir) (io_return 0)
         | None \<Rightarrow>
             (if cf_tui cf then run_tui w cf cs p
              else
                io_bind (run_async w cf cs p) (\<lambda>rs.
                io_then (emit_report w cf rs p (cf_interview cf)) (io_return (verdict_status rs))))))"

text \<open>\<open>async_main\<close>; \<open>menu\<close> is the interactive menu.\<close>

definition async_main :: "world \<Rightarrow> (config \<Rightarrow> policy \<Rightarrow> unit io) \<Rightarrow> i32 io" where
  "async_main w menu =
     (case from_args (w_args w) of
        Inl (code, ts) \<Rightarrow>
          (if code = 0 then io_then (print_lines ts) (halt_with (Exit 0)) else fail_with code ts)
      | Inr cf \<Rightarrow>
          io_bind (load_policy w cf) (\<lambda>p.
            case cf_worker_case cf of
              Some name \<Rightarrow> run_blocking w (io_then (run_worker w cf p name) (io_return 0))
            | None \<Rightarrow>
                if cf_menu cf then run_blocking w (io_then (menu cf p) (io_return 0))
                else
                  io_bind (select_cases w cf) (\<lambda>res.
                    case res of
                      Inl code \<Rightarrow> io_return code
                    | Inr cs \<Rightarrow> run_selected w cf p cs)))"

text \<open>
  \<open>main\<close>: the status the process ends with. A panic outside a blocking task ends it with 101.
\<close>

definition main :: "world \<Rightarrow> (config \<Rightarrow> policy \<Rightarrow> unit io) \<Rightarrow> proc \<Rightarrow> (i32 \<times> proc) option" where
  "main w menu s =
     (case w_runtime_fault w of
        Some err \<Rightarrow> Some (1, s\<lparr>p_err := p_err s @ line (''failed to start tokio runtime: '' @ err)\<rparr>)
      | None \<Rightarrow>
          map_option (\<lambda>(res, s').
            (case res of Inl (Exit code) \<Rightarrow> code | Inl Panicked \<Rightarrow> 101 | Inr code \<Rightarrow> code, s'))
          (async_main w menu s))"

section \<open>A worker process runs the case under the policy of its supervisor\<close>

text \<open>The policy before the command line's overrides.\<close>

definition base_policy :: "world \<Rightarrow> config \<Rightarrow> disk \<Rightarrow> string + policy" where
  "base_policy w cf d =
     (case cf_policy_path cf of
        Some path \<Rightarrow> policy_from_file (read_disk (w_faults w) (w_not_found w) d) path
      | None \<Rightarrow> Inr policy_default)"

lemma load_policy_base:
  "load_policy w cf s =
     (case base_policy w cf (p_disk s) of
        Inr base \<Rightarrow> io_return (override_policy cf base) s
      | Inl err \<Rightarrow> fail_with 2 [''failed to load policy: '' @ err] s)"
  by (simp add: load_policy_def base_policy_def split: option.split)

text \<open>Looking the case up by its name, in the built-in table or the corpus directory, finds it.\<close>

definition selectable :: "world \<Rightarrow> config \<Rightarrow> guest_case \<Rightarrow> bool" where
  "selectable w cf c \<longleftrightarrow>
     (case cf_corpus_dir cf of
        None \<Rightarrow> find_case (w_guest_file w) (gc_name c) = Some c
      | Some dir \<Rightarrow> (case load_corpus (w_first_key w) (w_corpus w dir) dir of
           Inl err \<Rightarrow> False | Inr cs \<Rightarrow> find (\<lambda>c'. gc_name c' = gc_name c) cs = Some c))"

definition options_of :: "config \<Rightarrow> supervisor_options" where
  "options_of cf = \<lparr>so_policy_path = cf_policy_path cf, so_corpus_dir = cf_corpus_dir cf,
     so_allow_unmetered = cf_allow_unmetered cf\<rparr>"

definition plain_options :: "config \<Rightarrow> guest_case \<Rightarrow> bool" where
  "plain_options cf c \<longleftrightarrow> plain_value (gc_name c) \<and> pred_option plain_value (cf_policy_path cf) \<and>
     pred_option plain_value (cf_corpus_dir cf)"

definition worker_policy :: "config \<Rightarrow> guest_case \<Rightarrow> policy \<Rightarrow> policy" where
  "worker_policy cf c base = override_policy (worker_config c (cf_backend cf) (options_of cf)) base"

lemma worker_policy_limits:
  assumes "\<not> cf_worker_execute_static cf"
  shows "worker_policy cf c base = (override_policy cf base)
    \<lparr>supervisor_timeout_ms := supervisor_timeout_ms base,
     require_tick_import := require_tick_import (override_policy cf base) \<and> gc_kind c \<noteq> StaticAudit\<rparr>"
  using assms
  by (cases "cf_timeout_ms cf") (auto simp: worker_policy_def override_policy_def worker_config_def
      options_of_def config_default_def Let_def)

lemma worker_config_simps [simp]:
  "cf_worker_case (worker_config c b opts) = Some (gc_name c)"
  "cf_corpus_dir (worker_config c b opts) = so_corpus_dir opts"
  "cf_policy_path (worker_config c b opts) = so_policy_path opts"
  "cf_backend (worker_config c b opts) = b"
  "cf_worker_execute_static (worker_config c b opts) = (gc_kind c = StaticAudit)"
  by (simp_all add: worker_config_def)

lemma worker_select_selectable:
  assumes "selectable w cf c"
  shows "worker_select w (worker_config c (cf_backend cf) (options_of cf)) (gc_name c) = io_return c"
  using assms
  by (auto simp: selectable_def worker_select_def options_of_def choose_external_cases_def run_io
      split: option.splits sum.splits)

text \<open>What the program does when it is started as a worker.\<close>

lemma worker_program:
  fixes w :: world and cf :: config and c :: guest_case and exe :: string
  defines "w' \<equiv> w\<lparr>w_args := exe # worker_args c (cf_backend cf) (options_of cf)\<rparr>"
    and "env s \<equiv> w_runs w (p_step s)"
  assumes "plain_options cf c" and "selectable w cf c" and "w_runtime_fault w = None"
    and "base_policy w cf (p_disk s) = Inr base"
    and "run_case_with_static_mode (re_engine (env s)) (re_timings (env s) 0) c (cf_backend cf)
      (worker_policy cf c base) (gc_kind c = StaticAudit) = Some r"
  shows "main w' menu s = Some (0, s\<lparr>p_out := p_out s @ line (encode_worker_report r), p_step := Suc (p_step s)\<rparr>)"
proof -
  let ?wcf = "worker_config c (cf_backend cf) (options_of cf)"
  have args: "from_args (w_args w') = Inr ?wcf"
    using assms(3) by (simp add: w'_def plain_options_def options_of_def worker_args_parse)
  have select: "worker_select w' ?wcf (gc_name c) = io_return c"
  proof (rule worker_select_selectable)
    show "selectable w' cf c" using assms(4) by (cases "cf_corpus_dir cf") (simp_all add: selectable_def w'_def)
  qed
  have "base_policy w' ?wcf (p_disk s) = Inr base"
    using assms(6) by (cases "cf_policy_path cf") (simp_all add: base_policy_def w'_def options_of_def)
  then have load: "load_policy w' ?wcf s = io_return (worker_policy cf c base) s"
    by (simp add: load_policy_base worker_policy_def)
  have execute: "worker_execute w' ?wcf (worker_policy cf c base) c s =
      io_return r (s\<lparr>p_step := Suc (p_step s)\<rparr>)"
    using assms(7) by (cases "gc_kind c = StaticAudit")
      (simp_all add: worker_execute_def env_def w'_def run_case_def run_case_executing_static_fixture_def
        io_return_def)
  have "run_worker w' ?wcf (worker_policy cf c base) (gc_name c) s =
      println (encode_worker_report r) (s\<lparr>p_step := Suc (p_step s)\<rparr>)"
    by (simp add: run_worker_def select run_io) (simp add: io_bind_def execute io_return_def)
  moreover have "w_runtime_fault w' = None" using assms(5) by (simp add: w'_def)
  ultimately show ?thesis
    by (simp add: main_def async_main_def args io_bind_def load io_return_def run_blocking_def io_then_def
        println_def print_str_def)
qed

text \<open>The child is seen to have exited in some round before the timeout.\<close>

definition exits_in_time :: "child \<Rightarrow> u64 \<Rightarrow> nat \<Rightarrow> bool" where
  "exits_in_time ch t n \<longleftrightarrow> ch_poll ch n = Exited \<and>
     list_all (\<lambda>m. ch_poll ch m = Running \<and> ch_elapsed ch m < 1000 * unat t) [0..<n]"

lemma wait_loop_exits:
  assumes "exits_in_time ch t n" and "ch_output ch = Some (Inr out)"
  shows "wait_loop c b t ch 0 = Some (supervised_completion_report c b out (ch_report_elapsed ch n))"
proof -
  have "wait_loop c b t ch (n - k) = Some (supervised_completion_report c b out (ch_report_elapsed ch n))"
    if "k \<le> n" for k
    using that
  proof (induction k)
    case 0
    then show ?case using assms by (simp add: exits_in_time_def wait_loop_simps(1))
  next
    case (Suc k)
    then have m: "ch_poll ch (n - Suc k) = Running" "ch_elapsed ch (n - Suc k) < 1000 * unat t"
      "Suc (n - Suc k) = n - k"
      using assms(1) by (simp_all add: exits_in_time_def list_all_iff)
    show ?case using Suc wait_loop_simps(4) [OF m(1,2)] by (simp add: m(3))
  qed
  from this [of n] show ?thesis by simp
qed

lemma run_case_expected:
  "run_case_with_static_mode en tm c b p x = Some r \<Longrightarrow> cr_expected_code r = gc_expected_code c"
  using run_case_sound [of en tm c b p x r] by (simp add: report_sound_def)

text \<open>
  C6. A case run in a worker process has the verdict of the case itself. Let the harness be asked
  to run a case in process isolation, and let the child it spawns be this program, started with
  the command line the supervisor builds, on the same disk and corpus. Let the case's name and the
  paths of the options not begin with two dashes (\<open>plain_options\<close>), and let the worker's lookup of
  that name find the case (\<open>selectable\<close>). If the worker's run of the case ends with a report and the
  child exits before the timeout and its output can be read, the supervised report has its code
  and its host error and passes exactly if it does. The policy of that run is the policy of
  the supervisor in every limit and grant; only the timeout, which the worker does not use, and
  for a static-audit case the tick import may differ.
\<close>

theorem worker_process_refines_case:
  assumes "plain_options cf c" and "selectable w cf c" and "w_runtime_fault w = None"
    and "\<not> cf_worker_execute_static cf"
    and "base_policy w cf (p_disk s) = Inr base" and "load_policy w cf s = Some (Inr p, s)"
    and "run_case_with_static_mode (re_engine (w_runs w (p_step s))) (re_timings (w_runs w (p_step s)) 0) c
      (cf_backend cf) (p\<lparr>supervisor_timeout_ms := supervisor_timeout_ms base,
        require_tick_import := require_tick_import p \<and> gc_kind c \<noteq> StaticAudit\<rparr>) (gc_kind c = StaticAudit) = Some r"
    and "transmissible r" and "cf_isolation cf = Process" and "re_exe env = Inr exe"
    and "re_spawn env k exe (worker_args c (cf_backend cf) (options_of cf)) = Inr ch"
    and "exits_in_time ch (supervisor_timeout_ms p) n" and "ch_output ch = Some (Inr out)"
    and "main (w\<lparr>w_args := exe # worker_args c (cf_backend cf) (options_of cf)\<rparr>) menu s = Some (status, s')"
    and "p_out s = []" and "po_stdout out = bytes_of_string (p_out s')"
  shows "\<exists>sup. run_selected_case env k cf c p = Some sup \<and> cr_actual_code sup = cr_actual_code r \<and>
    cr_host_error sup = cr_host_error r \<and> passed sup = passed r"
proof -
  have p: "p = override_policy cf base"
    using assms(5,6) by (simp add: load_policy_base io_return_def)
  have "main (w\<lparr>w_args := exe # worker_args c (cf_backend cf) (options_of cf)\<rparr>) menu s =
      Some (0, s\<lparr>p_out := p_out s @ line (encode_worker_report r), p_step := Suc (p_step s)\<rparr>)"
    using assms(7) by (intro worker_program [OF assms(1-3,5)])
      (simp add: worker_policy_limits [OF assms(4)] p)
  then have "p_out s' = encode_worker_report r @ [lf_char]"
    using assms(14,15) by (simp add: line_def)
  then have out: "po_stdout out = bytes_of_string (encode_worker_report r @ [lf_char])"
    using assms(16) by simp
  let ?sup = "supervised_completion_report c (cf_backend cf) out (ch_report_elapsed ch n)"
  have "run_selected_case env k cf c p = Some ?sup"
    using wait_loop_exits [OF assms(12,13)] assms(9-11)
    by (simp add: run_selected_case_def run_case_supervised_def options_of_def)
  then show ?thesis
    using supervised_verdict_is_workers [OF assms(8) run_case_expected [OF assms(7)] out,
        of "cf_backend cf" "ch_report_elapsed ch n"]
    by (auto simp: Let_def)
qed

definition demo_corpus_dir :: corpus_fs where
  "demo_corpus_dir = \<lparr>co_is_dir = True, co_manifest = None, co_listing = Inr [], co_open = \<lambda>_. Inl ''no such file''\<rparr>"

definition demo_screen :: screen where
  "demo_screen = \<lparr>filled_cells = \<lambda>_ _. 0, percent_text = \<lambda>_ _. [], map_cell = \<lambda>_ _. 0, elapsed_text = \<lambda>_. [],
     debug_paths = \<lambda>_. []\<rparr>"

definition demo_charts :: charts where
  "demo_charts = \<lparr>bar_filled = \<lambda>_ _ _. 0, spark_level = \<lambda>_ _. 0, whole_ms = \<lambda>n. n div 1000\<rparr>"

definition demo_world :: "string list \<Rightarrow> world" where
  "demo_world args = \<lparr>w_args = args, w_guest_file = \<lambda>_. ''(module)'', w_faults = no_faults,
     w_not_found = ''not found'', w_corpus = \<lambda>_. demo_corpus_dir, w_first_key = hd, w_tools = no_tools,
     w_screen = demo_screen, w_charts = demo_charts, w_runs = \<lambda>_. failing_env, w_pick = \<lambda>_ _. 0, w_parallelism = Some 1,
     w_overflow_checks = False, w_now = \<lambda>n. n, w_is_terminal = False, w_runtime_fault = None,
     w_tui_fault = None, w_join_error = ''panic''\<rparr>"

definition fresh_proc :: "disk \<Rightarrow> proc" where
  "fresh_proc d = \<lparr>p_out = [], p_err = [], p_in = [], p_disk = d, p_step = 0\<rparr>"

definition packet_case :: guest_case where
  "packet_case = hd (all_cases (\<lambda>_. ''(module)''))"

lemma packet_case_found: "find_case (\<lambda>_. ''(module)'') (gc_name packet_case) = Some packet_case"
  by (simp add: packet_case_def find_case_def all_cases_def abi_cases_def)

lemma packet_case_simps [simp]:
  "gc_name packet_case = ''good_packet''" "gc_kind packet_case = RunExport"
  by (simp_all add: packet_case_def all_cases_def abi_cases_def case_of_def Let_def)

lemma run_failing_env:
  "run_case_with_static_mode (re_engine failing_env) tm c b p x =
     Some (error_report c b ''Wasmer compile failed: bad magic'')"
  by (simp add: run_case_with_static_mode_def run_case_inner_def failing_env_def wasm_bytes_def
      split: guest_source.split)

definition packet_report :: case_report where
  "packet_report = error_report packet_case Cranelift ''Wasmer compile failed: bad magic''"

lemma transmissible_packet: "transmissible packet_report"
  by (simp add: transmissible_def packet_report_def error_report_def telemetry_default_def
      last_event_def usize_max_def is_str_ascii)

definition exited_child :: "string \<Rightarrow> child" where
  "exited_child output = \<lparr>ch_pid = 7, ch_poll = \<lambda>_. Exited, ch_elapsed = \<lambda>n. n, ch_report_elapsed = \<lambda>n. n,
     ch_output = Some (Inr \<lparr>po_status = ''exit status: 0'', po_stdout = bytes_of_string output, po_stderr = []\<rparr>)\<rparr>"

lemma exited_child_simps:
  "ch_poll (exited_child output) n = Exited"
  "ch_output (exited_child output) =
     Some (Inr \<lparr>po_status = ''exit status: 0'', po_stdout = bytes_of_string output, po_stderr = []\<rparr>)"
  by (simp_all add: exited_child_def)

lemma worker_process_refines_case_witness:
  "\<exists>sup. run_selected_case (failing_env\<lparr>re_exe := Inr ''harness'',
       re_spawn := \<lambda>_ _ _. Inr (exited_child (line (encode_worker_report packet_report)))\<rparr>)
     0 (config_default\<lparr>cf_isolation := Process\<rparr>) packet_case policy_default = Some sup \<and>
     cr_host_error sup = Some ''Wasmer compile failed: bad magic'' \<and> \<not> passed sup"
proof -
  let ?cf = "config_default\<lparr>cf_isolation := Process\<rparr>" and ?w = "demo_world []" and ?s = "fresh_proc (\<lambda>_. None)"
  let ?exe = "''harness''" and ?ch = "exited_child (line (encode_worker_report packet_report))"
  let ?env = "failing_env\<lparr>re_exe := Inr ?exe, re_spawn := \<lambda>_ _ _. Inr ?ch\<rparr>"
  let ?menu = "\<lambda>_ _. io_return ()"
  have plain: "plain_options ?cf packet_case"
    by (simp add: plain_options_def plain_value_def starts_with_def config_default_def)
  have sel: "selectable ?w ?cf packet_case"
    using packet_case_found by (simp add: selectable_def demo_world_def config_default_def)
  have base: "base_policy ?w ?cf (p_disk ?s) = Inr policy_default"
    by (simp add: base_policy_def config_default_def)
  have p: "override_policy ?cf policy_default = policy_default"
    by (simp add: override_policy_def config_default_def)
  have load: "load_policy ?w ?cf ?s = Some (Inr policy_default, ?s)"
    using load_policy_base [of ?w ?cf ?s] by (simp add: base p io_return_def)
  have runs: "w_runs ?w k = failing_env" for k by (simp add: demo_world_def)
  have run: "run_case_with_static_mode (re_engine (w_runs ?w (p_step ?s))) tm packet_case (cf_backend ?cf) q x =
      Some packet_report" for tm q x
    unfolding runs run_failing_env by (simp add: packet_report_def config_default_def)
  have main: "main (?w\<lparr>w_args := ?exe # worker_args packet_case (cf_backend ?cf) (options_of ?cf)\<rparr>) ?menu ?s =
      Some (0, ?s\<lparr>p_out := p_out ?s @ line (encode_worker_report packet_report), p_step := Suc (p_step ?s)\<rparr>)"
    by (rule worker_program [OF plain sel _ base run]) (simp add: demo_world_def)
  have "\<exists>sup. run_selected_case ?env 0 ?cf packet_case policy_default = Some sup \<and>
      cr_actual_code sup = cr_actual_code packet_report \<and> cr_host_error sup = cr_host_error packet_report \<and>
      passed sup = passed packet_report"
    by (rule worker_process_refines_case [OF plain sel _ _ base load run transmissible_packet _ _ _ _ _ main, where n = 0 and ch = ?ch
          and out = "\<lparr>po_status = ''exit status: 0'', po_stdout = bytes_of_string (line (encode_worker_report packet_report)),
            po_stderr = []\<rparr>"])
      (simp_all add: demo_world_def config_default_def exits_in_time_def exited_child_simps fresh_proc_def)
  then show ?thesis by (auto simp: packet_report_def passed_def error_report_def)
qed

section \<open>Reports and the exit status\<close>

text \<open>A command line that runs cases and reports them: no worker, menu, list, modules or dashboard.\<close>

definition reporting :: "config \<Rightarrow> bool" where
  "reporting cf \<longleftrightarrow> cf_worker_case cf = None \<and> \<not> cf_menu cf \<and> \<not> cf_list cf \<and> cf_emit_wasm_dir cf = None \<and>
     \<not> cf_tui cf"

definition rendered_report :: "config \<Rightarrow> case_report list \<Rightarrow> policy \<Rightarrow> string" where
  "rendered_report cf rs p =
     (case cf_output_format cf of
        Text \<Rightarrow> render_text_report rs p
      | Json \<Rightarrow> render_json_report rs p
      | Markdown \<Rightarrow> render_markdown_report rs p
      | Sarif \<Rightarrow> render_sarif_report rs p)"

lemma emit_document:
  assumes "cf_output_format cf \<noteq> Text \<or> cf_report_path cf \<noteq> None"
  shows "emit_report w cf rs p x = write_or_print_report w cf (rendered_report cf rs p)"
  using assms by (auto simp: emit_report_def rendered_report_def split: output_format.split)

lemma main_reporting:
  assumes "w_runtime_fault w = None" and "from_args (w_args w) = Inr cf" and "reporting cf"
    and "load_policy w cf s = Some (Inr p, s)" and "select_cases w cf s = Some (Inr (Inr cs), s)"
    and "collect_reports_async (w_runs w (p_step s)) (w_pick w) (w_parallelism w) cf cs p = Some rs"
  shows "main w menu s = map_option (\<lambda>(res, s').
      (case res of Inl (Exit code) \<Rightarrow> code | Inl Panicked \<Rightarrow> 101 | Inr code \<Rightarrow> code, s'))
    (io_then (emit_report w cf rs p (cf_interview cf)) (io_return (verdict_status rs)) (s\<lparr>p_step := Suc (p_step s)\<rparr>))"
  using assms
  by (simp add: main_def async_main_def reporting_def run_selected_def run_async_def io_bind_def)

text \<open>
  C10. What a run prints is the document, and its exit status is the verdict. If the harness runs
  cases and a document is asked for, on standard output or in a file that can be written, then
  standard output is exactly the document, or the line that names the file that holds it; nothing
  is written to standard error or to any other file; and the process ends with 0 exactly if every
  case passed, else with 1.
\<close>

theorem reporting_run:
  assumes "w_runtime_fault w = None" and "from_args (w_args w) = Inr cf" and "reporting cf"
    and "load_policy w cf s = Some (Inr p, s)" and "select_cases w cf s = Some (Inr (Inr cs), s)"
    and "collect_reports_async (w_runs w (p_step s)) (w_pick w) (w_parallelism w) cf cs p = Some rs"
    and "cf_output_format cf \<noteq> Text \<or> cf_report_path cf \<noteq> None"
    and "pred_option (\<lambda>path. write_fault (w_faults w) path = None) (cf_report_path cf)"
  shows "main w menu s = Some (if list_all passed rs then 0 else 1, s\<lparr>p_step := Suc (p_step s),
    p_out := p_out s @ (case cf_report_path cf of
      None \<Rightarrow> rendered_report cf rs p | Some path \<Rightarrow> line (''report written: '' @ path)),
    p_disk := (case cf_report_path cf of
      None \<Rightarrow> p_disk s | Some path \<Rightarrow> (p_disk s)(path \<mapsto> rendered_report cf rs p))\<rparr>)"
proof -
  have v: "verdict_status rs = (if list_all passed rs then 0 else 1)"
    by (auto simp: verdict_status_def list_all_iff list_ex_iff)
  show ?thesis
    unfolding main_reporting [OF assms(1-6)] emit_document [OF assms(7)] v [symmetric] using assms(8)
    by (cases "cf_report_path cf")
      (simp_all add: write_or_print_report_def io_then_def io_bind_def print_str_def println_def write_disk_def
        io_return_def)
qed

lemma reporting_run_witness:
  "\<exists>s'. main (demo_world [''harness'', ''--case'', ''good_packet'', ''--format'', ''json'']) (\<lambda>_ _. io_return ())
     (fresh_proc (\<lambda>_. None)) = Some (1, s') \<and>
   p_out s' = render_json_report [packet_report] policy_default \<and> p_err s' = []"
proof -
  let ?w = "demo_world [''harness'', ''--case'', ''good_packet'', ''--format'', ''json'']"
  let ?cf = "config_default\<lparr>cf_case := Some ''good_packet'', cf_output_format := Json, cf_no_color := True\<rparr>"
  let ?s = "fresh_proc (\<lambda>_. None)"
  have args: "from_args (w_args ?w) = Inr ?cf"
    by (simp add: demo_world_def) code_simp
  have load: "load_policy ?w ?cf ?s = Some (Inr policy_default, ?s)"
    by (simp add: load_policy_def config_default_def override_policy_def io_return_def)
  have select: "select_cases ?w ?cf ?s = Some (Inr (Inr [packet_case]), ?s)"
    using packet_case_found by (simp add: select_cases_def config_default_def demo_world_def io_return_def)
  have reports: "collect_reports_async failing_env (\<lambda>_ _. 0) (Some 1) ?cf [packet_case] policy_default = Some [packet_report]"
    by code_simp
  have "main ?w (\<lambda>_ _. io_return ()) ?s = Some (if list_all passed [packet_report] then 0 else 1,
      ?s\<lparr>p_step := Suc (p_step ?s),
        p_out := p_out ?s @ (case cf_report_path ?cf of
          None \<Rightarrow> rendered_report ?cf [packet_report] policy_default | Some path \<Rightarrow> line (''report written: '' @ path)),
        p_disk := (case cf_report_path ?cf of
          None \<Rightarrow> p_disk ?s | Some path \<Rightarrow> (p_disk ?s)(path \<mapsto> rendered_report ?cf [packet_report] policy_default))\<rparr>)"
    using reports
    by (intro reporting_run [OF _ args _ load select]) (simp_all add: demo_world_def reporting_def config_default_def)
  moreover have "\<not> passed packet_report" by (simp add: packet_report_def passed_def error_report_def)
  ultimately show ?thesis by (simp add: fresh_proc_def config_default_def rendered_report_def)
qed

text \<open>A document that cannot be written ends the process with 1, whatever the verdict.\<close>

lemma reporting_run_fault:
  assumes "w_runtime_fault w = None" and "from_args (w_args w) = Inr cf" and "reporting cf"
    and "load_policy w cf s = Some (Inr p, s)" and "select_cases w cf s = Some (Inr (Inr cs), s)"
    and "collect_reports_async (w_runs w (p_step s)) (w_pick w) (w_parallelism w) cf cs p = Some rs"
    and "cf_report_path cf = Some path" and "write_fault (w_faults w) path = Some (err, left)"
  shows "\<exists>s'. main w menu s = Some (1, s') \<and>
    p_err s' = p_err s @ line (''failed to write report '' @ path @ '': '' @ err)"
  unfolding main_reporting [OF assms(1-6)] using assms(7,8) emit_document [of cf w rs p "cf_interview cf"]
  by (simp add: write_or_print_report_def io_then_def io_bind_def write_disk_def fail_with_def)

text \<open>The file of a module whose case name is an absolute path is outside of the directory asked for.\<close>

lemma emitted_module_escapes:
  assumes "starts_with ''/'' (gc_name c)" and "w_faults w = no_faults"
    and "wasm_bytes (en_wat (re_engine (w_runs w (p_step s)))) (gc_source c) = Inr wasm"
  shows "\<exists>s'. emit_wasm w [c] dir s = Some (Inr (), s') \<and>
    p_disk s' = (p_disk s)(gc_name c @ ''.wasm'' \<mapsto> string_of_bytes wasm)"
proof -
  have "path_join dir (gc_name c @ ''.wasm'') = gc_name c @ ''.wasm''"
    using assms(1) by (cases "gc_name c") (auto simp: path_join_def starts_with_def)
  then show ?thesis using assms(2,3)
    by (simp add: emit_wasm_def no_faults_def Let_def io_bind_def write_disk_def io_then_def println_def
        print_str_def io_return_def)
qed

text \<open>Two modules of a corpus with one name: a worker asked for the second runs the first.\<close>

lemma worker_runs_first_of_name:
  assumes "load_corpus (w_first_key w) (w_corpus w dir) dir = Inr (cs @ c1 # cs' @ c2 # cs'')"
    and "gc_name c1 = gc_name c2" and "list_all (\<lambda>c. gc_name c \<noteq> gc_name c2) cs" and "cf_corpus_dir cf = Some dir"
  shows "worker_select w cf (gc_name c2) = io_return c1"
proof -
  have "find (\<lambda>c. gc_name c = gc_name c2) (cs @ c1 # cs' @ c2 # cs'') = Some c1"
    using assms(2,3) by (induction cs) auto
  then show ?thesis using assms(1,4) by (simp add: worker_select_def choose_external_cases_def run_io)
qed

end
