(* ===== verification/Menu.thy ===== *)
theory Menu
  imports Cli
begin

text \<open>
  The interactive menu of \<open>src/main.rs\<close>. It reads lines until the user leaves or the input ends; the
  pickers inside it do the same. Every such loop is \<open>ask_loop\<close>: show something, read a line, and
  either go on with a new state or be done. The loop is partial, since an action may run a guest
  that never returns.
\<close>

section \<open>Asking\<close>

definition prompt :: "string \<Rightarrow> string option io" where
  "prompt label s =
     (let s = s\<lparr>p_out := p_out s @ label\<rparr> in
      case p_in s of
        Some l # rest \<Rightarrow> Some (Inr (Some (trim l)), s\<lparr>p_in := rest\<rparr>)
      | None # rest \<Rightarrow> Some (Inr None, s\<lparr>p_in := rest\<rparr>)
      | [] \<Rightarrow> Some (Inr None, s))"

datatype ('a, 'b) answer = Again 'a | Done 'b

text \<open>\<open>at_eof\<close> is what the loop is done with when there is no input.\<close>

definition ask :: "('a \<Rightarrow> unit io) \<Rightarrow> string \<Rightarrow> 'b io \<Rightarrow> ('a \<Rightarrow> string \<Rightarrow> ('a, 'b) answer io) \<Rightarrow> 'a \<Rightarrow> ('a, 'b) answer io" where
  "ask shown label at_eof step a =
     io_then (shown a) (io_bind (prompt label) (\<lambda>input.
       case input of
         None \<Rightarrow> io_bind at_eof (\<lambda>x. io_return (Done x))
       | Some l \<Rightarrow> step a l))"

partial_function (option) ask_loop ::
  "('a \<Rightarrow> unit io) \<Rightarrow> string \<Rightarrow> 'b io \<Rightarrow> ('a \<Rightarrow> string \<Rightarrow> ('a, 'b) answer io) \<Rightarrow> 'a \<Rightarrow> proc \<Rightarrow> ((halt + 'b) \<times> proc) option" where
  "ask_loop shown label at_eof step a s =
     (case ask shown label at_eof step a s of
        None \<Rightarrow> None
      | Some (Inl h, s') \<Rightarrow> Some (Inl h, s')
      | Some (Inr (Done x), s') \<Rightarrow> Some (Inr x, s')
      | Some (Inr (Again a'), s') \<Rightarrow> ask_loop shown label at_eof step a' s')"

definition wait_for_menu :: "bool io" where
  "wait_for_menu =
     io_then (println []) (io_bind (prompt ''[Enter] back to menu, q quit> '') (\<lambda>input.
       case input of
         None \<Rightarrow> io_return False
       | Some l \<Rightarrow> io_return (to_ascii_lowercase l \<notin> {''q'', ''quit'', ''exit''})))"

section \<open>Sessions and charts\<close>

definition record_session :: "world \<Rightarrow> session_store \<Rightarrow> string \<Rightarrow> config \<Rightarrow> policy \<Rightarrow> case_report list \<Rightarrow> unit io" where
  "record_session w st label cf p rs s =
     (case record_run (w_faults w) (w_tools w) (w_now w (p_step s)) st label cf p rs (p_disk s) of
        (res, d) \<Rightarrow>
          println (case res of
             Inr ses \<Rightarrow> ''session recorded: '' @ ss_label ses @ '' ('' @ show_nat (ss_passed ses) @ '' passed, '' @
               show_nat (ss_failed ses) @ '' failed) -> '' @ ss_path ses
           | Inl err \<Rightarrow> ''session recorder warning: '' @ err)
          (s\<lparr>p_disk := d, p_step := Suc (p_step s)\<rparr>))"

text \<open>\<open>truncate_id\<close> cuts bytes: it panics if the cut is inside a character.\<close>

definition truncate_id :: "string \<Rightarrow> string option" where
  "truncate_id value =
     (if length value \<le> 18 then Some value
      else (let cut = drop (length value - 18) value in
        if 128 \<le> (of_char (hd cut) :: nat) \<and> (of_char (hd cut) :: nat) < 192 then None else Some cut))"

definition history_line :: "nat \<Rightarrow> session_summary \<Rightarrow> string option" where
  "history_line index ses =
     map_option (\<lambda>sid. ''  '' @ pad_left 2 (show_nat (index + 1)) @ '' '' @ pad_right 18 sid @ '' '' @
       pad_right 32 (truncate_text (ss_label ses) 32) @ '' '' @ pad_right 10 (ss_backend ses) @ '' '' @
       pad_right 10 (ss_isolation ses) @ '' '' @ pad_left 7 (show_nat (ss_passed ses)) @ '' '' @
       pad_left 7 (show_nat (ss_failed ses)))
     (truncate_id (ss_id ses))"

fun print_history_lines :: "nat \<Rightarrow> session_summary list \<Rightarrow> unit io" where
  "print_history_lines index [] = io_return ()"
| "print_history_lines index (ses # sessions) =
     (case history_line index ses of
        None \<Rightarrow> halt_with Panicked
      | Some l \<Rightarrow> io_then (println l) (print_history_lines (Suc index) sessions))"

definition print_session_history :: "session_summary list \<Rightarrow> unit io" where
  "print_session_history sessions =
     io_then (println ''Recorded sessions'')
    (io_then (println (''  '' @ pad_left 2 ''#'' @ '' '' @ pad_right 18 ''id'' @ '' '' @ pad_right 32 ''label'' @ '' '' @
       pad_right 10 ''backend'' @ '' '' @ pad_right 10 ''isolate'' @ '' '' @ pad_left 7 ''pass'' @ '' '' @
       pad_left 7 ''fail''))
      (print_history_lines 0 sessions))"

definition session_bar :: "charts \<Rightarrow> nat \<Rightarrow> bool \<Rightarrow> session_summary \<Rightarrow> string" where
  "session_bar ch max_runtime color ses = line (''  '' @
     bar_line ch (truncate_text (ss_label ses) 18) (ss_total_runtime_us ses mod 2 ^ 64) (max_runtime mod 2 ^ 64) 24 color @
     ''  '' @ pad_left 5 (show_nat (whole_ms ch (ss_total_runtime_us ses))) @ ''ms  '' @
     pad_left 2 (show_nat (ss_passed ses)) @ ''/'' @ pad_right 2 (show_nat (ss_total ses)))"

definition print_session_charts :: "charts \<Rightarrow> session_summary list \<Rightarrow> bool \<Rightarrow> string" where
  "print_session_charts ch sessions color = line [] @ line ''Session graphs'' @
     (if sessions = [] then line ''  no sessions to chart''
      else (let max_runtime = max (Max (set (map ss_total_runtime_us sessions))) 1 in
        concat (map (session_bar ch max_runtime color) sessions) @
        line (''  runtime sparkline: '' @ sparkline ch (map ss_total_runtime_us sessions) 32 color)))"

definition mix_chart :: "charts \<Rightarrow> string \<Rightarrow> string list \<Rightarrow> bool \<Rightarrow> string" where
  "mix_chart ch title labels color = line title @
     concat (map (\<lambda>(label, value). line (''  '' @ bar_line ch label value 8 24 color)) (counts_by labels))"

definition print_case_mix_chart :: "charts \<Rightarrow> guest_case list \<Rightarrow> bool \<Rightarrow> string" where
  "print_case_mix_chart ch cs color = line [] @ mix_chart ch ''Case mix by category'' (map gc_category cs) color @
     mix_chart ch ''Case mix by severity'' (map gc_severity cs) color"

definition print_stage_mix_chart :: "charts \<Rightarrow> guest_case list \<Rightarrow> bool \<Rightarrow> string" where
  "print_stage_mix_chart ch cs color = line [] @ mix_chart ch ''Case mix by stage'' (map gc_stage cs) color @
     mix_chart ch ''Case mix by TTP'' (map gc_ttp cs) color"

definition print_policy_limits_chart :: "charts \<Rightarrow> policy \<Rightarrow> bool \<Rightarrow> string" where
  "print_policy_limits_chart ch p color = line [] @ line ''Policy limits'' @
     line (''  '' @ bar_line ch ''packet'' (unat (max_packet_len p)) 4096 24 color) @
     line (''  '' @ bar_line ch ''cap_string'' (unat (max_cap_string_len p)) 256 24 color) @
     line (''  '' @ bar_line ch ''alloc'' (unat (max_alloc p)) 65536 24 color) @
     line (''  '' @ bar_line ch ''fuel'' (unat (initial_fuel p)) 256 24 color) @
     line (''  '' @ bar_line ch ''memory_pages'' (unat (max_memory_pages p)) 16 24 color)"

definition print_session_preview :: "world \<Rightarrow> session_summary \<Rightarrow> unit io" where
  "print_session_preview w ses =
     io_then (println (''session '' @ ss_id ses @ '': '' @ ss_label ses @ '' | '' @ show_nat (ss_passed ses) @
       '' passed, '' @ show_nat (ss_failed ses) @ '' failed | '' @ ss_path ses))
     (\<lambda>s. case read_session (w_faults w) (w_not_found w) ses (p_disk s) of
        Inl err \<Rightarrow> println err s
      | Inr contents \<Rightarrow>
          print_str (line [] @
            concat (map (\<lambda>(index, l). line (pad_left 3 (show_nat (index + 1)) @ '': '' @ l))
              (List.enumerate 0 (take 80 (lines contents)))) @
            (if 80 < length (lines contents) then line (''... truncated; full file: '' @ ss_path ses) else [])) s)"

section \<open>Running cases\<close>

definition collect_step :: "world \<Rightarrow> config \<Rightarrow> guest_case list \<Rightarrow> policy \<Rightarrow> case_report list io" where
  "collect_step w cf cs p s =
     map_option (\<lambda>rs. (Inr rs, s\<lparr>p_step := Suc (p_step s)\<rparr>))
       (collect_reports (w_runs w (p_step s)) cf cs p)"

definition any_failed :: "case_report list \<Rightarrow> bool" where
  "any_failed rs = list_ex (\<lambda>r. \<not> passed r) rs"

definition menu_run_cases ::
  "world \<Rightarrow> session_store \<Rightarrow> config \<Rightarrow> policy \<Rightarrow> guest_case list \<Rightarrow> bool \<Rightarrow> string \<Rightarrow> bool io" where
  "menu_run_cases w st cf p cs interview_output label =
     (if cs = [] then io_then (println (label @ '': no cases selected'')) (io_return True)
      else
        io_then (print_lines [[], ''running '' @ label @ ''...''])
       (io_bind (collect_step w cf cs p) (\<lambda>rs.
        io_then (emit_report w cf rs p interview_output)
       (io_then (if any_failed rs then println (label @ '': failed'') else io_return ())
       (io_then (record_session w st label cf p rs) wait_for_menu)))))"

definition menu_interview_tui :: "world \<Rightarrow> session_store \<Rightarrow> config \<Rightarrow> policy \<Rightarrow> bool io" where
  "menu_interview_tui w st cf p =
     io_bind (run_dashboard w cf (interview_cases (w_guest_file w)) p) (\<lambda>rs.
     io_then (if any_failed rs then println ''one or more interview cases failed'' else io_return ())
    (io_then (record_session w st ''live interview cockpit'' cf p rs) wait_for_menu))"

definition menu_external_corpus :: "world \<Rightarrow> session_store \<Rightarrow> config \<Rightarrow> policy \<Rightarrow> bool io" where
  "menu_external_corpus w st cf p =
     (case load_corpus (w_first_key w) (w_corpus w ''examples/external-corpus'') ''examples/external-corpus'' of
        Inr cs \<Rightarrow> menu_run_cases w st cf p cs False ''external corpus example''
      | Inl err \<Rightarrow> io_then (println (''failed to load external corpus: '' @ err)) wait_for_menu)"

definition generate_report ::
  "world \<Rightarrow> session_store \<Rightarrow> config \<Rightarrow> policy \<Rightarrow> output_format \<Rightarrow> string \<Rightarrow> guest_case list \<Rightarrow> string \<Rightarrow> unit io" where
  "generate_report w st cf p format path cs label =
     (let action = cf\<lparr>cf_output_format := format, cf_report_path := Some path, cf_no_color := True\<rparr> in
      io_bind (collect_step w action cs p) (\<lambda>rs.
      io_then (emit_report w action rs p False) (record_session w st label action p rs)))"

definition menu_generate_reports :: "world \<Rightarrow> session_store \<Rightarrow> config \<Rightarrow> policy \<Rightarrow> bool io" where
  "menu_generate_reports w st cf p =
     io_then (print_lines [[], ''generating reports...''])
    (io_then (generate_report w st cf p Markdown ''target/interview-report.md''
        (interview_cases (w_guest_file w)) ''generated interview markdown report'')
    (io_then (generate_report w st cf p Markdown ''target/adversary-campaign.md''
        (campaign_cases (w_guest_file w)) ''generated adversary campaign markdown report'')
    (io_then (generate_report w st cf p Sarif ''target/wasmer-harness.sarif''
        (profile_cases (w_guest_file w) All) ''generated full corpus sarif report'')
      wait_for_menu)))"

section \<open>Picking a case\<close>

definition print_case_picker_help :: "guest_case list \<Rightarrow> string" where
  "print_case_picker_help cs =
     concat (map (\<lambda>(index, c). line (''  '' @ pad_left 2 (show_nat (index + 1)) @ '' '' @ pad_right 24 (gc_name c) @ '' '' @
       pad_right 12 (gc_category c) @ '' '' @ pad_right 8 (gc_severity c) @ '' '' @ gc_description c))
       (List.enumerate 0 cs)) @
     line ''  list/?  reprint this list'' @ line ''  b       back to main menu'' @ line ''  q       quit''"

definition nth_opt :: "'a list \<Rightarrow> nat \<Rightarrow> 'a option" where
  "nth_opt xs i = (if i < length xs then Some (xs ! i) else None)"

definition contains :: "string \<Rightarrow> string \<Rightarrow> bool" where
  "contains needle s \<longleftrightarrow> sublist needle s"

definition select_case :: "(string \<Rightarrow> string) \<Rightarrow> guest_case list \<Rightarrow> string \<Rightarrow> guest_case option" where
  "select_case guest_file cs input =
     (let input = trim input in
      case parse_uint usize_max input of
        Inr number \<Rightarrow> nth_opt cs (number - 1)
      | Inl _ \<Rightarrow>
          (case find_case guest_file input of
             Some c \<Rightarrow> Some c
           | None \<Rightarrow> find (\<lambda>c. contains (to_ascii_lowercase input) (to_ascii_lowercase (gc_name c))) cs))"

text \<open>The two pickers differ in their prompt and in what they do with the case they find.\<close>

definition picker :: "world \<Rightarrow> string \<Rightarrow> (guest_case \<Rightarrow> bool io) \<Rightarrow> bool io" where
  "picker w label run =
     (let cs = all_cases (w_guest_file w) in
      ask_loop (\<lambda>_. io_return ()) label (io_return False) (\<lambda>_ input.
        let command = to_ascii_lowercase input in
        if command \<in> {''b'', ''back'', []} then io_return (Done True)
        else if command \<in> {''q'', ''quit'', ''exit''} then io_return (Done False)
        else if command \<in> {''l'', ''list'', ''?'', ''help''} then
          io_then (print_str (print_case_picker_help cs)) (io_return (Again ()))
        else
          (case select_case (w_guest_file w) cs input of
             Some c \<Rightarrow> io_bind (run c) (\<lambda>b. io_return (Done b))
           | None \<Rightarrow>
               io_then (println (''unknown case '' @ squote input @
                 ''. Type list, a number, a name, substring, back, or quit.'')) (io_return (Again ()))))
       ())"

definition menu_single_case :: "world \<Rightarrow> session_store \<Rightarrow> config \<Rightarrow> policy \<Rightarrow> bool io" where
  "menu_single_case w st cf p =
     io_then (print_str (line [] @ line ''Case picker'' @ print_case_picker_help (all_cases (w_guest_file w))))
       (picker w ''case> '' (\<lambda>c. menu_run_cases w st cf p [c] False (''single case '' @ gc_name c)))"

definition production_angle :: "case_report \<Rightarrow> string" where
  "production_angle r =
     (if cr_category r = ''abi'' then
        ''versioned host/guest contracts must reject malformed layouts before parsing payloads''
      else if cr_category r = ''memory'' then
        ''every guest pointer range needs overflow-safe arithmetic and fresh MemoryView state''
      else if cr_category r = ''capability'' then
        ''host resources should be exact capabilities, not ambient filesystem authority''
      else if cr_category r = ''resource'' then
        ''host-side CPU, memory, and allocation budgets need hard policy gates''
      else if cr_category r = ''integrity'' then
        ''structured payloads need integrity checks after the outer memory range is proven safe''
      else ''the host import boundary is treated as untrusted input, not trusted IPC'')"

definition explain_event :: "import_event \<Rightarrow> string" where
  "explain_event e = line [] @
     line (''  import: '' @ ev_import e @ '' -> '' @ code_name (ev_result_code e)) @
     line (''  args: ptr='' @ fmt_ptr (ev_ptr e) @ '' len='' @ fmt_value (ev_len e) @ '' align='' @
       fmt_value (ev_align e) @ '' memory='' @
       (case ev_memory_size e of Some v \<Rightarrow> show_nat (unat v) | None \<Rightarrow> ''-'')) @
     line ''  gates:'' @
     concat (map (\<lambda>g. line (''    - '' @ pad_right 28 (gate_name g) @ '' '' @
       (if gate_passed g then ''ok'' else ''fail''))) (ev_gates e)) @
     line (''  evidence: '' @ ev_detail e)"

definition print_case_explanation :: "case_report \<Rightarrow> string" where
  "print_case_explanation r = line [] @ line (''Case explanation: '' @ cr_name r) @
     line (''  category: '' @ cr_category r @ '' / '' @ cr_severity r) @ line (''  stage: '' @ cr_stage r) @
     line (''  ttp: '' @ cr_ttp r) @ line (''  attack: '' @ cr_description r) @
     line (''  expected boundary result: '' @ code_name (cr_expected_code r)) @
     line (''  actual boundary result: '' @ actual_name r) @ line (''  control: '' @ cr_control r) @
     line (''  detection: '' @ cr_detection r) @ line (''  production angle: '' @ production_angle r) @
     line (''  runtime: backend='' @ backend_name (cr_backend r) @ '' compile='' @ show_nat (cr_compile_us r) @
       ''us instantiate='' @ show_nat (cr_instantiate_us r) @ ''us run='' @ show_nat (cr_run_us r) @
       ''us wasm='' @ show_nat (cr_wasm_bytes r) @ ''B'') @
     line (''  memory: pages '' @ show_u32 (snap_pages (cr_memory_before r)) @ '' -> '' @
       show_u32 (snap_pages (cr_memory_after r)) @ '' ('' @
       show_signed (delta_pages (cr_memory_before r) (cr_memory_after r)) @ ''), bytes '' @
       show_nat (unat (snap_bytes (cr_memory_before r))) @ '' -> '' @
       show_nat (unat (snap_bytes (cr_memory_after r)))) @
     (case cr_host_error r of Some err \<Rightarrow> line (''  host error: '' @ err) | None \<Rightarrow> []) @
     concat (map explain_event (events (cr_telemetry r))) @
     (if events (cr_telemetry r) = [] then line ''  telemetry: no import events were logged'' else [])"

definition run_one :: "world \<Rightarrow> config \<Rightarrow> guest_case \<Rightarrow> policy \<Rightarrow> case_report io" where
  "run_one w cf c p s =
     map_option (\<lambda>r. (Inr r, s\<lparr>p_step := Suc (p_step s)\<rparr>))
       (run_selected_case (w_runs w (p_step s)) 0 cf c p)"

definition menu_explain_case :: "world \<Rightarrow> session_store \<Rightarrow> config \<Rightarrow> policy \<Rightarrow> bool io" where
  "menu_explain_case w st cf p =
     io_then (print_str (line [] @ line ''Explain case'' @ print_case_picker_help (all_cases (w_guest_file w))))
       (picker w ''explain> '' (\<lambda>c.
          io_bind (run_one w cf c p) (\<lambda>r.
          io_then (print_str (print_case_explanation r))
         (io_then (record_session w st (''explain '' @ cr_name r) cf p [r]) wait_for_menu))))"

section \<open>Recorded sessions\<close>

definition session_picker :: "world \<Rightarrow> session_summary list \<Rightarrow> bool io" where
  "session_picker w recent =
     ask_loop (\<lambda>_. io_return ()) ''session> '' (io_return False) (\<lambda>_ input.
       if input \<in> {''b'', ''back'', []} then io_return (Done True)
       else if input \<in> {''q'', ''quit'', ''exit''} then io_return (Done False)
       else
         (case (case parse_uint usize_max input of Inr number \<Rightarrow> nth_opt recent (number - 1) | Inl _ \<Rightarrow> None) of
            Some ses \<Rightarrow> io_then (print_session_preview w ses) (io_bind wait_for_menu (\<lambda>b. io_return (Done b)))
          | None \<Rightarrow> io_then (println (''unknown session '' @ squote input)) (io_return (Again ()))))
     ()"

definition menu_session_history :: "world \<Rightarrow> session_store \<Rightarrow> config \<Rightarrow> bool io" where
  "menu_session_history w st cf =
     io_then (println []) (\<lambda>s.
       case list_recent (w_faults w) st 12 (p_disk s) of
         Inl err \<Rightarrow> io_then (println err) wait_for_menu s
       | Inr recent \<Rightarrow>
           (if recent = [] then io_then (println ''no recorded sessions yet'') wait_for_menu s
            else
              io_then (print_str (print_session_charts (w_charts w) recent (\<not> cf_no_color cf)))
             (io_then (print_session_history recent)
             (io_then (print_lines [''  b  back to main menu'', ''  q  quit''])
               (session_picker w recent))) s))"

definition menu_latest_session :: "world \<Rightarrow> session_store \<Rightarrow> config \<Rightarrow> bool io" where
  "menu_latest_session w st cf =
     io_then (println [])
    (io_then (\<lambda>s.
       case latest (w_faults w) st (p_disk s) of
         Inr (Some ses) \<Rightarrow>
           (let recent = (case list_recent (w_faults w) st 8 (p_disk s) of Inr r \<Rightarrow> r | Inl _ \<Rightarrow> []) in
            io_then (if recent \<noteq> [] then print_str (print_session_charts (w_charts w) recent (\<not> cf_no_color cf))
                     else io_return ())
              (print_session_preview w ses) s)
       | Inr None \<Rightarrow> println ''no recorded sessions yet'' s
       | Inl err \<Rightarrow> println err s)
      wait_for_menu)"

section \<open>The bundle\<close>

definition write_bundle_file :: "world \<Rightarrow> string \<Rightarrow> string \<Rightarrow> unit io" where
  "write_bundle_file w path contents =
     io_bind (write_disk (w_faults w) path contents) (\<lambda>res.
       println (case res of
         Inr _ \<Rightarrow> ''  wrote '' @ path | Inl err \<Rightarrow> ''  failed '' @ path @ '': '' @ err))"

definition copy_bundle_doc :: "world \<Rightarrow> string \<Rightarrow> string \<Rightarrow> unit io" where
  "copy_bundle_doc w source destination s =
     (case read_disk (w_faults w) (w_not_found w) (p_disk s) source of
        Inr contents \<Rightarrow> write_bundle_file w destination contents s
      | Inl err \<Rightarrow> println (''  failed '' @ source @ '': '' @ err) s)"

definition bundle_readme :: string where
  "bundle_readme = join [lf_char]
     [''Wasmer hostile-guest security harness demo bundle'', [], ''Generated files:'',
      ''- interview-report.md: curated Markdown evidence for the interview path'',
      ''- telemetry.json: full corpus machine-readable telemetry'',
      ''- wasmer-harness.sarif: CI/security-dashboard regression signal'',
      ''- threat-model.md: boundary and attacker model'', ''- abi-contract.md: guest/host ABI contract'',
      ''- interview-runbook.md: live demo script'', [], ''Recommended live command:'',
      ''cargo run --release -- --menu'', []]"

definition write_bundle :: "world \<Rightarrow> session_store \<Rightarrow> config \<Rightarrow> policy \<Rightarrow> case_report list \<Rightarrow> case_report list \<Rightarrow> bool io" where
  "write_bundle w st action p interview_reports all_reports =
     (let file = join_path ''target/demo-bundle'' in
      io_then (write_bundle_file w (file ''interview-report.md'') (render_markdown_report interview_reports p))
     (io_then (write_bundle_file w (file ''telemetry.json'') (render_json_report all_reports p))
     (io_then (write_bundle_file w (file ''wasmer-harness.sarif'') (render_sarif_report all_reports p))
     (io_then (write_bundle_file w (file ''README.txt'') bundle_readme)
     (io_then (copy_bundle_doc w ''docs/threat-model.md'' (file ''threat-model.md''))
     (io_then (copy_bundle_doc w ''docs/abi-contract.md'' (file ''abi-contract.md''))
     (io_then (copy_bundle_doc w ''docs/interview-runbook.md'' (file ''interview-runbook.md''))
     (io_then (record_session w st ''exported interview bundle'' action p all_reports)
     (io_then (println ''bundle written: target/demo-bundle'') wait_for_menu)))))))))"

definition menu_export_bundle :: "world \<Rightarrow> session_store \<Rightarrow> config \<Rightarrow> policy \<Rightarrow> bool io" where
  "menu_export_bundle w st cf p =
     io_then (print_lines [[], ''exporting interview bundle...''])
       (case create_dir_fault (w_faults w) ''target/demo-bundle'' of
          Some err \<Rightarrow> io_then (println (''failed to create target/demo-bundle: '' @ err)) wait_for_menu
        | None \<Rightarrow>
            (let action = cf\<lparr>cf_no_color := True, cf_summary_only := True\<rparr> in
             io_bind (collect_step w action (interview_cases (w_guest_file w)) p) (\<lambda>interview_reports.
             io_bind (collect_step w action (profile_cases (w_guest_file w) All) p) (\<lambda>all_reports.
               write_bundle w st action p interview_reports all_reports))))"

definition menu_graphs_dashboard :: "world \<Rightarrow> session_store \<Rightarrow> config \<Rightarrow> policy \<Rightarrow> bool io" where
  "menu_graphs_dashboard w st cf p =
     io_then (print_lines [[], ''Charts dashboard'']) (\<lambda>s.
       case list_recent (w_faults w) st 8 (p_disk s) of
         Inl err \<Rightarrow> io_then (println err) wait_for_menu s
       | Inr recent \<Rightarrow>
           (let cs = all_cases (w_guest_file w); color = \<not> cf_no_color cf in
            io_then (print_str (print_session_charts (w_charts w) recent color @
                print_case_mix_chart (w_charts w) cs color @ print_stage_mix_chart (w_charts w) cs color @
                print_policy_limits_chart (w_charts w) p color))
              wait_for_menu s))"

section \<open>The menu\<close>

datatype command = LiveTui | InterviewRun | AllSummary | CampaignRun | SupervisorProof | SinglepassSummary
  | ExternalCorpus | GenerateReports | SingleCase | ListCases | ExplainCase | SessionHistory | LatestSession
  | ExportBundle | GraphsDashboard | Help | Redraw | Quit | UnknownCommand string

definition parse_command :: "string \<Rightarrow> command" where
  "parse_command c =
     (if c \<in> {''1'', ''t'', ''tui'', ''live''} then LiveTui
      else if c \<in> {''2'', ''i'', ''interview''} then InterviewRun
      else if c \<in> {''3'', ''a'', ''all''} then AllSummary
      else if c \<in> {''4'', ''ops'', ''campaign'', ''adversary'', ''apt''} then CampaignRun
      else if c \<in> {''5'', ''s'', ''supervisor'', ''timeout''} then SupervisorProof
      else if c \<in> {''6'', ''sp'', ''singlepass''} then SinglepassSummary
      else if c \<in> {''7'', ''x'', ''external'', ''corpus''} then ExternalCorpus
      else if c \<in> {''8'', ''rpt'', ''reports''} then GenerateReports
      else if c \<in> {''9'', ''c'', ''case'', ''run''} then SingleCase
      else if c \<in> {''10'', ''l'', ''list''} then ListCases
      else if c \<in> {''11'', ''e'', ''explain''} then ExplainCase
      else if c \<in> {''12'', ''hist'', ''history''} then SessionHistory
      else if c \<in> {''13'', ''latest'', ''last''} then LatestSession
      else if c \<in> {''14'', ''bundle'', ''export''} then ExportBundle
      else if c \<in> {''15'', ''g'', ''graph'', ''charts''} then GraphsDashboard
      else if c \<in> {''?'', ''h'', ''help''} then Help
      else if c \<in> {[], ''refresh'', ''redraw''} then Redraw
      else if c \<in> {''q'', ''quit'', ''exit''} then Quit
      else UnknownCommand c)"

definition print_menu_help :: string where
  "print_menu_help = concat (map line [[], ''Menu help'', ''  Use the number or the alias in brackets.'',
     ''  Press Enter to redraw the menu.'', ''  Case pickers accept a number, exact case name, or substring.'',
     ''  The ops/campaign mode is defensive adversary emulation, not weaponized code.'',
     ''  The charts dashboard shows recent session bars, corpus mix, and policy limits.'',
     ''  Invalid input never exits the program; use q/quit/exit explicitly.''])"

definition print_main_menu :: "world \<Rightarrow> session_store \<Rightarrow> config \<Rightarrow> policy \<Rightarrow> string option \<Rightarrow> string" where
  "print_main_menu w st cf p notice =
     (if w_is_terminal w then esc_seq ''[2J'' @ esc_seq ''[H'' else []) @
     line [] @ line ''Wasmer hostile-guest security harness'' @
     line (''backend='' @ backend_name (cf_backend cf) @ '' isolation='' @ isolation_name (cf_isolation cf) @
       '' timeout='' @ show_nat (unat (supervisor_timeout_ms p)) @ ''ms'') @
     (case notice of Some n \<Rightarrow> line (''notice: '' @ n) | None \<Rightarrow> []) @
     concat (map line [''  1  [t]  live interview cockpit'', ''  2  [i]  interview narrative'',
       ''  3  [a]  full corpus summary'', ''  4  [ops] adversary emulation campaign'',
       ''  5  [s]  supervisor timeout proof'', ''  6  [sp] singlepass backend summary'',
       ''  7  [x]  external corpus example'', ''  8  [rpt] generate reports'', ''  9  [c]  run one case'',
       '' 10  [l]  list cases'', '' 11  [e]  explain one case'', '' 12  [hist] session history'',
       '' 13  [last] view latest session'', '' 14  [export] export interview bundle'',
       '' 15  [g]    charts dashboard'', ''  ?       help'', ''  q       quit'']) @
     line (''session store: '' @ st_dir st)"

definition do_command :: "world \<Rightarrow> session_store \<Rightarrow> config \<Rightarrow> policy \<Rightarrow> command \<Rightarrow> bool io" where
  "do_command w st cf p command =
     (let gf = w_guest_file w in
      case command of
        LiveTui \<Rightarrow> menu_interview_tui w st (cf\<lparr>cf_profile := Interview, cf_interview := True\<rparr>) p
      | InterviewRun \<Rightarrow> menu_run_cases w st (cf\<lparr>cf_profile := Interview, cf_interview := True\<rparr>) p
          (interview_cases gf) True ''interview narrative''
      | AllSummary \<Rightarrow> menu_run_cases w st (cf\<lparr>cf_summary_only := True\<rparr>) p
          (profile_cases gf All) False ''full corpus summary''
      | CampaignRun \<Rightarrow> menu_run_cases w st (cf\<lparr>cf_profile := Campaign, cf_interview := True\<rparr>) p
          (campaign_cases gf) True ''adversary emulation campaign''
      | SupervisorProof \<Rightarrow> menu_run_cases w st (cf\<lparr>cf_isolation := Process, cf_timeout_ms := Some 100\<rparr>)
          (p\<lparr>supervisor_timeout_ms := 100\<rparr>)
          (case find_case gf ''non_cooperative_loop'' of Some c \<Rightarrow> [c] | None \<Rightarrow> []) False
          ''process supervisor timeout proof''
      | SinglepassSummary \<Rightarrow> menu_run_cases w st (cf\<lparr>cf_backend := Singlepass, cf_summary_only := True\<rparr>) p
          (profile_cases gf All) False ''singlepass backend summary''
      | ExternalCorpus \<Rightarrow> menu_external_corpus w st cf p
      | GenerateReports \<Rightarrow> menu_generate_reports w st cf p
      | SingleCase \<Rightarrow> menu_single_case w st cf p
      | ListCases \<Rightarrow> io_then (print_str (print_case_list (all_cases gf))) wait_for_menu
      | ExplainCase \<Rightarrow> menu_explain_case w st cf p
      | SessionHistory \<Rightarrow> menu_session_history w st cf
      | LatestSession \<Rightarrow> menu_latest_session w st cf
      | ExportBundle \<Rightarrow> menu_export_bundle w st cf p
      | GraphsDashboard \<Rightarrow> menu_graphs_dashboard w st cf p
      | Help \<Rightarrow> io_then (print_str print_menu_help) wait_for_menu
      | _ \<Rightarrow> io_return True)"

text \<open>One round of the menu. The state of the loop is the notice for the next time it is drawn.\<close>

definition menu_step ::
  "world \<Rightarrow> session_store \<Rightarrow> config \<Rightarrow> policy \<Rightarrow> string option \<Rightarrow> string \<Rightarrow> (string option, unit) answer io" where
  "menu_step w st cf p notice input =
     (case parse_command (to_ascii_lowercase input) of
        Quit \<Rightarrow> io_then (println ''closing.'') (io_return (Done ()))
      | UnknownCommand other \<Rightarrow> io_return (Again (Some (''Unknown option '' @ squote other @
          ''. Use 1-15, aliases like t/i/ops/c/e/l/g, ? for help, or q to quit.'')))
      | command \<Rightarrow>
          io_bind (do_command w st cf p command) (\<lambda>keep_running.
            if keep_running then io_return (Again None)
            else io_then (println ''closing.'') (io_return (Done ()))))"

definition run_interactive_menu :: "world \<Rightarrow> config \<Rightarrow> policy \<Rightarrow> unit io" where
  "run_interactive_menu w cf p =
     (let st = store_default in
      ask_loop (\<lambda>notice. print_str (print_main_menu w st cf p notice)) ''select> ''
        (println []) (menu_step w st cf p) None)"

text \<open>The whole program.\<close>

definition program :: "world \<Rightarrow> proc \<Rightarrow> (i32 \<times> proc) option" where
  "program w = main w (run_interactive_menu w)"

end
