(* ===== verification/Menu_Safety.thy ===== *)
theory Menu_Safety
  imports Menu
begin

text \<open>
  What the whole program does to its state: it ends, and it writes only the files its command line
  or the menu names. Both are proved along the text of every operation of \<open>Cli\<close> and \<open>Menu\<close>.
\<close>

section \<open>What a program does to its state, and whether it ends\<close>

text \<open>
  \<open>preserves R m\<close>: if \<open>m\<close> ends, with a value or not, its last state is related to its first.
  \<open>ends m\<close>: it ends from every state. Both pass through the binds, so they are proved along the
  program text.
\<close>

definition preserves :: "(proc \<Rightarrow> proc \<Rightarrow> bool) \<Rightarrow> 'a io \<Rightarrow> bool" where
  "preserves R m \<longleftrightarrow> (\<forall>s r s'. m s = Some (r, s') \<longrightarrow> R s s')"

definition ends :: "'a io \<Rightarrow> bool" where
  "ends m \<longleftrightarrow> (\<forall>s. m s \<noteq> None)"

locale step_relation =
  fixes R :: "proc \<Rightarrow> proc \<Rightarrow> bool"
  assumes refl: "R s s"
    and trans: "R s s' \<Longrightarrow> R s' s'' \<Longrightarrow> R s s''"
    and out: "R s (s\<lparr>p_out := t\<rparr>)"
    and err: "R s (s\<lparr>p_err := t\<rparr>)"
    and input: "p_in s = l # ls \<Longrightarrow> R s (s\<lparr>p_in := ls\<rparr>)"
    and step: "R s (s\<lparr>p_step := n\<rparr>)"
begin

lemma preserves_bind:
  "preserves R m \<Longrightarrow> (\<And>x. preserves R (f x)) \<Longrightarrow> preserves R (io_bind m f)"
  unfolding preserves_def io_bind_Some by (blast intro: trans)

lemma preserves_return: "preserves R (io_return x)"
  by (simp add: preserves_def io_return_def refl)

lemma preserves_halt: "preserves R (halt_with h)"
  by (simp add: preserves_def halt_with_def refl)

lemma preserves_then: "preserves R m \<Longrightarrow> preserves R k \<Longrightarrow> preserves R (io_then m k)"
  unfolding io_then_def by (rule preserves_bind)

lemma preserves_print: "preserves R (print_str t)" "preserves R (println t)" "preserves R (print_lines ts)"
    "preserves R (eprintln t)" "preserves R (fail_with c ts)"
  by (simp_all add: preserves_def print_str_def println_def print_lines_def eprintln_def fail_with_def out err)

lemma preserves_prompt: "preserves R (prompt label)"
proof -
  have "R s (s\<lparr>p_out := t, p_in := ls\<rparr>)" if "p_in s = l # ls" for s t l ls
  proof (rule trans [OF out])
    have "p_in (s\<lparr>p_out := t\<rparr>) = l # ls" using that by simp
    from input [OF this] show "R (s\<lparr>p_out := t\<rparr>) (s\<lparr>p_out := t, p_in := ls\<rparr>)" by simp
  qed
  then show ?thesis
    unfolding preserves_def prompt_def Let_def
    by (auto simp: out split: list.splits option.splits)
qed

lemma preserves_stepped:
  "preserves R (\<lambda>s. map_option (\<lambda>x. (Inr (f x), s\<lparr>p_step := Suc (p_step s)\<rparr>)) (g s))"
  by (auto simp: preserves_def step)

lemma preserves_state: "(\<And>s. preserves R (m s)) \<Longrightarrow> preserves R (\<lambda>s. m s s)"
  by (simp add: preserves_def)

lemmas preserves_intros = preserves_bind preserves_then preserves_return preserves_halt preserves_print
  preserves_prompt preserves_stepped

lemma preserves_ask:
  "\<lbrakk>\<And>a. preserves R (shown a); preserves R at_eof; \<And>a l. preserves R (step a l)\<rbrakk> \<Longrightarrow>
     preserves R (ask shown label at_eof step a)"
  unfolding ask_def by (intro preserves_intros) (auto split: option.split intro!: preserves_intros)

lemma preserves_ask_loop:
  assumes "\<And>a. preserves R (shown a)" and "preserves R at_eof" and "\<And>a l. preserves R (step a l)"
  shows "preserves R (ask_loop shown label at_eof step a)"
proof -
  let ?P = "\<lambda>shown label at_eof step a s y. (\<forall>a. preserves R (ask shown label at_eof step a)) \<longrightarrow> R s (snd y)"
  have "?P shown label at_eof step a s (r, s')"
    if "ask_loop shown label at_eof step a s = Some (r, s')" for a s r s'
  proof (rule ask_loop.raw_induct [where P = ?P, OF _ that], rule impI)
    fix loop shown label at_eof step a s y
    assume IH: "\<And>shown label at_eof step a s y. loop shown label at_eof step a s = Some y \<Longrightarrow>
        (\<forall>a. preserves R (ask shown label at_eof step a)) \<longrightarrow> R s (snd y)"
      and eq: "(case ask shown label at_eof step a s of
          None \<Rightarrow> None
        | Some (Inl h, s') \<Rightarrow> Some (Inl h, s')
        | Some (Inr (Again a'), s') \<Rightarrow> loop shown label at_eof step a' s'
        | Some (Inr (Done x), s') \<Rightarrow> Some (Inr x, s')) = Some y"
      and all: "\<forall>a. preserves R (ask shown label at_eof step a)"
    obtain r1 s1 where ask: "ask shown label at_eof step a s = Some (r1, s1)"
      using eq by (cases "ask shown label at_eof step a s") auto
    then have "R s s1" using all by (auto simp: preserves_def)
    then show "R s (snd y)"
      using eq ask IH all trans by (auto split: sum.splits answer.splits)
  qed
  then show ?thesis
    using preserves_ask [OF assms] by (auto simp: preserves_def)
qed

end

text \<open>
  The relation of the menu: input is only consumed, and files outside of a set are not touched.
\<close>

definition framed :: "string set \<Rightarrow> proc \<Rightarrow> proc \<Rightarrow> bool" where
  "framed A s s' \<longleftrightarrow> length (p_in s') \<le> length (p_in s) \<and> (\<forall>path. path \<notin> A \<longrightarrow> p_disk s' path = p_disk s path)"

interpretation framed: step_relation "framed A" for A
  by unfold_locales (auto simp: framed_def)

text \<open>
  \<open>good e A m\<close>: \<open>m\<close> touches only the files in \<open>A\<close>, and under the condition \<open>e\<close> it ends.
\<close>

definition good :: "bool \<Rightarrow> string set \<Rightarrow> 'a io \<Rightarrow> bool" where
  "good e A m \<longleftrightarrow> preserves (framed A) m \<and> (e \<longrightarrow> ends m)"

named_theorems good_intros

lemma good_bind [good_intros]: "good e A m \<Longrightarrow> (\<And>x. good e A (f x)) \<Longrightarrow> good e A (io_bind m f)"
  unfolding good_def
  by (auto intro: framed.preserves_bind) (fastforce simp: ends_def io_bind_def split: option.split sum.split)

lemma good_then [good_intros]: "good e A m \<Longrightarrow> good e A k \<Longrightarrow> good e A (io_then m k)"
  unfolding io_then_def by (rule good_bind)

lemma good_leaf [good_intros]:
  "good e A (io_return x)" "good e A (halt_with h)" "good e A (print_str t)" "good e A (println t)"
  "good e A (print_lines ts)" "good e A (eprintln t)" "good e A (fail_with c ts)" "good e A (prompt label)"
  unfolding good_def
  by (intro conjI framed.preserves_intros; simp add: ends_def io_return_def halt_with_def print_str_def println_def
      print_lines_def eprintln_def fail_with_def prompt_def Let_def split: list.split option.split)+

lemma good_if [good_intros]: "(b \<Longrightarrow> good e A m) \<Longrightarrow> (\<not> b \<Longrightarrow> good e A k) \<Longrightarrow> good e A (if b then m else k)"
  by simp

lemma good_option [good_intros]:
  "good e A m \<Longrightarrow> (\<And>x. good e A (f x)) \<Longrightarrow> good e A (case v of None \<Rightarrow> m | Some x \<Rightarrow> f x)"
  by (cases v) auto

lemma good_sum [good_intros]:
  "(\<And>err. good e A (f err)) \<Longrightarrow> (\<And>x. good e A (g x)) \<Longrightarrow> good e A (case v of Inl err \<Rightarrow> f err | Inr x \<Rightarrow> g x)"
  by (cases v) auto

lemma good_let [good_intros]: "(\<And>x. good e A (f x)) \<Longrightarrow> good e A (let x = v in f x)"
  by simp

lemma good_state: "(\<And>s. good e A (m s)) \<Longrightarrow> good e A (\<lambda>s. m s s)"
  by (auto simp: good_def ends_def preserves_def)

lemma good_write [good_intros]: "path \<in> A \<Longrightarrow> good e A (write_disk fs path contents)"
  by (auto simp: good_def ends_def preserves_def framed_def write_disk_def split: option.splits)

lemma ask_consumes:
  assumes "\<And>a. good e A (shown a)" and "\<And>a l. good e A (step a l)" and "good e A at_eof"
    and "ask shown label at_eof step a s = Some (Inr (Again a'), s')"
  shows "length (p_in s') < length (p_in s)"
proof -
  obtain x s1 where s1: "shown a s = Some (Inr x, s1)"
    and rest: "io_bind (prompt label) (\<lambda>input. case input of
        None \<Rightarrow> io_bind at_eof (\<lambda>x. io_return (Done x)) | Some l \<Rightarrow> step a l) s1 = Some (Inr (Again a'), s')"
    using assms(4) unfolding ask_def io_then_def by (rule io_bind_InrE)
  obtain input s2 where s2: "prompt label s1 = Some (Inr input, s2)"
    and last: "(case input of None \<Rightarrow> io_bind at_eof (\<lambda>x. io_return (Done x)) | Some l \<Rightarrow> step a l) s2 =
      Some (Inr (Again a'), s')"
    using rest by (rule io_bind_InrE)
  show ?thesis
  proof (cases input)
    case None
    then show ?thesis using last by (auto simp: io_bind_Some io_return_def)
  next
    case (Some l)
    then have "length (p_in s2) < length (p_in s1)"
      using s2 by (auto simp: prompt_def Let_def split: list.splits option.splits)
    moreover have "length (p_in s1) \<le> length (p_in s)"
      using assms(1) [of a] s1 by (auto simp: good_def preserves_def framed_def)
    moreover have "length (p_in s') \<le> length (p_in s2)"
      using assms(2) [of a l] last Some by (auto simp: good_def preserves_def framed_def)
    ultimately show ?thesis by simp
  qed
qed

lemma good_ask:
  "\<lbrakk>\<And>a. good e A (shown a); good e A at_eof; \<And>a l. good e A (step a l)\<rbrakk> \<Longrightarrow>
     good e A (ask shown label at_eof step a)"
  unfolding ask_def by (intro good_intros)

lemma good_ask_loop [good_intros]:
  assumes "\<And>a. good e A (shown a)" and "good e A at_eof" and "\<And>a l. good e A (step a l)"
  shows "good e A (ask_loop shown label at_eof step a)"
proof -
  have "ask_loop shown label at_eof step a s \<noteq> None" if e for a s
  proof (induction "length (p_in s)" arbitrary: a s rule: less_induct)
    case less
    have "ask shown label at_eof step a s \<noteq> None"
      using good_ask [OF assms] that by (auto simp: good_def ends_def)
    then obtain r s' where ask: "ask shown label at_eof step a s = Some (r, s')" by auto
    show ?case
    proof (cases "\<exists>a'. r = Inr (Again a')")
      case True
      then obtain a' where r: "r = Inr (Again a')" by auto
      have "length (p_in s') < length (p_in s)"
        by (rule ask_consumes [where e = e and A = A, OF assms(1,3,2)]) (use ask r in simp)
      then have "ask_loop shown label at_eof step a' s' \<noteq> None" by (rule less)
      then show ?thesis using ask r by (subst ask_loop.simps) simp
    next
      case False
      then show ?thesis using ask by (subst ask_loop.simps) (auto split: sum.split answer.split)
    qed
  qed
  moreover have "preserves (framed A) (ask_loop shown label at_eof step a)"
    using assms by (intro framed.preserves_ask_loop) (simp_all add: good_def)
  ultimately show ?thesis by (simp add: good_def ends_def)
qed

text \<open>The same where the state is read.\<close>

lemma good_if_state [good_intros]:
  "(\<And>x. good e A (f x)) \<Longrightarrow> (\<And>x. good e A (g x)) \<Longrightarrow> good e A (\<lambda>s. if b s then f s s else g s s)"
  by (auto simp: good_def ends_def preserves_def)

lemma good_sum_state [good_intros]:
  "(\<And>err. good e A (f err)) \<Longrightarrow> (\<And>x. good e A (g x)) \<Longrightarrow>
     good e A (\<lambda>s. case v s of Inl err \<Rightarrow> f err s | Inr x \<Rightarrow> g x s)"
  by (auto simp: good_def ends_def preserves_def split: sum.split)

lemma good_option_state [good_intros]:
  "good e A m \<Longrightarrow> (\<And>x. good e A (f x)) \<Longrightarrow> good e A (\<lambda>s. case v s of None \<Rightarrow> m s | Some x \<Rightarrow> f x s)"
  by (auto simp: good_def ends_def preserves_def split: option.split)

lemma good_let_state [good_intros]:
  "(\<And>x. good e A (f x)) \<Longrightarrow> good e A (\<lambda>s. let x = v s in f x s)"
  by (auto simp: good_def ends_def preserves_def Let_def)

text \<open>A step that only counts: it ends if what it runs does.\<close>

lemma good_run [good_intros]:
  "(\<And>s. e \<Longrightarrow> g s \<noteq> None) \<Longrightarrow> good e A (\<lambda>s. map_option (\<lambda>x. (Inr x, s\<lparr>p_step := Suc (p_step s)\<rparr>)) (g s))"
  by (auto simp: good_def ends_def preserves_def framed_def)

lemma good_weaken: "good e A m \<Longrightarrow> A \<subseteq> B \<Longrightarrow> (e' \<Longrightarrow> e) \<Longrightarrow> good e' B m"
  unfolding good_def preserves_def framed_def by (meson subsetD)

section \<open>The files of the menu\<close>

text \<open>A path under \<open>target/\<close>, with no step up.\<close>

definition target_file :: "string \<Rightarrow> bool" where
  "target_file path \<longleftrightarrow> starts_with ''target/'' path \<and> ''..'' \<notin> set (split_on CHR ''/'' path)"

definition menu_files :: "config \<Rightarrow> string set" where
  "menu_files cf = {path. target_file path} \<union> set_option (cf_report_path cf)"

lemma split_on_file: "CHR ''/'' \<notin> set n \<Longrightarrow>
    split_on CHR ''/'' (join_path ''target/security-sessions'' n) = [''target'', ''security-sessions'', n]"
  by (simp add: join_path_def ends_with_def split_on_absent)

lemma target_file_session:
  assumes "CHR ''/'' \<notin> set n" and "n \<noteq> ''..''"
  shows "target_file (join_path (st_dir store_default) n)"
proof -
  have "starts_with ''target/'' (join_path (st_dir store_default) n)"
    by (simp add: store_default_def store_new_def join_path_def ends_with_def starts_with_def)
  then show ?thesis using assms by (simp add: target_file_def store_default_def store_new_def split_on_file)
qed

lemma slugify_no_slash: "CHR ''/'' \<notin> set (slugify v)"
proof -
  obtain ws where "words ws" "slugify v = join ''-'' ws" using slugify_words by blast
  then show ?thesis using set_join [of "''-''" ws] by (fastforce simp: words_def list_all_iff slug_char_def Let_def)
qed

lemma record_run_frame:
  assumes "record_run fs t now store_default label cf p rs d = (res, d')" and "\<not> target_file path"
  shows "d' path = d path"
proof -
  have "target_file (st_index_path store_default)"
    using target_file_session [of "''index.tsv''"] by (simp add: store_default_def store_new_def)
  moreover have "target_file (join_path (st_dir store_default) (''session-'' @ show_nat now @ ''-'' @ slugify label @ ''.json''))"
    by (rule target_file_session) (auto simp: slugify_no_slash is_digit_def digit_of_def dest: show_nat_digits)
  ultimately have "path \<noteq> st_index_path store_default"
    "path \<noteq> join_path (st_dir store_default) (''session-'' @ show_nat now @ ''-'' @ slugify label @ ''.json'')"
    using assms(2) by auto
  then show ?thesis using assms(1)
    by (auto simp: record_run_def append_line_def Let_def split: option.splits sum.splits prod.splits)
qed

lemma good_record_session [good_intros]: "good e (menu_files cf) (record_session w store_default label cf' p rs)"
  by (auto simp: good_def ends_def preserves_def framed_def record_session_def println_def print_str_def
      menu_files_def split: prod.splits dest: record_run_frame)

section \<open>Running cases ends\<close>

text \<open>
  Every guest returns, in every run; the clock of every worker process goes on, and its output ends
  once it has exited or been killed.
\<close>

definition guests_end :: "world \<Rightarrow> bool" where
  "guests_end w \<longleftrightarrow> (\<forall>n tm c b p x. run_case_with_static_mode (re_engine (w_runs w n)) tm c b p x \<noteq> None)"

definition workers_end :: "world \<Rightarrow> bool" where
  "workers_end w \<longleftrightarrow>
     (\<forall>n k exe args ch. re_spawn (w_runs w n) k exe args = Inr ch \<longrightarrow> clock_advances ch \<and> ch_output ch \<noteq> None)"

definition runs_end :: "world \<Rightarrow> bool" where
  "runs_end w \<longleftrightarrow> guests_end w \<and> workers_end w"

lemma supervised_ends:
  assumes "\<And>exe args ch. spawn exe args = Inr ch \<Longrightarrow> clock_advances ch \<and> ch_output ch \<noteq> None"
  shows "run_case_supervised exe spawn c b p opts \<noteq> None"
proof -
  have "wait_loop c b t ch 0 \<noteq> None" if "clock_advances ch" "ch_output ch \<noteq> None" for t ch
    using wait_loop_ends [OF that] by simp
  then show ?thesis
    using assms by (simp add: run_case_supervised_def split: sum.split)
qed

lemma selected_case_ends:
  assumes "workers_end w" and "cf_isolation cf = Process \<or> guests_end w"
  shows "run_selected_case (w_runs w n) k cf c p \<noteq> None"
proof (cases "cf_isolation cf")
  case InProcess
  then show ?thesis using assms(2) by (simp add: run_selected_case_def run_case_def guests_end_def)
next
  case Process
  have "run_case_supervised (re_exe (w_runs w n)) (re_spawn (w_runs w n) k) c (cf_backend cf) p opts \<noteq> None" for opts
    using assms(1) by (intro supervised_ends) (simp add: workers_end_def)
  then show ?thesis using Process by (simp add: run_selected_case_def)
qed

lemma collect_reports_ends:
  assumes "runs_end w"
  shows "collect_reports (w_runs w n) cf cs p \<noteq> None"
proof -
  have "collect_round (w_runs w n) cf p k cs rs \<noteq> None" for k cs rs
    using selected_case_ends assms by (induction cs arbitrary: k rs) (auto simp: runs_end_def bind_eq_None_conv)
  then have "collect_rounds (w_runs w n) cf p cs k m rs \<noteq> None" for k m rs
    by (induction m arbitrary: k rs) (auto simp: bind_eq_None_conv)
  then show ?thesis by (simp add: collect_reports_def)
qed

lemma dashboard_ends:
  assumes "guests_end w"
  shows "run_security_dashboard sc (w_runs w n) cs b p delay color \<noteq> None"
proof -
  have "dashboard_loop (w_runs w n) b p d cs k acc \<noteq> None" for d k acc
    using assms
    by (induction "w_runs w n" b p d cs k acc rule: dashboard_loop.induct)
      (auto simp: guests_end_def run_case_def split: option.split)
  then show ?thesis by (simp add: run_security_dashboard_def dashboard_frames_def)
qed

lemma async_ends:
  assumes "workers_end w" and "cf_isolation cf = Process \<or> guests_end w"
  shows "collect_reports_async (w_runs w n) pick par cf cs p \<noteq> None"
proof -
  have "run_case_task_blocking (w_runs w n) t \<noteq> None" if "t \<in> set (case_tasks cf cs p)" for t
  proof -
    have "run_case_task_blocking (w_runs w n) t = run_selected_case (w_runs w n) (ct_index t) cf (ct_case t) p"
      using that by (auto simp: run_case_task_blocking_def run_selected_case_def case_tasks_def split: isolation_mode.split)
    then show ?thesis using selected_case_ends [OF assms] by simp
  qed
  then have "list_all (task_ends (w_runs w n)) (case_tasks cf cs p)"
    by (auto simp: list_all_iff task_ends_def join_task_def run_case_task_def split: option.splits)
  then obtain rs where "Option.bind (spawn_loop (w_runs w n) pick (max_in_flight_cases par) (case_tasks cf cs p)
      ([], [], 0)) (drain (w_runs w n) pick) = Some rs"
    using collect_raw by metis
  then show ?thesis by (simp add: collect_reports_async_def)
qed

section \<open>Every operation of the menu\<close>

lemma good_wait_for_menu [good_intros]: "good e A wait_for_menu"
  unfolding wait_for_menu_def by (intro good_intros)

lemma good_print_text_report [good_intros]: "good e A (print_text_report w cf rs p x)"
  unfolding print_text_report_def by (intro good_intros)

lemma good_write_or_print [good_intros]:
  "set_option (cf_report_path cf) \<subseteq> A \<Longrightarrow> good e A (write_or_print_report w cf t)"
  unfolding write_or_print_report_def by (cases "cf_report_path cf") (simp; intro good_intros; simp)+

lemma good_emit_report: "set_option (cf_report_path cf) \<subseteq> A \<Longrightarrow> good e A (emit_report w cf rs p x)"
  by (cases "cf_output_format cf") (simp add: emit_report_def; intro impI conjI good_intros; simp)+

lemma good_emit_menu [good_intros]:
  "cf_report_path cf' = cf_report_path cf \<Longrightarrow> good e (menu_files cf) (emit_report w cf' rs p x)"
  by (rule good_emit_report) (simp add: menu_files_def)

lemma good_collect_step [good_intros]: "good (runs_end w) A (collect_step w cf cs p)"
  unfolding collect_step_def [abs_def] by (rule good_run) (rule collect_reports_ends)

lemma good_run_one [good_intros]: "good (runs_end w) A (run_one w cf c p)"
  unfolding run_one_def [abs_def] by (rule good_run) (auto simp: runs_end_def selected_case_ends)

lemma good_run_dashboard: "good (guests_end w) A (run_dashboard w cf cs p)"
  by (auto simp: good_def ends_def preserves_def framed_def run_dashboard_def dashboard_ends)

lemma good_run_dashboard_menu [good_intros]: "good (runs_end w) A (run_dashboard w cf cs p)"
  by (rule good_weaken [OF good_run_dashboard subset_refl]) (simp add: runs_end_def)

lemma good_print_history_lines [good_intros]: "good e A (print_history_lines k ss)"
  by (induction k ss rule: print_history_lines.induct) (simp_all add: good_intros split: option.split)

lemma good_print_session_history [good_intros]: "good e A (print_session_history ss)"
  unfolding print_session_history_def by (intro good_intros)

lemma good_print_session_preview [good_intros]: "good e A (print_session_preview w ses)"
  unfolding print_session_preview_def by (intro good_intros)

lemma good_menu_run_cases [good_intros]:
  "cf_report_path cf' = cf_report_path cf \<Longrightarrow>
     good (runs_end w) (menu_files cf) (menu_run_cases w store_default cf' p cs x label)"
  unfolding menu_run_cases_def by (intro good_intros)

lemma good_menu_interview_tui [good_intros]:
  "good (runs_end w) (menu_files cf) (menu_interview_tui w store_default cf' p)"
  unfolding menu_interview_tui_def by (intro good_intros)

lemma good_menu_external_corpus [good_intros]:
  "good (runs_end w) (menu_files cf) (menu_external_corpus w store_default cf p)"
  unfolding menu_external_corpus_def by (intro good_intros refl)

lemma good_generate_report:
  "target_file path \<Longrightarrow> good (runs_end w) (menu_files cf) (generate_report w store_default cf p fmt path cs label)"
  unfolding generate_report_def Let_def
  by (intro good_intros good_emit_report) (simp add: menu_files_def)

lemma good_menu_generate_reports [good_intros]:
  "good (runs_end w) (menu_files cf) (menu_generate_reports w store_default cf p)"
  unfolding menu_generate_reports_def
  by (intro good_intros good_generate_report; simp add: target_file_def starts_with_def)

lemma good_picker: "(\<And>c. good e A (run c)) \<Longrightarrow> good e A (picker w label run)"
  unfolding picker_def Let_def by (intro good_intros)

lemma good_menu_single_case [good_intros]:
  "good (runs_end w) (menu_files cf) (menu_single_case w store_default cf p)"
  unfolding menu_single_case_def by (intro good_intros good_picker refl)

lemma good_menu_explain_case [good_intros]:
  "good (runs_end w) (menu_files cf) (menu_explain_case w store_default cf p)"
  unfolding menu_explain_case_def by (intro good_intros good_picker)

lemma good_session_picker [good_intros]: "good e A (session_picker w recent)"
  unfolding session_picker_def by (intro good_intros)

lemma good_menu_session_history [good_intros]: "good e A (menu_session_history w st cf)"
  unfolding menu_session_history_def by (intro good_intros)

lemma good_menu_latest_session [good_intros]: "good e A (menu_latest_session w st cf)"
  unfolding menu_latest_session_def by (intro good_intros)

lemma good_write_bundle_file [good_intros]: "path \<in> A \<Longrightarrow> good e A (write_bundle_file w path t)"
  unfolding write_bundle_file_def by (intro good_intros)

lemma good_copy_bundle_doc [good_intros]: "path \<in> A \<Longrightarrow> good e A (copy_bundle_doc w source path)"
  unfolding copy_bundle_doc_def [abs_def] by (intro good_intros)

lemma bundle_files:
  "f \<in> {''interview-report.md'', ''telemetry.json'', ''wasmer-harness.sarif'', ''README.txt'', ''threat-model.md'',
     ''abi-contract.md'', ''interview-runbook.md''} \<Longrightarrow> join_path ''target/demo-bundle'' f \<in> menu_files cf"
  by (auto simp: menu_files_def target_file_def join_path_def ends_with_def starts_with_def)

lemma good_write_bundle [good_intros]:
  "good (runs_end w) (menu_files cf) (write_bundle w store_default cf' p rs rs')"
  unfolding write_bundle_def Let_def by (intro good_intros bundle_files) simp_all

lemma good_menu_export_bundle [good_intros]:
  "good (runs_end w) (menu_files cf) (menu_export_bundle w store_default cf p)"
  unfolding menu_export_bundle_def by (intro good_intros)

lemma good_menu_graphs_dashboard [good_intros]: "good e A (menu_graphs_dashboard w st cf p)"
  unfolding menu_graphs_dashboard_def by (intro good_intros)

lemma good_do_command [good_intros]: "good (runs_end w) (menu_files cf) (do_command w store_default cf p c)"
  by (cases c) (simp only: do_command_def Let_def command.case; intro good_intros; simp)+

lemma good_menu_step [good_intros]:
  "good (runs_end w) (menu_files cf) (menu_step w store_default cf p notice input)"
  by (cases "parse_command (to_ascii_lowercase input)") (simp only: menu_step_def command.case; intro good_intros)+

lemma good_run_interactive_menu: "good (runs_end w) (menu_files cf) (run_interactive_menu w cf p)"
  unfolding run_interactive_menu_def Let_def by (intro good_intros)

section \<open>The whole program\<close>

text \<open>The files a command line lets the harness write.\<close>

definition writable :: "config \<Rightarrow> string set" where
  "writable cf =
     (if cf_worker_case cf \<noteq> None then {}
      else if cf_menu cf then menu_files cf
      else if cf_list cf then {}
      else (case cf_emit_wasm_dir cf of
        Some dir \<Rightarrow> range (\<lambda>name. path_join dir (name @ ''.wasm''))
      | None \<Rightarrow> if cf_tui cf then {} else set_option (cf_report_path cf)))"

text \<open>No guest runs in this process.\<close>

definition isolated :: "config \<Rightarrow> bool" where
  "isolated cf \<longleftrightarrow> cf_worker_case cf = None \<and> \<not> cf_menu cf \<and> cf_isolation cf = Process"

definition settles :: "world \<Rightarrow> config \<Rightarrow> bool" where
  "settles w cf \<longleftrightarrow> workers_end w \<and> (isolated cf \<or> guests_end w)"

lemma good_load_policy [good_intros]: "good e A (load_policy w cf)"
  unfolding load_policy_def [abs_def] by (intro good_intros)

lemma good_choose_external_cases [good_intros]: "good e A (choose_external_cases w dir selected)"
  unfolding choose_external_cases_def by (intro good_intros)

lemma good_list [good_intros]:
  "good e A m \<Longrightarrow> (\<And>x xs. good e A (f x xs)) \<Longrightarrow> good e A (case v of [] \<Rightarrow> m | x # xs \<Rightarrow> f x xs)"
  by (cases v) auto

lemma good_run_worker: "good (guests_end w) A (run_worker w cf p name)"
proof -
  have "good (guests_end w) A (worker_execute w cf p c)" for c
    unfolding worker_execute_def [abs_def] Let_def
    by (rule good_run) (simp add: guests_end_def run_case_def run_case_executing_static_fixture_def)
  moreover have "good (guests_end w) A (worker_select w cf name)"
    unfolding worker_select_def by (intro good_intros)
  ultimately show ?thesis unfolding run_worker_def by (intro good_intros)
qed

lemma good_emit_wasm [good_intros]:
  "good e (range (\<lambda>name. path_join dir (name @ ''.wasm''))) (emit_wasm w cs dir)"
proof -
  have "good e (range (\<lambda>name. path_join dir (name @ ''.wasm''))) (emit_modules w dir cs)"
    by (induction cs) (simp only: emit_modules.simps Let_def; intro good_intros; blast)+
  then show ?thesis unfolding emit_wasm_def by (intro good_intros)
qed

lemma good_run_blocking [good_intros]: "good e A m \<Longrightarrow> good e A (run_blocking w m)"
  by (auto simp: good_def ends_def preserves_def framed_def run_blocking_def io_then_def io_bind_eprintln
      io_return_def split: option.splits prod.splits sum.splits halt.splits)

lemma good_select_cases [good_intros]: "good e A (select_cases w cf)"
  unfolding select_cases_def by (intro good_intros)

lemma good_run_selected:
  assumes "cf_worker_case cf = None" and "\<not> cf_menu cf"
  shows "good (settles w cf) (writable cf) (run_selected w cf p cs)"
proof -
  have async: "good (settles w cf) A (run_async w cf cs p)" for A
    unfolding run_async_def [abs_def]
    by (rule good_run, rule async_ends) (auto simp: settles_def isolated_def)
  have dashboard: "good (settles w cf) A (run_dashboard w cf cs p)" if "cf_isolation cf \<noteq> Process" for A
    using that by (intro good_weaken [OF good_run_dashboard subset_refl]) (simp add: settles_def isolated_def)
  have tui: "good (settles w cf) A (run_tui w cf cs p)" for A
    unfolding run_tui_def by (intro good_intros dashboard)
  have "good (settles w cf) (writable cf) (emit_report w cf rs p x)"
    if "cf_emit_wasm_dir cf = None" "\<not> cf_list cf" "\<not> cf_tui cf" for rs x
    using that assms by (intro good_emit_report) (simp add: writable_def)
  moreover have "good (settles w cf) (writable cf) (emit_wasm w cs dir)"
    if "cf_emit_wasm_dir cf = Some dir" "\<not> cf_list cf" for dir
    using that assms good_emit_wasm by (simp add: writable_def)
  ultimately show ?thesis
    unfolding run_selected_def
    by (cases "cf_emit_wasm_dir cf") (simp_all only: option.case, (intro good_intros tui async; simp)+)
qed

lemma good_async_main:
  assumes "from_args (w_args w) = Inr cf"
  shows "good (settles w cf) (writable cf) (async_main w (run_interactive_menu w))"
proof (cases "cf_worker_case cf")
  case (Some name)
  have "good (settles w cf) (writable cf) (run_worker w cf p name)" for p
    using Some by (intro good_weaken [OF good_run_worker subset_refl]) (simp add: settles_def isolated_def)
  then show ?thesis
    unfolding async_main_def assms Some sum.case option.case by (intro good_intros)
next
  case None
  have menu: "good (settles w cf) (writable cf) (run_interactive_menu w cf p)" if "cf_menu cf" for p
    using that None by - (rule good_weaken [OF good_run_interactive_menu],
      simp_all add: settles_def isolated_def writable_def runs_end_def)
  show ?thesis
    unfolding async_main_def assms None sum.case option.case
    by (intro good_intros menu good_run_selected None; assumption)
qed

text \<open>Every command line, accepted or not.\<close>

lemma program_good:
  "good (\<forall>cf. from_args (w_args w) = Inr cf \<longrightarrow> settles w cf)
     {path. \<exists>cf. from_args (w_args w) = Inr cf \<and> path \<in> writable cf} (async_main w (run_interactive_menu w))"
proof (cases "from_args (w_args w)")
  case (Inl a)
  then show ?thesis unfolding async_main_def by (cases a) (simp add: good_intros)
next
  case (Inr cf)
  show ?thesis by (rule good_weaken [OF good_async_main [OF Inr]]) (use Inr in auto)
qed

lemma program_runs:
  "program w s = (case w_runtime_fault w of
     Some err \<Rightarrow> Some (1, s\<lparr>p_err := p_err s @ line (''failed to start tokio runtime: '' @ err)\<rparr>)
   | None \<Rightarrow> map_option (\<lambda>(res, s').
       (case res of Inl (Exit code) \<Rightarrow> code | Inl Panicked \<Rightarrow> 101 | Inr code \<Rightarrow> code, s'))
     (async_main w (run_interactive_menu w) s))"
  by (simp add: program_def main_def)

text \<open>
  C7. The harness ends. If the clocks of its worker processes advance and their output ends
  once they have exited or been killed, and either no guest runs in this process (a run of cases in
  process isolation) or every guest returns, then for every command
  line, every state of the disk and every finite input the program ends with a status: the menu
  and its pickers do not outlive their input, a worker that hangs is given up at its timeout, and
  no order in which tasks complete keeps the collection waiting.
\<close>

theorem program_ends:
  assumes "workers_end w"
    and "\<And>cf. from_args (w_args w) = Inr cf \<Longrightarrow> isolated cf \<or> guests_end w"
  shows "\<exists>code s'. program w s = Some (code, s')"
proof -
  have "ends (async_main w (run_interactive_menu w))"
    using program_good [of w] assms by (simp add: good_def settles_def)
  then obtain r s' where "async_main w (run_interactive_menu w) s = Some (r, s')" by (fastforce simp: ends_def)
  then show ?thesis by (cases "w_runtime_fault w") (simp_all add: program_runs)
qed

definition hanging_env :: run_env where
  "hanging_env = failing_env\<lparr>re_engine := engine_of (module_running [(''host'', ''tick'')] 1 spin),
     re_exe := Inr ''harness'', re_spawn := \<lambda>_ _ _. Inr hung_child\<rparr>"

text \<open>The whole corpus, with guests that loop for ever in workers that never exit.\<close>

lemma program_ends_witness:
  "\<exists>code s'. program ((demo_world [''harness'', ''--isolate'', ''process''])\<lparr>w_runs := \<lambda>_. hanging_env\<rparr>)
     (fresh_proc (\<lambda>_. None)) = Some (code, s')"
proof (rule program_ends)
  let ?w = "(demo_world [''harness'', ''--isolate'', ''process''])\<lparr>w_runs := \<lambda>_. hanging_env\<rparr>"
  show "workers_end ?w"
    by (simp add: workers_end_def hanging_env_def clock_advances_def hung_child_def)
  fix cf
  assume "from_args (w_args ?w) = Inr cf"
  moreover have "from_args [''harness'', ''--isolate'', ''process''] = Inr (config_default\<lparr>cf_isolation := Process\<rparr>)"
    by code_simp
  ultimately have "cf = config_default\<lparr>cf_isolation := Process\<rparr>" by (simp add: demo_world_def)
  then show "isolated cf \<or> guests_end ?w" by (simp add: isolated_def config_default_def)
qed

text \<open>
  C8. The harness writes only the files its command line names. Whatever the guests, the corpus, the
  input and the faults of the disk, a file the program changes is one the command line lets it
  write: the report's for a run of cases; for \<open>--emit-wasm-dir\<close> the modules, named after their cases;
  for the menu the report's and files under \<open>target\<close>, with no step up; and none for a worker, a
  list, the dashboard, or a command line that is refused.
\<close>

theorem program_writes_only:
  assumes "program w s = Some (code, s')"
  shows "p_disk s' path = p_disk s path \<or> (\<exists>cf. from_args (w_args w) = Inr cf \<and> path \<in> writable cf)"
  using assms program_good [of w]
  by (auto simp: program_runs good_def preserves_def framed_def split: option.splits)

text \<open>The menu is asked for a list, a bundle, and for nothing it knows, and leaves \<open>/etc/passwd\<close> as it is.\<close>

lemma program_writes_only_witness:
  "\<exists>code s'. program (demo_world [''harness'', ''--menu''])
       ((fresh_proc (\<lambda>_. Some ''root''))\<lparr>p_in := [Some ''14'', None, Some ''nonsense'']\<rparr>) = Some (code, s') \<and>
     p_disk s' ''/etc/passwd'' = Some ''root''"
proof -
  let ?w = "demo_world [''harness'', ''--menu'']"
  let ?s = "(fresh_proc (\<lambda>_. Some ''root''))\<lparr>p_in := [Some ''14'', None, Some ''nonsense'']\<rparr>"
  have args: "from_args (w_args ?w) = Inr (config_default\<lparr>cf_menu := True\<rparr>)"
    by (simp add: demo_world_def) code_simp
  have "settles ?w cf" for cf
    using run_failing_env
    by (simp add: settles_def workers_end_def guests_end_def demo_world_def) (simp add: failing_env_def)
  then have "ends (async_main ?w (run_interactive_menu ?w))"
    using program_good [of ?w] by (simp add: good_def)
  then obtain r s' where "async_main ?w (run_interactive_menu ?w) ?s = Some (r, s')" by (fastforce simp: ends_def)
  then obtain code where run: "program ?w ?s = Some (code, s')" by (simp add: program_runs demo_world_def)
  have "''/etc/passwd'' \<notin> writable (config_default\<lparr>cf_menu := True\<rparr>)"
    by (simp add: writable_def menu_files_def config_default_def target_file_def starts_with_def)
  then have "p_disk s' ''/etc/passwd'' = p_disk ?s ''/etc/passwd''"
    using program_writes_only [OF run, of "''/etc/passwd''"] args by auto
  then show ?thesis using run by (simp add: fresh_proc_def)
qed

section \<open>Numbers and identifiers\<close>

text \<open>The pickers count from one, and take zero for one as well.\<close>

lemma select_case_number:
  assumes "n \<le> usize_max"
  shows "select_case guest_file cs (show_nat n) = nth_opt cs (n - 1)"
proof -
  have "trim (concat (map (\<lambda>c. [c]) (show_nat n))) = concat (map (\<lambda>c. [c]) (show_nat n))"
    by (intro trim_trimmed solid_trimmed) simp
  then have "trim (show_nat n) = show_nat n" by simp
  then show ?thesis using parse_uint_show_nat [OF assms] by (simp add: select_case_def)
qed

lemma select_case_zero: "select_case guest_file cs ''0'' = select_case guest_file cs ''1''"
proof -
  have "show_nat 0 = ''0''" "show_nat 1 = ''1''" by code_simp+
  then show ?thesis
    using select_case_number [of 0 guest_file cs] select_case_number [of 1 guest_file cs]
    by (simp add: usize_max_def)
qed

text \<open>
  An identifier of ASCII is cut to its last 18 bytes. One whose cut is inside a character panics;
  the index is a file, and its parser takes any identifier.
\<close>

lemma truncate_id_ascii: "is_ascii v \<Longrightarrow> truncate_id v = Some (drop (length v - 18) v)"
proof (cases "length v \<le> 18")
  case False
  assume "is_ascii v"
  then have "(of_char (v ! (length v - 18)) :: nat) < 128"
    using False by (simp add: is_ascii_def list_all_iff)
  then show ?thesis using False by (simp add: truncate_id_def hd_drop_conv_nth)
qed (simp add: truncate_id_def)

lemma history_panics:
  assumes "ss_id ses = pre @ c # rest" and "length rest = 17" and "pre \<noteq> []"
    and "128 \<le> (of_char c :: nat)" and "(of_char c :: nat) < 192"
  shows "print_history_lines k (ses # sessions) s = Some (Inl Panicked, s)"
  using assms by (simp add: history_line_def truncate_id_def halt_with_def)

end
