(* ===== verification/Wasi_Sandbox.thy ===== *)
theory Wasi_Sandbox
  imports Network_Honeypot Decoy_Fs Async_Runner
begin

text \<open>
  The rest of \<open>src/wasi_sandbox.rs\<close>: the options of a socket, which no data passes through, and how
  the two honeypots are attached to the library's builder. The builder, the runtime and the task
  manager are the library's: their operations are the fields of \<open>wasi_library\<close>. The honeypots are
  shared handles.
\<close>

section \<open>Options of a socket\<close>

definition ttl :: "tcp_socket \<Rightarrow> u32" where
  "ttl s = ts_ttl s"

definition addr_local :: "tcp_socket \<Rightarrow> socket_addr" where
  "addr_local s = ts_local_addr s"

definition addr_peer :: "tcp_socket \<Rightarrow> socket_addr" where
  "addr_peer s = ts_peer_addr s"

definition set_linger :: "nat option \<Rightarrow> tcp_socket \<Rightarrow> tcp_socket" where
  "set_linger l s = s"

definition linger :: "tcp_socket \<Rightarrow> nat option" where
  "linger s = None"

definition recv_buf_size :: "tcp_socket \<Rightarrow> nat" where
  "recv_buf_size s = ts_recv_buf_size s"

definition send_buf_size :: "tcp_socket \<Rightarrow> nat" where
  "send_buf_size s = ts_send_buf_size s"

definition set_nodelay :: "bool \<Rightarrow> tcp_socket \<Rightarrow> tcp_socket" where
  "set_nodelay reuse s = s"

definition nodelay :: "tcp_socket \<Rightarrow> bool" where
  "nodelay s = True"

definition set_keepalive :: "bool \<Rightarrow> tcp_socket \<Rightarrow> tcp_socket" where
  "set_keepalive b s = s"

definition keepalive :: "tcp_socket \<Rightarrow> bool" where
  "keepalive s = False"

definition set_dontroute :: "bool \<Rightarrow> tcp_socket \<Rightarrow> tcp_socket" where
  "set_dontroute b s = s"

definition dontroute :: "tcp_socket \<Rightarrow> bool" where
  "dontroute s = False"

definition is_closed :: "tcp_socket \<Rightarrow> bool" where
  "is_closed s = ts_closed s"

text \<open>
  A socket without its options and its handler. Options do not reach the data: from sockets that
  differ in their options only, every operation gives the same result and the same log, and leaves
  sockets that differ in their options only.
\<close>

definition bare :: "tcp_socket \<Rightarrow> tcp_socket" where
  "bare s = s\<lparr>ts_ttl := 0, ts_recv_buf_size := 0, ts_send_buf_size := 0, ts_handler := None\<rparr>"

lemma bare_options [simp]:
  "bare (set_ttl t s) = bare s" "bare (set_recv_buf_size n s) = bare s" "bare (set_send_buf_size n s) = bare s"
  "bare (set_handler s) = bare s" "bare (remove_handler s) = bare s" "bare (push_interest i s) = bare s"
  "bare (set_linger l s) = bare s" "bare (set_nodelay b s) = bare s" "bare (set_keepalive b s) = bare s"
  "bare (set_dontroute b s) = bare s"
  by (simp_all add: bare_def set_ttl_def set_recv_buf_size_def set_send_buf_size_def set_handler_def
      remove_handler_def push_interest_def set_linger_def set_nodelay_def set_keepalive_def set_dontroute_def)

lemma bare_eq:
  "bare s = bare s' \<longleftrightarrow> ts_local_addr s = ts_local_addr s' \<and> ts_peer_addr s = ts_peer_addr s' \<and>
     ts_domain s = ts_domain s' \<and> ts_request s = ts_request s' \<and> ts_response s = ts_response s' \<and>
     ts_response_offset s = ts_response_offset s' \<and> ts_response_ready s = ts_response_ready s' \<and>
     ts_payload_logged s = ts_payload_logged s' \<and> ts_mock_logged s = ts_mock_logged s' \<and> ts_closed s = ts_closed s'"
  by (cases s; cases s') (auto simp: bare_def)

definition same_data :: "connection \<Rightarrow> connection \<Rightarrow> bool" where
  "same_data ns ns' \<longleftrightarrow> fst ns = fst ns' \<and> bare (snd ns) = bare (snd ns')"

lemma same_data_prepare:
  "same_data ns ns' \<Longrightarrow> same_data (record_payload_and_prepare_response ns) (record_payload_and_prepare_response ns')"
  by (simp add: same_data_def bare_eq record_payload_and_prepare_response_def push_interest_def Let_def case_prod_unfold)

lemma same_data_if: "b = b' \<Longrightarrow> same_data x x' \<Longrightarrow> same_data y y' \<Longrightarrow> same_data (if b then x else y) (if b' then x' else y')"
  by simp

lemma options_inert:
  assumes "same_data ns ns'"
  shows "fst (socket_step op ns) = fst (socket_step op ns') \<and>
    same_data (snd (socket_step op ns)) (snd (socket_step op ns'))"
proof -
  obtain n s s' where ns: "ns = (n, s)" "ns' = (n, s')" "bare s = bare s'"
    using assms by (cases ns; cases ns') (simp add: same_data_def)
  note eq = ns(3) [unfolded bare_eq]
  show ?thesis
  proof (cases op)
    case (Send bytes)
    let ?capture = "\<lambda>s. s\<lparr>ts_request := ts_request s @
        take (min (MAX_CAPTURED_REQUEST_BYTES - length (ts_request s)) (length bytes)) bytes\<rparr>"
    have "same_data (n, ?capture s) (n, ?capture s')" using eq by (simp add: same_data_def bare_eq)
    then show ?thesis using eq ns Send
      by (simp add: try_send_def Let_def same_data_prepare) (simp add: same_data_def bare_eq)
  next
    case (Recv len peek)
    show ?thesis
    proof (cases "ts_response_ready s'")
      case True
      then show ?thesis using eq ns Recv
        by (simp add: try_recv_def Let_def) (simp add: same_data_def bare_eq push_interest_def)
    next
      case False
      obtain m r m' r' where prep: "record_payload_and_prepare_response (n, s) = (m, r)"
        "record_payload_and_prepare_response (n, s') = (m', r')" by (metis prod.exhaust)
      then have "m = m' \<and> bare r = bare r'"
        using same_data_prepare [of "(n, s)" "(n, s')"] ns(3) by (simp add: same_data_def)
      then show ?thesis using eq ns Recv False prep
        by (simp add: try_recv_def bare_eq Let_def) (simp add: same_data_def bare_eq push_interest_def)
    qed
  qed (use eq ns same_data_prepare [of "(n, s)" "(n, s')"] in
      \<open>simp_all add: try_flush_def close_socket_def shutdown_def push_interest_def same_data_def bare_eq\<close>)
qed

section \<open>Attaching the honeypots\<close>

datatype network_sandbox_error = MissingTokioRuntime string

definition network_sandbox_error_display :: "network_sandbox_error \<Rightarrow> string" where
  "network_sandbox_error_display err =
     (case err of MissingTokioRuntime e \<Rightarrow> ''network sandbox requires an active tokio runtime: '' @ e)"

record ('b, 'fs, 'net, 'e, 'h, 'rt) wasi_library =
  wl_builder :: "string \<Rightarrow> 'b"
  wl_set_fs :: "'fs \<Rightarrow> 'b \<Rightarrow> 'b"
  wl_preopen :: "string list \<Rightarrow> 'b \<Rightarrow> string + 'b"
  wl_handle :: "string + 'h"
  wl_runtime :: "'h \<Rightarrow> 'rt"
  wl_set_engine :: "'e \<Rightarrow> 'rt \<Rightarrow> 'rt"
  wl_set_networking :: "'net \<Rightarrow> 'rt \<Rightarrow> 'rt"
  wl_set_runtime :: "'rt \<Rightarrow> 'b \<Rightarrow> 'b"

definition honeypot_runtime ::
  "('b, 'fs, 'net, 'e, 'h, 'rt) wasi_library \<Rightarrow> 'net \<Rightarrow> 'e \<Rightarrow> network_sandbox_error + 'rt" where
  "honeypot_runtime lib net engine =
     result_bind (map_err MissingTokioRuntime (wl_handle lib)) (\<lambda>handle.
       Inr (wl_set_networking lib net (wl_set_engine lib engine (wl_runtime lib handle))))"

definition apply_to_builder ::
  "('b, 'fs, 'net, 'e, 'h, 'rt) wasi_library \<Rightarrow> 'net \<Rightarrow> 'b \<Rightarrow> 'e \<Rightarrow> network_sandbox_error + 'b" where
  "apply_to_builder lib net builder engine =
     result_bind (honeypot_runtime lib net engine) (\<lambda>rt. Inr (wl_set_runtime lib rt builder))"

definition fs_wasi_builder ::
  "('b, 'fs, 'net, 'e, 'h, 'rt) wasi_library \<Rightarrow> 'fs \<Rightarrow> string \<Rightarrow> sectest_error + 'b" where
  "fs_wasi_builder lib fs program_name =
     map_err WasiSandbox (wl_preopen lib [''/''] (wl_set_fs lib fs (wl_builder lib program_name)))"

record ('fs, 'net) wasi_honeypot_sandbox =
  sb_filesystem :: 'fs
  sb_network :: 'net

definition sandbox_wasi_builder ::
  "('b, 'fs, 'net, 'e, 'h, 'rt) wasi_library \<Rightarrow> ('fs, 'net) wasi_honeypot_sandbox \<Rightarrow> string \<Rightarrow> 'e \<Rightarrow> sectest_error + 'b" where
  "sandbox_wasi_builder lib sb program_name engine =
     result_bind (fs_wasi_builder lib (sb_filesystem sb) program_name) (\<lambda>builder.
       map_err (\<lambda>err. WasiSandbox (network_sandbox_error_display err))
         (apply_to_builder lib (sb_network sb) builder engine))"

text \<open>
  A sandbox is built with both honeypots or not at all: a guest never gets a builder that has only
  one of them, and outside of a runtime the setup fails with a message that says so.
\<close>

lemma sandbox_has_both:
  "sandbox_wasi_builder lib sb program_name engine = Inr b \<longleftrightarrow>
     (\<exists>opened handle. wl_preopen lib [''/''] (wl_set_fs lib (sb_filesystem sb) (wl_builder lib program_name)) = Inr opened \<and>
        wl_handle lib = Inr handle \<and>
        b = wl_set_runtime lib (wl_set_networking lib (sb_network sb)
          (wl_set_engine lib engine (wl_runtime lib handle))) opened)"
  by (cases "wl_handle lib"; cases "wl_preopen lib [''/''] (wl_set_fs lib (sb_filesystem sb) (wl_builder lib program_name))")
    (auto simp: sandbox_wasi_builder_def fs_wasi_builder_def apply_to_builder_def honeypot_runtime_def)

lemma sandbox_needs_runtime:
  assumes "wl_handle lib = Inl e"
    and "wl_preopen lib [''/''] (wl_set_fs lib (sb_filesystem sb) (wl_builder lib program_name)) = Inr opened"
  shows "\<exists>err. sandbox_wasi_builder lib sb program_name engine = Inl err \<and> sectest_error_display err =
    ''WASI sandbox setup failed: network sandbox requires an active tokio runtime: '' @ e"
  using assms by (simp add: sandbox_wasi_builder_def fs_wasi_builder_def apply_to_builder_def honeypot_runtime_def
      network_sandbox_error_display_def)

end
