(* ===== verification/Wasi_Guest.thy ===== *)
theory Wasi_Guest
  imports Network_Honeypot Session
begin

text \<open>
  The guest of the network demonstration, \<open>guests/wasi_network_fetch.rs\<close>: a program that resolves a
  name, connects, sends one HTTP request and prints the response. Its five system calls are an
  argument (\<open>wasix\<close>), functions of a state of the host. \<open>usize\<close> has 32 bits in the guest, and whether
  its arithmetic is checked depends on how it is built (\<open>checks\<close>).
\<close>

section \<open>System calls\<close>

definition HOST :: string where "HOST = ''jsonplaceholder.typicode.com''"
definition PATH :: string where "PATH = ''/users/1''"
definition PORT :: u16 where "PORT = 80"
definition ERRNO_SUCCESS :: u16 where "ERRNO_SUCCESS = 0"
definition ADDRESS_FAMILY_INET4 :: u32 where "ADDRESS_FAMILY_INET4 = 1"
definition SOCK_TYPE_STREAM :: u32 where "SOCK_TYPE_STREAM = 1"
definition SOCK_PROTO_TCP :: u32 where "SOCK_PROTO_TCP = 6"

record wasi_addr =
  wa_tag :: u8
  wa_octs :: "u8 list"

record wasi_addr_port =
  wp_tag :: u8
  wp_octs :: "u8 list"

text \<open>
  A call gives the error number and what it left in the memory it was passed: the array of
  addresses and their number, the socket, the bytes accepted, the buffer and the bytes read.
\<close>

record 'w wasix =
  wx_resolve :: "u8 list \<Rightarrow> u16 \<Rightarrow> u32 \<Rightarrow> 'w \<Rightarrow> (u16 \<times> wasi_addr list \<times> u32) \<times> 'w"
  wx_sock_open :: "u32 \<Rightarrow> u32 \<Rightarrow> u32 \<Rightarrow> 'w \<Rightarrow> (u16 \<times> u32) \<times> 'w"
  wx_sock_connect :: "u32 \<Rightarrow> wasi_addr_port \<Rightarrow> 'w \<Rightarrow> u16 \<times> 'w"
  wx_sock_send :: "u32 \<Rightarrow> u8 list \<Rightarrow> u16 \<Rightarrow> 'w \<Rightarrow> (u16 \<times> u32) \<times> 'w"
  wx_sock_recv :: "u32 \<Rightarrow> u8 list \<Rightarrow> u16 \<Rightarrow> 'w \<Rightarrow> (u16 \<times> u8 list \<times> u32) \<times> 'w"

text \<open>The guest fails with a message, or panics, which traps.\<close>

datatype guest_failure = Failed string | Trapped

type_synonym ('w, 'a) guest_call = "'w \<Rightarrow> (guest_failure + 'a) \<times> 'w"

definition call_bind :: "('w, 'a) guest_call \<Rightarrow> ('a \<Rightarrow> ('w, 'b) guest_call) \<Rightarrow> ('w, 'b) guest_call" where
  "call_bind m f w = (case m w of (Inl e, w') \<Rightarrow> (Inl e, w') | (Inr x, w') \<Rightarrow> f x w')"

definition ensure_success :: "string \<Rightarrow> u16 \<Rightarrow> guest_failure + unit" where
  "ensure_success call errno =
     (if errno = ERRNO_SUCCESS then Inr ()
      else Inl (Failed (call @ '' returned errno '' @ show_nat (unat errno))))"

section \<open>The calls\<close>

definition resolve_host :: "'w wasix \<Rightarrow> string \<Rightarrow> u16 \<Rightarrow> ('w, wasi_addr_port) guest_call" where
  "resolve_host wx host port w =
     (case wx_resolve wx (bytes_of_string host) port 4 w of
        ((errno, addrs, found), w') \<Rightarrow>
          (result_bind (ensure_success ''resolve'' errno) (\<lambda>_.
             case find (\<lambda>a. ucast (wa_tag a) = ADDRESS_FAMILY_INET4) (take (unat found) addrs) of
               None \<Rightarrow> Inl (Failed ''resolver returned no IPv4 address'')
             | Some first \<Rightarrow> Inr \<lparr>wp_tag = wa_tag first,
                 wp_octs = [ucast port, ucast (drop_bit 8 port)] @ take 4 (wa_octs first) @ replicate 12 0\<rparr>), w'))"

definition open_tcp_socket :: "'w wasix \<Rightarrow> ('w, u32) guest_call" where
  "open_tcp_socket wx w =
     (case wx_sock_open wx ADDRESS_FAMILY_INET4 SOCK_TYPE_STREAM SOCK_PROTO_TCP w of
        ((errno, sock), w') \<Rightarrow> (result_bind (ensure_success ''sock_open'' errno) (\<lambda>_. Inr sock), w'))"

definition connect_peer :: "'w wasix \<Rightarrow> u32 \<Rightarrow> wasi_addr_port \<Rightarrow> ('w, unit) guest_call" where
  "connect_peer wx sock peer w =
     (case wx_sock_connect wx sock peer w of (errno, w') \<Rightarrow> (ensure_success ''sock_connect'' errno, w'))"

function send_all :: "'w wasix \<Rightarrow> u32 \<Rightarrow> u8 list \<Rightarrow> ('w, unit) guest_call" where
  "send_all wx sock bytes w =
     (if bytes = [] then (Inr (), w)
      else
        (case wx_sock_send wx sock bytes 0 w of
           ((errno, sent), w') \<Rightarrow>
             (case ensure_success ''sock_send'' errno of
                Inl e \<Rightarrow> (Inl e, w')
              | Inr _ \<Rightarrow>
                  if sent = 0 then (Inl (Failed ''sock_send wrote zero bytes''), w')
                  else if length bytes < unat sent then (Inl Trapped, w')
                  else send_all wx sock (drop (unat sent) bytes) w')))"
  by pat_completeness auto
termination
  by (relation "measure (\<lambda>(wx, sock, bytes, w). length bytes)") (auto simp: unat_gt_0)

declare send_all.simps [simp del]

section \<open>The response\<close>

text \<open>\<open>windows(n).position(..)\<close>.\<close>

fun window_position :: "'a list \<Rightarrow> 'a list \<Rightarrow> nat option" where
  "window_position pat [] = None"
| "window_position pat (x # xs) =
     (if take (length pat) (x # xs) = pat then Some 0 else map_option Suc (window_position pat xs))"

definition split_http_headers :: "u8 list \<Rightarrow> (nat \<times> u8 list) option" where
  "split_http_headers response =
     (case window_position [13, 10, 13, 10] response of
        Some pos \<Rightarrow> Some (pos + 4, take pos response)
      | None \<Rightarrow> map_option (\<lambda>pos. (pos + 2, take pos response)) (window_position [10, 10] response))"

definition eq_ignore_ascii_case :: "string \<Rightarrow> string \<Rightarrow> bool" where
  "eq_ignore_ascii_case a b \<longleftrightarrow> to_ascii_lowercase a = to_ascii_lowercase b"

fun length_header :: "string list \<Rightarrow> guest_failure + nat option" where
  "length_header [] = Inr None"
| "length_header (l # ls) =
     (case split_once CHR '':'' l of
        None \<Rightarrow> length_header ls
      | Some (name, value) \<Rightarrow>
          if eq_ignore_ascii_case (trim name) ''content-length'' then
            (case parse_uint (2 ^ 32 - 1) (trim value) of
               Inr n \<Rightarrow> Inr (Some n)
             | Inl err \<Rightarrow>
                 Inl (Failed (''invalid content-length in mock response: '' @ int_error_display err)))
          else length_header ls)"

text \<open>\<open>utf8_error\<close> is the library's description of the first bad byte.\<close>

definition content_length :: "(u8 list \<Rightarrow> string) \<Rightarrow> u8 list \<Rightarrow> guest_failure + nat option" where
  "content_length utf8_error headers =
     (case from_utf8 headers of
        None \<Rightarrow> Inl (Failed (''mock response headers were not UTF-8: '' @ utf8_error headers))
      | Some text \<Rightarrow> length_header (lines text))"

definition http_response_complete :: "(u8 list \<Rightarrow> string) \<Rightarrow> bool \<Rightarrow> u8 list \<Rightarrow> guest_failure + bool" where
  "http_response_complete utf8_error checks response =
     (case split_http_headers response of
        None \<Rightarrow> Inr False
      | Some (header_len, headers) \<Rightarrow>
          result_bind (content_length utf8_error headers) (\<lambda>content_len.
            case content_len of
              None \<Rightarrow> Inr False
            | Some content_len \<Rightarrow>
                if checks \<and> 2 ^ 32 \<le> header_len + content_len then Inl Trapped
                else Inr ((header_len + content_len) mod 2 ^ 32 \<le> length response)))"

text \<open>The loop of \<open>recv_http_response\<close>; \<open>chunk\<close> is the buffer, which keeps its old contents.\<close>

function recv_loop :: "'w wasix \<Rightarrow> (u8 list \<Rightarrow> string) \<Rightarrow> bool \<Rightarrow> u32 \<Rightarrow> u8 list \<Rightarrow> u8 list \<Rightarrow> ('w, u8 list) guest_call" where
  "recv_loop wx utf8_error checks sock response chunk w =
     (case wx_sock_recv wx sock chunk 0 w of
        ((errno, chunk, read), w') \<Rightarrow>
          (case ensure_success ''sock_recv'' errno of
             Inl e \<Rightarrow> (Inl e, w')
           | Inr _ \<Rightarrow>
               if read = 0 then (Inr response, w')
               else if length chunk < unat read then (Inl Trapped, w')
               else
                 (let response = response @ take (unat read) chunk in
                  case http_response_complete utf8_error checks response of
                    Inl e \<Rightarrow> (Inl e, w')
                  | Inr True \<Rightarrow> (Inr response, w')
                  | Inr False \<Rightarrow>
                      if 64 * 1024 < length response then
                        (Inl (Failed ''mock response exceeded 64 KiB''), w')
                      else recv_loop wx utf8_error checks sock response chunk w')))"
  by pat_completeness auto
termination
  by (relation "measure (\<lambda>(wx, utf8_error, checks, sock, response, chunk, w). 64 * 1024 + 1 - length response)")
    (auto simp: unat_gt_0 min_def intro!: diff_less_mono2)

declare recv_loop.simps [simp del]

definition recv_http_response ::
  "'w wasix \<Rightarrow> (u8 list \<Rightarrow> string) \<Rightarrow> bool \<Rightarrow> u32 \<Rightarrow> ('w, u8 list) guest_call" where
  "recv_http_response wx utf8_error checks sock = recv_loop wx utf8_error checks sock [] (replicate 1024 0)"

section \<open>The guest\<close>

definition request :: string where
  "request = ''GET '' @ PATH @ '' HTTP/1.1'' @ crlf @ ''Host: '' @ HOST @ crlf @ ''Connection: close'' @ crlf @ crlf"

definition fetch_run :: "'w wasix \<Rightarrow> (u8 list \<Rightarrow> string) \<Rightarrow> bool \<Rightarrow> ('w, string) guest_call" where
  "fetch_run wx utf8_error checks =
     call_bind (resolve_host wx HOST PORT) (\<lambda>peer.
     call_bind (open_tcp_socket wx) (\<lambda>sock.
     call_bind (connect_peer wx sock peer) (\<lambda>_.
     call_bind (send_all wx sock (bytes_of_string request)) (\<lambda>_.
     call_bind (recv_http_response wx utf8_error checks sock) (\<lambda>response w.
       (case from_utf8 response of
          Some text \<Rightarrow> Inr text
        | None \<Rightarrow> Inl (Failed (''mock response was not UTF-8: '' @ utf8_error response)), w))))))"

text \<open>What the guest prints, on its two streams, and its exit code; \<open>None\<close> if it traps.\<close>

definition fetch_main :: "'w wasix \<Rightarrow> (u8 list \<Rightarrow> string) \<Rightarrow> bool \<Rightarrow> 'w \<Rightarrow> (nat \<times> string \<times> string) option \<times> 'w" where
  "fetch_main wx utf8_error checks w =
     (case fetch_run wx utf8_error checks w of
        (Inr response, w') \<Rightarrow> (Some (0, line response, []), w')
      | (Inl (Failed err), w') \<Rightarrow> (Some (1, [], line (''wasi network demo failed: '' @ err)), w')
      | (Inl Trapped, w') \<Rightarrow> (None, w'))"

section \<open>The guest always ends, and reads no more than it should\<close>

text \<open>
  The system calls keep the length of the buffer. Then the response has at most one buffer more than
  the limit. (Both loops are total functions: the guest ends whenever its calls do.)
\<close>

lemma recv_loop_bounded:
  assumes "\<And>sock chunk w. length (fst (snd (fst (wx_sock_recv wx sock chunk 0 w)))) = length chunk"
    and "recv_loop wx utf8_error checks sock response chunk w = (Inr all, w')"
    and "length response \<le> 64 * 1024"
  shows "prefix response all \<and> length all \<le> 64 * 1024 + length chunk"
  using assms
proof (induction wx utf8_error checks sock response chunk w rule: recv_loop.induct [case_names step])
  case (step wx utf8_error checks sock response chunk w)
  obtain errno chunk' read w1 where r: "wx_sock_recv wx sock chunk 0 w = ((errno, chunk', read), w1)"
    by (metis prod.exhaust)
  have len: "length chunk' = length chunk" using step.prems(1) [of sock chunk w] by (simp add: r)
  let ?next = "response @ take (unat read) chunk'"
  have grows: "length ?next \<le> length response + length chunk" using len by simp
  show ?case
  proof (cases "ensure_success ''sock_recv'' errno = Inr () \<and> read \<noteq> 0 \<and> unat read \<le> length chunk' \<and>
      http_response_complete utf8_error checks ?next = Inr False \<and> length ?next \<le> 64 * 1024")
    case True
    then have loop: "recv_loop wx utf8_error checks sock response chunk w =
        recv_loop wx utf8_error checks sock ?next chunk' w1"
      by (subst recv_loop.simps) (simp add: r Let_def min_def split: if_splits)
    have "prefix ?next all \<and> length all \<le> 64 * 1024 + length chunk'"
      using True step.prems(2) unfolding loop
      by (intro step.IH [OF r [symmetric] refl refl _ _ _ refl _ _ _ step.prems(1)]) auto
    then show ?thesis using len by (auto intro: prefix_order.trans [of response ?next])
  next
    case False
    then have "all = response \<or> all = ?next"
      using step.prems(2) by (subst (asm) recv_loop.simps)
        (auto simp: r Let_def split: sum.splits if_splits bool.splits)
    then show ?thesis using grows step.prems(3) by auto
  qed
qed

section \<open>A host that passes the calls on to the network honeypot\<close>

definition wasi_addr_of :: "ip_addr \<Rightarrow> wasi_addr" where
  "wasi_addr_of ip =
     (case ip of
        V4 a b c d \<Rightarrow> \<lparr>wa_tag = 1, wa_octs = [a, b, c, d] @ replicate 12 0\<rparr>
      | V6 a b c d e f g h \<Rightarrow>
          \<lparr>wa_tag = 2, wa_octs = concat (map (\<lambda>x. [ucast (drop_bit 8 x), ucast x]) [a, b, c, d, e, f, g, h])\<rparr>)"

definition peer_octs :: "socket_addr \<Rightarrow> u8 list" where
  "peer_octs peer = [ucast (sa_port peer), ucast (drop_bit 8 (sa_port peer))] @ take 16 (wa_octs (wasi_addr_of (sa_ip peer)))"

text \<open>
  What the guest relies on: the library hands each call to the networking implementation and
  returns its answer, without an error number. It may ask the honeypot for readiness in between,
  which changes only the handler of the socket. \<open>net\<close> and \<open>tcp\<close> read the honeypot and the guest's
  connection off the host's state.
\<close>

text \<open>What the log of a new honeypot holds after the guest's run.\<close>

definition fetch_evidence :: "network_event list" where
  "fetch_evidence =
     (let peer = \<lparr>sa_ip = fst (deterministic_honeypot_ips HOST), sa_port = PORT\<rparr>;
          event = (\<lambda>op payload n. \<lparr>ne_target = peer, ne_domain = Some HOST, ne_operation = op,
            ne_payload = payload, ne_mocked_response_bytes = n\<rparr>)
      in [event ResolveIntercepted [] 0, event ConnectIntercepted [] 0,
          event PayloadCaptured (bytes_of_string request) 0,
          event MockResponseInjected [] (length default_mock_http_response)])"

lemma mock_complete: "http_response_complete utf8_error checks default_mock_http_response = Inr True"
proof -
  have "split_http_headers default_mock_http_response =
      Some (length default_mock_http_response - length DEFAULT_MOCK_JSON,
        take (length default_mock_http_response - length DEFAULT_MOCK_JSON - 4) default_mock_http_response)"
    by code_simp
  moreover have "content_length utf8_error (take (length default_mock_http_response - length DEFAULT_MOCK_JSON - 4)
      default_mock_http_response) = Inr (Some (length DEFAULT_MOCK_JSON))"
    by code_simp
  moreover have "length DEFAULT_MOCK_JSON \<le> length default_mock_http_response" "length default_mock_http_response < 2 ^ 32"
    by code_simp+
  ultimately show ?thesis by (simp add: http_response_complete_def)
qed

locale honeypot_network =
  fixes wx :: "'w wasix" and net :: "'w \<Rightarrow> network_honeypot" and tcp :: "'w \<Rightarrow> tcp_socket option"
    and first_key :: "(ip_addr \<times> string) list \<Rightarrow> ip_addr option" and fd :: u32
  assumes resolve_law: "resolve first_key host (Some port) (net w) = (Inr ips, n') \<Longrightarrow> length ips \<le> 4 \<Longrightarrow> port \<noteq> 0 \<Longrightarrow>
      \<exists>w' rest. wx_resolve wx (bytes_of_string host) port 4 w =
        ((0, map wasi_addr_of ips @ rest, word_of_nat (length ips)), w') \<and> net w' = n'"
    and open_law: "\<exists>w'. wx_sock_open wx 1 1 6 w = ((0, fd), w') \<and> net w' = net w"
    and connect_law: "sa_ip peer = V4 a b c d \<Longrightarrow>
      \<exists>w' local s n'. wx_sock_connect wx fd \<lparr>wp_tag = 1, wp_octs = peer_octs peer\<rparr> w = (0, w') \<and>
        connect_tcp local peer (net w) = (Inr s, n') \<and> net w' = n' \<and> tcp w' = Some s"
    and send_law: "tcp w = Some s \<Longrightarrow> try_send bytes (net w, s) = (Inr k, n', s') \<Longrightarrow>
      \<exists>w' h. wx_sock_send wx fd bytes 0 w = ((0, word_of_nat k), w') \<and> net w' = n' \<and> tcp w' = Some (s'\<lparr>ts_handler := h\<rparr>)"
    and recv_law: "tcp w = Some s \<Longrightarrow> try_recv (length chunk) False (net w, s) = (Inr bs, n', s') \<Longrightarrow>
      \<exists>w' h. wx_sock_recv wx fd chunk 0 w = ((0, bs @ drop (length bs) chunk, word_of_nat (length bs)), w') \<and>
        net w' = n' \<and> tcp w' = Some (s'\<lparr>ts_handler := h\<rparr>)"
begin

lemma resolve_host_net:
  assumes "port \<noteq> 0"
  shows "\<exists>w'. resolve_host wx host port w =
      (Inr \<lparr>wp_tag = 1, wp_octs = peer_octs \<lparr>sa_ip = fst (deterministic_honeypot_ips host), sa_port = port\<rparr>\<rparr>, w') \<and>
    net w' = snd (resolve first_key host (Some port) (net w))"
proof -
  obtain d ip6 where ips: "deterministic_honeypot_ips host = (V4 203 0 113 d, ip6)"
    by (simp add: deterministic_honeypot_ips_def Let_def)
  obtain w' rest where r: "wx_resolve wx (bytes_of_string host) port 4 w =
      ((0, map wasi_addr_of [V4 203 0 113 d, ip6] @ rest, word_of_nat 2), w')"
    and n: "net w' = snd (resolve first_key host (Some port) (net w))"
    using resolve_law [of host port w "[V4 203 0 113 d, ip6]" "snd (resolve first_key host (Some port) (net w))"] assms
    by (auto simp: resolve_def ips Let_def)
  show ?thesis
    using n by (auto simp: resolve_host_def r ensure_success_def ERRNO_SUCCESS_def ADDRESS_FAMILY_INET4_def
        wasi_addr_of_def peer_octs_def ips unat_of_nat)
qed

lemma send_all_net:
  assumes "tcp w = Some s" and "\<not> ts_closed s" and "ts_request s = []" and "\<not> ts_response_ready s"
    and "bytes \<noteq> []" and "has_complete_http_headers bytes" and "length bytes \<le> MAX_CAPTURED_REQUEST_BYTES"
    and "record_payload_and_prepare_response (net w, s\<lparr>ts_request := bytes\<rparr>) = (n', s')"
  shows "\<exists>w' h. send_all wx fd bytes w = (Inr (), w') \<and> net w' = n' \<and> tcp w' = Some (s'\<lparr>ts_handler := h\<rparr>)"
proof -
  have "try_send bytes (net w, s) = (Inr (length bytes), n', s')"
    using assms by (simp add: try_send_def Let_def MAX_CAPTURED_REQUEST_BYTES_def)
  from send_law [OF assms(1) this] obtain w' h where w': "wx_sock_send wx fd bytes 0 w = ((0, word_of_nat (length bytes)), w')"
    "net w' = n'" "tcp w' = Some (s'\<lparr>ts_handler := h\<rparr>)" by blast
  have u: "unat (word_of_nat (length bytes) :: u32) = length bytes"
    using assms(7) by (simp add: unat_of_nat MAX_CAPTURED_REQUEST_BYTES_def)
  then have "(word_of_nat (length bytes) :: u32) \<noteq> 0" using assms(5) by (metis length_0_conv unat_0)
  then have "send_all wx fd bytes w = (Inr (), w')"
    using assms(5) w'(1) u by (simp add: send_all.simps [of wx fd bytes] send_all.simps [of wx fd "[]"]
        ensure_success_def ERRNO_SUCCESS_def)
  then show ?thesis using w' by blast
qed

lemma recv_net:
  assumes "tcp w = Some s" and "ts_response_ready s" and "ts_response_offset s = 0"
    and "ts_response s \<noteq> []" and "length (ts_response s) \<le> 1024"
    and "http_response_complete utf8_error checks (ts_response s) = Inr True"
  shows "\<exists>w'. recv_http_response wx utf8_error checks fd w = (Inr (ts_response s), w') \<and> net w' = net w"
proof -
  let ?m = "ts_response s" and ?chunk = "replicate 1024 (0 :: u8)"
  have "try_recv (length ?chunk) False (net w, s) = (Inr ?m, net w, s\<lparr>ts_response_offset := length ?m\<rparr>)"
    using assms by (simp add: try_recv_def Let_def)
  from recv_law [OF assms(1) this] obtain w' where
    w': "wx_sock_recv wx fd ?chunk 0 w = ((0, ?m @ drop (length ?m) ?chunk, word_of_nat (length ?m)), w')" "net w' = net w"
    by blast
  have u: "unat (word_of_nat (length ?m) :: u32) = length ?m"
    using assms(5) by (simp add: unat_of_nat)
  then have "(word_of_nat (length ?m) :: u32) \<noteq> 0" using assms(4) by (metis length_0_conv unat_0)
  then have "recv_http_response wx utf8_error checks fd w = (Inr ?m, w')"
    using w'(1) u assms(6)
    by (simp add: recv_http_response_def recv_loop.simps [of wx utf8_error checks fd "[]"] ensure_success_def
        ERRNO_SUCCESS_def Let_def)
  then show ?thesis using w'(2) by blast
qed

lemma fetch_net:
  assumes "net w = network_honeypot_new"
  shows "\<exists>w'. fetch_run wx utf8_error checks w = (Inr (string_of_bytes default_mock_http_response), w') \<and>
    nh_events (net w') = fetch_evidence"
proof -
  let ?peer = "\<lparr>sa_ip = fst (deterministic_honeypot_ips HOST), sa_port = PORT\<rparr>"
  let ?n1 = "snd (resolve first_key HOST (Some PORT) network_honeypot_new)"
  have wf: "hosts_wf network_honeypot_new"
    by (simp add: network_honeypot_new_def with_mock_response_def hosts_wf_def)
  obtain w1 where w1: "resolve_host wx HOST PORT w = (Inr \<lparr>wp_tag = 1, wp_octs = peer_octs ?peer\<rparr>, w1)"
    "net w1 = ?n1"
    using resolve_host_net [of PORT HOST w] assms by (auto simp: PORT_def)
  obtain w2 where w2: "open_tcp_socket wx w1 = (Inr fd, w2)" "net w2 = ?n1"
    using open_law [of w1] w1(2)
    by (auto simp: open_tcp_socket_def ensure_success_def ERRNO_SUCCESS_def ADDRESS_FAMILY_INET4_def
        SOCK_TYPE_STREAM_def SOCK_PROTO_TCP_def)
  obtain d where ip: "sa_ip ?peer = V4 203 0 113 d" by (simp add: deterministic_honeypot_ips_def Let_def)
  obtain w3 local s n3 where w3: "connect_peer wx fd \<lparr>wp_tag = 1, wp_octs = peer_octs ?peer\<rparr> w2 = (Inr (), w3)"
    "connect_tcp local ?peer ?n1 = (Inr s, n3)" "net w3 = n3" "tcp w3 = Some s"
    using connect_law [OF ip, of w2] w2(2) by (auto simp: connect_peer_def ensure_success_def ERRNO_SUCCESS_def)
  obtain a n2 where a: "next_local_addr local ?peer ?n1 = (a, n2)" by (rule prod.exhaust)
  have dom: "domain_for (fst (deterministic_honeypot_ips HOST)) n2 = Some HOST"
    using domain_after_resolve [OF wf, of HOST first_key "Some PORT"] next_local_addr_hosts(1) [of local ?peer ?n1]
    by (simp add: domain_for_def a)
  have mock: "nh_mock_response n2 = default_mock_http_response"
    using a by (auto simp: next_local_addr_def Let_def resolve_def remember_host_def network_honeypot_new_def
        with_mock_response_def case_prod_unfold split: if_splits)
  have s: "s = tcp_socket_new a ?peer (Some HOST) default_mock_http_response"
    using w3(2) by (auto simp: connect_tcp_def a dom mock Let_def)
  have "nh_events ?n1 = take 1 fetch_evidence"
    by (simp add: resolve_def record_net_def push_bounded_def enforce_capacity_def remember_host_def
        network_honeypot_new_def with_mock_response_def Let_def case_prod_unfold fetch_evidence_def
        HONEYPOT_EVENT_CAPACITY_def)
  then have "nh_events n2 = take 1 fetch_evidence"
    using next_local_addr_hosts(2) [of local ?peer ?n1] a by simp
  then have e3: "nh_events n3 = take 2 fetch_evidence"
    using w3(2) by (auto simp: connect_tcp_def a dom Let_def record_net_def push_bounded_def enforce_capacity_def
        fetch_evidence_def HONEYPOT_EVENT_CAPACITY_def)
  have headers: "has_complete_http_headers (bytes_of_string request)" "bytes_of_string request \<noteq> []"
    "length (bytes_of_string request) \<le> MAX_CAPTURED_REQUEST_BYTES"
    by code_simp+
  obtain n4 s4 where prep: "record_payload_and_prepare_response (n3, s\<lparr>ts_request := bytes_of_string request\<rparr>) = (n4, s4)"
    by (rule prod.exhaust)
  obtain w4 h where w4: "send_all wx fd (bytes_of_string request) w3 = (Inr (), w4)" "net w4 = n4"
    "tcp w4 = Some (s4\<lparr>ts_handler := h\<rparr>)"
    using send_all_net [OF w3(4) _ _ _ headers(2,1,3)] prep w3(3) by (auto simp: s tcp_socket_new_def)
  have e4: "nh_events n4 = fetch_evidence"
    using prep e3 by (auto simp: record_payload_and_prepare_response_def s tcp_socket_new_def Let_def record_net_def
        push_bounded_def enforce_capacity_def fetch_evidence_def HONEYPOT_EVENT_CAPACITY_def)
  have s4: "ts_response_ready s4" "ts_response_offset s4 = 0" "ts_response s4 = default_mock_http_response"
    using prep by (auto simp: record_payload_and_prepare_response_def push_interest_def s tcp_socket_new_def Let_def)
  have mock: "default_mock_http_response \<noteq> []" "length default_mock_http_response \<le> 1024"
    "from_utf8 default_mock_http_response = Some (string_of_bytes default_mock_http_response)"
    by code_simp+
  obtain w5 where "recv_http_response wx utf8_error checks fd w4 = (Inr default_mock_http_response, w5)" "net w5 = n4"
    using recv_net [OF w4(3), of utf8_error checks] s4 mock mock_complete w4(2) by auto
  then show ?thesis
    using w1(1) w2(1) w3(1) w4(1) e4 mock(3) by (simp add: fetch_run_def call_bind_def)
qed

end

section \<open>The honeypot behind the calls\<close>

text \<open>A host that keeps nothing but the honeypot and the guest's one connection.\<close>

record relay =
  rl_net :: network_honeypot
  rl_tcp :: "tcp_socket option"

definition port_of :: "u8 \<Rightarrow> u8 \<Rightarrow> u16" where
  "port_of lo hi = or (ucast lo) (push_bit 8 (ucast hi))"

lemma port_of_bytes: "port_of (ucast p) (ucast (drop_bit 8 p)) = p"
  by (rule bit_word_eqI) (auto simp: port_of_def bit_simps)

definition relay_connect :: "wasi_addr_port \<Rightarrow> relay \<Rightarrow> u16 \<times> relay" where
  "relay_connect addr w =
     (case wp_octs addr of
        lo # hi # a # b # c # d # _ \<Rightarrow>
          (case connect_tcp \<lparr>sa_ip = V4 0 0 0 0, sa_port = 0\<rparr> \<lparr>sa_ip = V4 a b c d, sa_port = port_of lo hi\<rparr> (rl_net w) of
             (Inr s, n) \<Rightarrow> (0, \<lparr>rl_net = n, rl_tcp = Some s\<rparr>)
           | (Inl e, n) \<Rightarrow> (2, \<lparr>rl_net = n, rl_tcp = None\<rparr>))
      | _ \<Rightarrow> (28, w))"

definition relay_send :: "u8 list \<Rightarrow> relay \<Rightarrow> (u16 \<times> u32) \<times> relay" where
  "relay_send bytes w =
     (case rl_tcp w of
        None \<Rightarrow> ((57, 0), w)
      | Some s \<Rightarrow>
          (case try_send bytes (rl_net w, s) of
             (Inr k, n, s) \<Rightarrow> ((0, word_of_nat k), \<lparr>rl_net = n, rl_tcp = Some s\<rparr>)
           | (Inl e, n, s) \<Rightarrow> ((15, 0), \<lparr>rl_net = n, rl_tcp = Some s\<rparr>)))"

definition relay_recv :: "u8 list \<Rightarrow> relay \<Rightarrow> (u16 \<times> u8 list \<times> u32) \<times> relay" where
  "relay_recv chunk w =
     (case rl_tcp w of
        None \<Rightarrow> ((57, chunk, 0), w)
      | Some s \<Rightarrow>
          (case try_recv (length chunk) False (rl_net w, s) of
             (Inr bs, n, s) \<Rightarrow>
               ((0, bs @ drop (length bs) chunk, word_of_nat (length bs)), \<lparr>rl_net = n, rl_tcp = Some s\<rparr>)
           | (Inl e, n, s) \<Rightarrow> ((6, chunk, 0), \<lparr>rl_net = n, rl_tcp = Some s\<rparr>)))"

definition relay_resolve :: "u8 list \<Rightarrow> u16 \<Rightarrow> relay \<Rightarrow> (u16 \<times> wasi_addr list \<times> u32) \<times> relay" where
  "relay_resolve host port w =
     (case resolve (\<lambda>_. None) (string_of_bytes host) (Some port) (rl_net w) of
        (Inr ips, n) \<Rightarrow> ((0, map wasi_addr_of ips, word_of_nat (length ips)), w\<lparr>rl_net := n\<rparr>)
      | (Inl e, n) \<Rightarrow> ((1, [], 0), w\<lparr>rl_net := n\<rparr>))"

definition relay :: "relay wasix" where
  "relay = \<lparr>wx_resolve = \<lambda>host port n. relay_resolve host port, wx_sock_open = \<lambda>_ _ _ w. ((0, 3), w),
     wx_sock_connect = \<lambda>sock. relay_connect, wx_sock_send = \<lambda>sock bytes flags. relay_send bytes,
     wx_sock_recv = \<lambda>sock chunk flags. relay_recv chunk\<rparr>"

lemma connect_tcp_Inr: "\<exists>s n'. connect_tcp local peer n = (Inr s, n')"
  by (simp add: connect_tcp_def Let_def case_prod_unfold)

lemma same_handler: "\<exists>h. s = s\<lparr>ts_handler := h\<rparr>"
  by (rule exI [of _ "ts_handler s"]) simp

interpretation relayed: honeypot_network relay rl_net rl_tcp "\<lambda>_. None" 3
proof
  show "\<exists>w' rest. wx_resolve relay (bytes_of_string host) port 4 w =
      ((0, map wasi_addr_of ips @ rest, word_of_nat (length ips)), w') \<and> rl_net w' = n'"
    if "resolve (\<lambda>_. None) host (Some port) (rl_net w) = (Inr ips, n')" for host port w ips n'
    using that by (simp add: relay_def relay_resolve_def)
  show "\<exists>w' local s n'. wx_sock_connect relay 3 \<lparr>wp_tag = 1, wp_octs = peer_octs peer\<rparr> w = (0, w') \<and>
      connect_tcp local peer (rl_net w) = (Inr s, n') \<and> rl_net w' = n' \<and> rl_tcp w' = Some s"
    if ip: "sa_ip peer = V4 a b c d" for peer a b c d w
  proof -
    obtain port where peer: "peer = \<lparr>sa_ip = V4 a b c d, sa_port = port\<rparr>" using ip by (cases peer) simp
    obtain s n' where "connect_tcp \<lparr>sa_ip = V4 0 0 0 0, sa_port = 0\<rparr> peer (rl_net w) = (Inr s, n')"
      using connect_tcp_Inr by blast
    moreover from this have "wx_sock_connect relay 3 \<lparr>wp_tag = 1, wp_octs = peer_octs peer\<rparr> w =
        (0, \<lparr>rl_net = n', rl_tcp = Some s\<rparr>)"
      by (simp add: peer relay_def relay_connect_def peer_octs_def wasi_addr_of_def port_of_bytes)
    ultimately show ?thesis by force
  qed
qed (auto simp: relay_def relay_send_def relay_recv_def same_handler)

text \<open>
  C9. The demonstration works, end to end. Let the guest's system calls be passed on to a new
  network honeypot. Then the guest ends with 0 and prints exactly the mock response, and the log of
  the honeypot holds four events, all for port 80 of the synthetic address of the guest's host and
  under that host's name: the resolution, the connection, the payload, which is the whole request
  the guest sent, and the injected response with its length.
\<close>

theorem fetch_meets_honeypot:
  assumes "honeypot_network wx net tcp first_key fd" and "net w = network_honeypot_new"
  shows "\<exists>w'. fetch_main wx utf8_error checks w = (Some (0, line (string_of_bytes default_mock_http_response), []), w') \<and>
    nh_events (net w') = fetch_evidence"
  using honeypot_network.fetch_net [OF assms, of utf8_error checks] by (auto simp: fetch_main_def)

lemma fetch_meets_honeypot_witness:
  "\<exists>w'. fetch_main relay (\<lambda>_. []) False \<lparr>rl_net = network_honeypot_new, rl_tcp = None\<rparr> =
      (Some (0, line (string_of_bytes default_mock_http_response), []), w') \<and> nh_events (rl_net w') = fetch_evidence"
  by (rule fetch_meets_honeypot [OF relayed.honeypot_network_axioms]) simp

section \<open>A length that wraps\<close>

text \<open>
  The end of the response is computed without a check. A server that announces the largest length
  makes the sum wrap in a guest built for release, which takes the response for complete at once,
  and makes one built with checks trap.
\<close>

lemma announced_length_wraps:
  assumes "m = bytes_of_string (''content-length: 4294967295'' @ [lf_char, lf_char])"
  shows "http_response_complete utf8_error False m = Inr True" and "http_response_complete utf8_error True m = Inl Trapped"
proof -
  have "split_http_headers m = Some (28, take 26 m)" unfolding assms by code_simp
  moreover have "content_length utf8_error (take 26 m) = Inr (Some 4294967295)" unfolding assms by code_simp
  moreover have "length m = 28" unfolding assms by code_simp
  ultimately show "http_response_complete utf8_error False m = Inr True" "http_response_complete utf8_error True m = Inl Trapped"
    by (simp_all add: http_response_complete_def)
qed

end
