(* ===== verification/Optimizer.thy ===== *)
theory Optimizer
  imports Prelude
begin

text \<open>
  The barrier optimiser of \<open>src/math.rs\<close> and \<open>src/optimizer.rs\<close>, two files beside the crate. Its numbers
  are 64 bit floating point; the arithmetic is an argument (\<open>arith\<close>), with no law assumed of it, so
  what is proved holds whatever rounding does, not-a-number and infinities included. Arrays of eight
  numbers are lists. The clock in the state is left out; no operation reads it.
\<close>

section \<open>Arithmetic\<close>

text \<open>
  \<open>flit m e\<close> is the literal \<open>m\<close> times ten to the power \<open>e\<close>; \<open>fsum0\<close> is where the library's sum of a
  sequence begins. Comparisons are false on not-a-number.
\<close>

record 'f arith =
  flit :: "int \<Rightarrow> int \<Rightarrow> 'f"
  fnat :: "nat \<Rightarrow> 'f"
  fsum0 :: 'f
  finfinity :: 'f
  fnan :: 'f
  fpi :: 'f
  fadd :: "'f \<Rightarrow> 'f \<Rightarrow> 'f"
  fsub :: "'f \<Rightarrow> 'f \<Rightarrow> 'f"
  fmul :: "'f \<Rightarrow> 'f \<Rightarrow> 'f"
  fdiv :: "'f \<Rightarrow> 'f \<Rightarrow> 'f"
  fneg :: "'f \<Rightarrow> 'f"
  fabs :: "'f \<Rightarrow> 'f"
  fsqrt :: "'f \<Rightarrow> 'f"
  fln :: "'f \<Rightarrow> 'f"
  fsin :: "'f \<Rightarrow> 'f"
  fcos :: "'f \<Rightarrow> 'f"
  fpowi :: "'f \<Rightarrow> int \<Rightarrow> 'f"
  fmax :: "'f \<Rightarrow> 'f \<Rightarrow> 'f"
  fmin :: "'f \<Rightarrow> 'f \<Rightarrow> 'f"
  fless :: "'f \<Rightarrow> 'f \<Rightarrow> bool"
  fleq :: "'f \<Rightarrow> 'f \<Rightarrow> bool"
  ffinite :: "'f \<Rightarrow> bool"

type_synonym 'f vec = "'f list"

definition DIM :: nat where "DIM = 8"

definition BOX :: "'f arith \<Rightarrow> 'f" where "BOX A = flit A 170 (-2)"
definition RADIUS2 :: "'f arith \<Rightarrow> 'f" where "RADIUS2 A = flit A 1080 (-2)"
definition COUPLE_HI :: "'f arith \<Rightarrow> 'f" where "COUPLE_HI A = flit A 245 (-2)"
definition COUPLE_LO :: "'f arith \<Rightarrow> 'f" where "COUPLE_LO A = fneg A (flit A 235 (-2))"
definition EPS :: "'f arith \<Rightarrow> 'f" where "EPS A = flit A 1 (-6)"

definition WEIGHTS :: "'f arith \<Rightarrow> 'f vec" where
  "WEIGHTS A = map (\<lambda>m. flit A m (-2)) [92, 71, 117, 54, 108, 83, 66, 125]"

definition signed_lit :: "'f arith \<Rightarrow> int \<Rightarrow> 'f" where
  "signed_lit A m = (if m < 0 then fneg A (flit A (- m) (-2)) else flit A m (-2))"

definition ALT_WEIGHTS :: "'f arith \<Rightarrow> 'f vec" where
  "ALT_WEIGHTS A = map (signed_lit A) [111, -77, 64, -104, 82, -58, 93, -49]"

definition TARGET :: "'f arith \<Rightarrow> 'f vec" where
  "TARGET A = map (signed_lit A) [88, 80, 67, 47, 33, 18, 8, -2]"

section \<open>Vectors\<close>

definition vadd :: "'f arith \<Rightarrow> 'f vec \<Rightarrow> 'f vec \<Rightarrow> 'f vec" where
  "vadd A a b = map (\<lambda>i. fadd A (a ! i) (b ! i)) [0..<DIM]"

definition vsub :: "'f arith \<Rightarrow> 'f vec \<Rightarrow> 'f vec \<Rightarrow> 'f vec" where
  "vsub A a b = map (\<lambda>i. fsub A (a ! i) (b ! i)) [0..<DIM]"

definition scale :: "'f arith \<Rightarrow> 'f vec \<Rightarrow> 'f \<Rightarrow> 'f vec" where
  "scale A a factor = map (\<lambda>i. fmul A (a ! i) factor) [0..<DIM]"

definition fsum :: "'f arith \<Rightarrow> 'f list \<Rightarrow> 'f" where
  "fsum A xs = fold (\<lambda>x acc. fadd A acc x) xs (fsum0 A)"

definition dot :: "'f arith \<Rightarrow> 'f vec \<Rightarrow> 'f vec \<Rightarrow> 'f" where
  "dot A a b = fsum A (map (\<lambda>(x, y). fmul A x y) (zip a b))"

definition norm :: "'f arith \<Rightarrow> 'f vec \<Rightarrow> 'f" where
  "norm A a = fsqrt A (dot A a a)"

definition weighted_sum :: "'f arith \<Rightarrow> 'f vec \<Rightarrow> 'f vec \<Rightarrow> 'f" where
  "weighted_sum A weights x = fsum A (map (\<lambda>(w, v). fmul A w v) (zip weights x))"

section \<open>The objective and the barrier\<close>

definition freq :: "'f arith \<Rightarrow> nat \<Rightarrow> 'f" where
  "freq A i = fadd A (flit A 17 (-1)) (fmul A (flit A 19 (-2)) (fnat A i))"

definition wave :: "'f arith \<Rightarrow> 'f vec \<Rightarrow> nat \<Rightarrow> 'f" where
  "wave A x i = fadd A (fmul A (freq A i) (x ! i)) (fmul A (flit A 31 (-2)) (fnat A i))"

definition valley :: "'f arith \<Rightarrow> 'f vec \<Rightarrow> nat \<Rightarrow> 'f" where
  "valley A x i = fsub A (x ! (i + 1)) (fmul A (x ! i) (x ! i))"

definition anchor :: "'f arith \<Rightarrow> 'f vec \<Rightarrow> nat \<Rightarrow> 'f" where
  "anchor A x i = fsub A (flit A 1 0) (x ! i)"

definition objective :: "'f arith \<Rightarrow> 'f vec \<Rightarrow> 'f" where
  "objective A x =
     (let value = fold (\<lambda>i value. fadd A value
            (fadd A (fmul A (fmul A (flit A 100 0) (valley A x i)) (valley A x i))
              (fmul A (anchor A x i) (anchor A x i)))) [0..<DIM - 1] (flit A 0 0)
      in fold (\<lambda>i value. fadd A value
            (fadd A (fmul A (flit A 45 (-3)) (fpowi A (fsub A (x ! i) (TARGET A ! i)) 4))
              (fmul A (flit A 18 (-3)) (fpowi A (fsin A (wave A x i)) 2)))) [0..<DIM] value)"

text \<open>\<open>grad[i] += v\<close> and \<open>grad[i] -= v\<close>.\<close>

definition inc :: "'f arith \<Rightarrow> nat \<Rightarrow> 'f \<Rightarrow> 'f vec \<Rightarrow> 'f vec" where
  "inc A i v grad = grad[i := fadd A (grad ! i) v]"

definition dec :: "'f arith \<Rightarrow> nat \<Rightarrow> 'f \<Rightarrow> 'f vec \<Rightarrow> 'f vec" where
  "dec A i v grad = grad[i := fsub A (grad ! i) v]"

definition objective_gradient :: "'f arith \<Rightarrow> 'f vec \<Rightarrow> 'f vec" where
  "objective_gradient A x =
     (let grad = fold (\<lambda>i grad.
            inc A (i + 1) (fmul A (flit A 200 0) (valley A x i))
              (inc A i (fsub A (fmul A (fmul A (fneg A (flit A 400 0)) (x ! i)) (valley A x i))
                (fmul A (flit A 2 0) (anchor A x i))) grad))
            [0..<DIM - 1] (replicate DIM (flit A 0 0))
      in fold (\<lambda>i grad.
            inc A i (fmul A (fmul A (flit A 18 (-3)) (freq A i)) (fsin A (fmul A (flit A 2 0) (wave A x i))))
              (inc A i (fmul A (flit A 18 (-2)) (fpowi A (fsub A (x ! i) (TARGET A ! i)) 3)) grad))
            [0..<DIM] grad)"

definition slacks :: "'f arith \<Rightarrow> 'f vec \<Rightarrow> 'f list" where
  "slacks A x =
     map (\<lambda>value. fsub A (BOX A) value) x @ map (\<lambda>value. fadd A value (BOX A)) x @
     [fsub A (RADIUS2 A) (dot A x x), fsub A (COUPLE_HI A) (weighted_sum A (WEIGHTS A) x),
      fsub A (weighted_sum A (ALT_WEIGHTS A) x) (COUPLE_LO A)]"

definition is_feasible :: "'f arith \<Rightarrow> 'f vec \<Rightarrow> bool" where
  "is_feasible A x = list_all (\<lambda>s. ffinite A s \<and> fless A (flit A 1 (-10)) s) (slacks A x)"

definition barrier_value :: "'f arith \<Rightarrow> 'f vec \<Rightarrow> 'f \<Rightarrow> 'f" where
  "barrier_value A x mu =
     (if \<not> is_feasible A x then finfinity A
      else fsub A (objective A x) (fmul A mu (fsum A (map (fln A) (slacks A x)))))"

definition barrier_gradient :: "'f arith \<Rightarrow> 'f vec \<Rightarrow> 'f \<Rightarrow> 'f vec" where
  "barrier_gradient A x mu =
     (let slack = slacks A x in
      fold (\<lambda>i grad.
          dec A i (fdiv A (fmul A mu (ALT_WEIGHTS A ! i)) (slack ! (2 * DIM + 2)))
         (inc A i (fdiv A (fmul A mu (WEIGHTS A ! i)) (slack ! (2 * DIM + 1)))
         (inc A i (fdiv A (fmul A (fmul A (flit A 2 0) mu) (x ! i)) (slack ! (2 * DIM)))
         (dec A i (fdiv A mu (slack ! (DIM + i)))
         (inc A i (fdiv A mu (slack ! i)) grad)))))
        [0..<DIM] (objective_gradient A x))"

definition kkt_residual :: "'f arith \<Rightarrow> 'f vec \<Rightarrow> 'f \<Rightarrow> 'f" where
  "kkt_residual A x mu = norm A (barrier_gradient A x mu)"

definition barrier_condition_proxy :: "'f arith \<Rightarrow> 'f vec \<Rightarrow> 'f \<Rightarrow> 'f" where
  "barrier_condition_proxy A x mu =
     (let slack = slacks A x;
          c = fold (\<lambda>i c. fadd A (fadd A c (fdiv A mu (fpowi A (slack ! i) 2)))
                (fdiv A mu (fpowi A (slack ! (DIM + i)) 2))) [0..<DIM] (flit A 0 0);
          c = fadd A c (fdiv A (fmul A (fmul A (flit A 4 0) mu) (dot A x x)) (fpowi A (slack ! (2 * DIM)) 2));
          c = fadd A c (fdiv A (fmul A mu (dot A (WEIGHTS A) (WEIGHTS A))) (fpowi A (slack ! (2 * DIM + 1)) 2));
          c = fadd A c (fdiv A (fmul A mu (dot A (ALT_WEIGHTS A) (ALT_WEIGHTS A))) (fpowi A (slack ! (2 * DIM + 2)) 2))
      in fmax A c (flit A 1 0))"

section \<open>The gradient check\<close>

definition deterministic_direction :: "'f arith \<Rightarrow> nat \<Rightarrow> 'f vec" where
  "deterministic_direction A seed =
     (let direction = map (\<lambda>i.
            let angle = fdiv A (fmul A (fmul A (fadd A (fnat A seed) (flit A 1 0)) (fadd A (fnat A i) (flit A 1 0)))
                  (fpi A)) (flit A 7 0)
            in fadd A (fsin A angle) (fmul A (flit A 37 (-2)) (fcos A (fmul A angle (flit A 1618 (-3))))))
            [0..<DIM];
          len = fmax A (norm A direction) (flit A 1 (-12))
      in scale A direction (fdiv A (flit A 1 0) len))"

fun numerical_slope :: "'f arith \<Rightarrow> 'f vec \<Rightarrow> 'f \<Rightarrow> 'f vec \<Rightarrow> 'f \<Rightarrow> nat \<Rightarrow> 'f" where
  "numerical_slope A x mu direction eps 0 = fnan A"
| "numerical_slope A x mu direction eps (Suc tries) =
     (let above = vadd A x (scale A direction eps); below = vadd A x (scale A direction (fneg A eps)) in
      if is_feasible A above \<and> is_feasible A below then
        fdiv A (fsub A (barrier_value A above mu) (barrier_value A below mu)) (fmul A (flit A 2 0) eps)
      else numerical_slope A x mu direction (fmul A eps (flit A 25 (-2))) tries)"

definition worker_error :: "'f arith \<Rightarrow> 'f vec \<Rightarrow> 'f \<Rightarrow> nat \<Rightarrow> 'f" where
  "worker_error A x mu worker =
     (let direction = deterministic_direction A worker;
          projected = dot A (barrier_gradient A x mu) direction;
          numerical = numerical_slope A x mu direction (EPS A) 8
      in if ffinite A numerical then
           fdiv A (fabs A (fsub A numerical projected))
             (fadd A (fadd A (flit A 1 0) (fabs A numerical)) (fabs A projected))
         else flit A 1 0)"

text \<open>The parallelism the system reports, and the workers whose thread is lost, are arguments.\<close>

definition available_threads :: "nat option \<Rightarrow> nat" where
  "available_threads parallelism = unwrap_or parallelism 1"

definition parallel_gradient_check ::
  "'f arith \<Rightarrow> nat option \<Rightarrow> (nat \<Rightarrow> bool) \<Rightarrow> 'f vec \<Rightarrow> 'f \<Rightarrow> 'f" where
  "parallel_gradient_check A parallelism lost x mu =
     (let threads = max 1 (min 16 (available_threads parallelism)) in
      fold (\<lambda>worker acc. fmax A acc (if lost worker then flit A 1 0 else worker_error A x mu worker))
        [0..<threads] (flit A 0 0))"

section \<open>The optimiser\<close>

definition MEMORY :: nat where "MEMORY = 9"

record 'f lbfgs_pair =
  lp_s :: "'f vec"
  lp_y :: "'f vec"
  lp_rho :: 'f

record 'f metrics =
  mt_raw :: 'f
  mt_barrier :: 'f
  mt_phi :: 'f
  mt_grad_norm :: 'f
  mt_kkt :: 'f
  mt_min_slack :: 'f
  mt_condition_proxy :: 'f

record verifier_report =
  vr_finite :: bool
  vr_feasible :: bool
  vr_armijo :: bool
  vr_gradient :: bool
  vr_kkt :: bool
  vr_barrier :: bool

record 'f step_frame =
  sf_before :: "'f metrics"
  sf_after :: "'f metrics"
  sf_alpha :: 'f
  sf_backtracks :: nat
  sf_accepted :: bool
  sf_converged :: bool

record 'f optimizer =
  op_x :: "'f vec"
  op_mu :: 'f
  op_iter :: nat
  op_total_steps :: nat
  op_history :: "'f lbfgs_pair list"
  op_last_gradient_error :: 'f
  op_last_verifier :: verifier_report
  op_accepted :: nat
  op_rejected :: nat

definition metrics_at :: "'f arith \<Rightarrow> 'f vec \<Rightarrow> 'f \<Rightarrow> 'f metrics" where
  "metrics_at A x mu =
     (let raw = objective A x;
          barrier = fmul A (fneg A mu) (fsum A (map (fln A) (slacks A x)))
      in \<lparr>mt_raw = raw, mt_barrier = barrier, mt_phi = fadd A raw barrier,
          mt_grad_norm = norm A (barrier_gradient A x mu), mt_kkt = kkt_residual A x mu,
          mt_min_slack = fold (\<lambda>s acc. fmin A acc s) (slacks A x) (finfinity A),
          mt_condition_proxy = barrier_condition_proxy A x mu\<rparr>)"

definition verifier_default :: verifier_report where
  "verifier_default = \<lparr>vr_finite = False, vr_feasible = False, vr_armijo = False, vr_gradient = False,
     vr_kkt = False, vr_barrier = False\<rparr>"

definition pass_count :: "verifier_report \<Rightarrow> nat" where
  "pass_count v = length (filter (\<lambda>b. b)
     [vr_finite v, vr_feasible v, vr_armijo v, vr_gradient v, vr_kkt v, vr_barrier v])"

definition verify_step :: "'f arith \<Rightarrow> 'f vec \<Rightarrow> 'f \<Rightarrow> 'f metrics \<Rightarrow> 'f metrics \<Rightarrow> 'f \<Rightarrow> verifier_report" where
  "verify_step A x mu before after gradient_error =
     \<lparr>vr_finite = list_all (ffinite A) x \<and> ffinite A (mt_phi after),
      vr_feasible = list_all (\<lambda>s. fless A (flit A 1 (-10)) s) (slacks A x),
      vr_armijo = fleq A (mt_phi after) (fadd A (mt_phi before) (flit A 1 (-7))),
      vr_gradient = fleq A gradient_error (flit A 4 (-4)),
      vr_kkt = ffinite A (mt_kkt after) \<and> fless A (mt_kkt after) (flit A 25 3),
      vr_barrier = fless A (flit A 0 0) mu \<and> fless A (flit A 1 (-8)) (mt_min_slack after)\<rparr>"

text \<open>The backtracking loop: the accepted point, its step length, the number of halvings, its metrics.\<close>

fun backtrack ::
  "'f arith \<Rightarrow> 'f vec \<Rightarrow> 'f vec \<Rightarrow> 'f \<Rightarrow> 'f \<Rightarrow> 'f \<Rightarrow> 'f \<Rightarrow> nat \<Rightarrow> nat \<Rightarrow> ('f vec \<times> 'f \<times> nat \<times> 'f metrics) option" where
  "backtrack A x direction mu phi0 slope alpha backtracks 0 = None"
| "backtrack A x direction mu phi0 slope alpha backtracks (Suc tries) =
     (let trial = vadd A x (scale A direction alpha); phi_trial = barrier_value A trial mu in
      if is_feasible A trial \<and> ffinite A phi_trial \<and>
         fleq A phi_trial (fadd A phi0 (fmul A (fmul A (flit A 1 (-4)) alpha) slope))
      then Some (trial, alpha, backtracks, metrics_at A trial mu)
      else backtrack A x direction mu phi0 slope (fmul A alpha (flit A 5 (-1))) (Suc backtracks) tries)"

definition line_search ::
  "'f arith \<Rightarrow> 'f vec \<Rightarrow> 'f vec \<Rightarrow> 'f vec \<Rightarrow> 'f \<Rightarrow> ('f vec \<times> 'f \<times> nat \<times> 'f metrics) option" where
  "line_search A x direction grad mu =
     backtrack A x direction mu (barrier_value A x mu) (dot A grad direction) (flit A 1 0) 0 32"

definition optimizer_new :: "'f arith \<Rightarrow> nat \<Rightarrow> 'f optimizer" where
  "optimizer_new A total_steps =
     (let x = map (signed_lit A) [-105, 110, -74, 94, -46, 55, -18, 24] in
      \<lparr>op_x = (if is_feasible A x then x else replicate DIM (flit A 0 0)), op_mu = flit A 8 (-2), op_iter = 0,
       op_total_steps = total_steps, op_history = [], op_last_gradient_error = flit A 0 0,
       op_last_verifier = verifier_default, op_accepted = 0, op_rejected = 0\<rparr>)"

text \<open>The two loops of the search direction; the first runs from the newest pair to the oldest.\<close>

fun first_loop :: "'f arith \<Rightarrow> 'f lbfgs_pair list \<Rightarrow> 'f vec \<Rightarrow> 'f list \<Rightarrow> 'f vec \<times> 'f list" where
  "first_loop A [] q alphas = (q, alphas)"
| "first_loop A (pair # pairs) q alphas =
     (let alpha = fmul A (lp_rho pair) (dot A (lp_s pair) q) in
      first_loop A pairs (vsub A q (scale A (lp_y pair) alpha)) (alphas @ [alpha]))"

fun second_loop :: "'f arith \<Rightarrow> ('f lbfgs_pair \<times> 'f) list \<Rightarrow> 'f vec \<Rightarrow> 'f vec" where
  "second_loop A [] r = r"
| "second_loop A ((pair, alpha) # rest) r =
     (let beta = fmul A (lp_rho pair) (dot A (lp_y pair) r) in
      second_loop A rest (vadd A r (scale A (lp_s pair) (fsub A alpha beta))))"

definition clamp :: "'f arith \<Rightarrow> 'f \<Rightarrow> 'f \<Rightarrow> 'f \<Rightarrow> 'f" where
  "clamp A v lo hi = (let v = (if fless A v lo then lo else v) in if fless A hi v then hi else v)"

definition search_direction :: "'f arith \<Rightarrow> 'f lbfgs_pair list \<Rightarrow> 'f vec \<Rightarrow> 'f vec" where
  "search_direction A history grad =
     (if history = [] then scale A grad (fdiv A (fneg A (flit A 1 0)) (fmax A (norm A grad) (flit A 1 0)))
      else
        (let (q, alphas) = first_loop A (rev history) grad [];
             pair = last history;
             yy = fmax A (dot A (lp_y pair) (lp_y pair)) (flit A 1 (-12));
             gamma = clamp A (fdiv A (dot A (lp_s pair) (lp_y pair)) yy) (flit A 1 (-4)) (flit A 1 2);
             r = second_loop A (zip history (rev alphas)) (scale A q gamma);
             direction = scale A r (fneg A (flit A 1 0));
             direction_norm = norm A direction
         in if fless A (flit A 12 0) direction_norm then scale A direction (fdiv A (flit A 12 0) direction_norm)
            else direction))"

definition push_lbfgs :: "'f arith \<Rightarrow> 'f vec \<Rightarrow> 'f vec \<Rightarrow> 'f lbfgs_pair list \<Rightarrow> 'f lbfgs_pair list" where
  "push_lbfgs A s y history =
     (let sy = dot A s y in
      if fleq A sy (flit A 1 (-10)) \<or> \<not> ffinite A sy then history
      else (if length history = MEMORY then tl history else history) @
        [\<lparr>lp_s = s, lp_y = y, lp_rho = fdiv A (flit A 1 0) sy\<rparr>])"

text \<open>One step. What the system gives the gradient check of step \<open>i\<close> is an argument.\<close>

record checker =
  ck_parallelism :: "nat \<Rightarrow> nat option"
  ck_lost :: "nat \<Rightarrow> nat \<Rightarrow> bool"

definition cool :: "'f arith \<Rightarrow> 'f optimizer \<Rightarrow> 'f optimizer" where
  "cool A st =
     (if 0 < op_iter st \<and> op_iter st mod 42 = 0 then
        st\<lparr>op_mu := fmax A (fmul A (op_mu st) (flit A 72 (-2))) (flit A 1 (-6)), op_history := []\<rparr>
      else st)"

definition descent_direction :: "'f arith \<Rightarrow> 'f vec \<Rightarrow> 'f optimizer \<Rightarrow> 'f vec \<times> 'f optimizer" where
  "descent_direction A grad st =
     (let direction = search_direction A (op_history st) grad; descent = dot A grad direction in
      if \<not> ffinite A descent \<or> fleq A (fneg A (flit A 1 (-12))) descent then
        (scale A grad (fneg A (flit A 1 0)), st\<lparr>op_history := []\<rparr>)
      else (direction, st))"

definition accept_step ::
  "'f arith \<Rightarrow> checker \<Rightarrow> 'f metrics \<Rightarrow> 'f vec \<Rightarrow> 'f vec \<times> 'f \<times> nat \<times> 'f metrics \<Rightarrow> 'f optimizer \<Rightarrow>
     'f step_frame \<times> 'f optimizer" where
  "accept_step A ck before grad found st =
     (let (next_x, alpha, backtracks, after) = found;
          next_grad = barrier_gradient A next_x (op_mu st);
          st = st\<lparr>op_history := push_lbfgs A (vsub A next_x (op_x st)) (vsub A next_grad grad) (op_history st),
                  op_x := next_x, op_accepted := op_accepted st + 1\<rparr>;
          st = (if op_iter st mod 9 = 0 then
                  st\<lparr>op_last_gradient_error := parallel_gradient_check A (ck_parallelism ck (op_iter st))
                    (ck_lost ck (op_iter st)) (op_x st) (op_mu st)\<rparr>
                else st);
          st = st\<lparr>op_last_verifier := verify_step A (op_x st) (op_mu st) before after (op_last_gradient_error st),
                  op_iter := op_iter st + 1\<rparr>
      in (\<lparr>sf_before = before, sf_after = after, sf_alpha = alpha, sf_backtracks = backtracks,
           sf_accepted = True, sf_converged = False\<rparr>, st))"

definition optimizer_step :: "'f arith \<Rightarrow> checker \<Rightarrow> 'f optimizer \<Rightarrow> 'f step_frame \<times> 'f optimizer" where
  "optimizer_step A ck st0 =
     (let st = cool A st0;
          before = metrics_at A (op_x st) (op_mu st);
          unmoved = verify_step A (op_x st) (op_mu st) before before (op_last_gradient_error st)
      in if fless A (mt_grad_norm before) (flit A 1 (-6)) then
           (\<lparr>sf_before = before, sf_after = before, sf_alpha = flit A 0 0, sf_backtracks = 0,
             sf_accepted = True, sf_converged = True\<rparr>,
            st\<lparr>op_last_verifier := unmoved, op_iter := op_iter st + 1\<rparr>)
         else
           (let grad = barrier_gradient A (op_x st) (op_mu st);
                (direction, st) = descent_direction A grad st
            in case line_search A (op_x st) direction grad (op_mu st) of
                 Some found \<Rightarrow> accept_step A ck before grad found st
               | None \<Rightarrow>
                   (\<lparr>sf_before = before, sf_after = before, sf_alpha = flit A 0 0, sf_backtracks = 32,
                     sf_accepted = False, sf_converged = False\<rparr>,
                    st\<lparr>op_rejected := op_rejected st + 1, op_history := [], op_last_verifier := unmoved,
                       op_iter := op_iter st + 1\<rparr>)))"

fun run_steps :: "'f arith \<Rightarrow> checker \<Rightarrow> nat \<Rightarrow> 'f optimizer \<Rightarrow> 'f step_frame list \<times> 'f optimizer" where
  "run_steps A ck 0 st = ([], st)"
| "run_steps A ck (Suc n) st =
     (let (f, st) = optimizer_step A ck st; (fs, st) = run_steps A ck n st in (f # fs, st))"

definition run_without_dashboard :: "'f arith \<Rightarrow> checker \<Rightarrow> 'f optimizer \<Rightarrow> 'f optimizer" where
  "run_without_dashboard A ck st = snd (run_steps A ck (op_total_steps st) st)"

section \<open>The line search\<close>

text \<open>The point, the step length and the test of the \<open>k\<close>-th try.\<close>

definition halved :: "'f arith \<Rightarrow> 'f \<Rightarrow> nat \<Rightarrow> 'f" where
  "halved A alpha k = ((\<lambda>a. fmul A a (flit A 5 (-1))) ^^ k) alpha"

definition sufficient :: "'f arith \<Rightarrow> 'f vec \<Rightarrow> 'f vec \<Rightarrow> 'f \<Rightarrow> 'f \<Rightarrow> 'f \<Rightarrow> 'f \<Rightarrow> bool" where
  "sufficient A x direction mu phi0 slope alpha \<longleftrightarrow>
     (let trial = vadd A x (scale A direction alpha); phi_trial = barrier_value A trial mu in
      is_feasible A trial \<and> ffinite A phi_trial \<and>
      fleq A phi_trial (fadd A phi0 (fmul A (fmul A (flit A 1 (-4)) alpha) slope)))"

lemma halved_Suc: "halved A alpha (Suc k) = halved A (fmul A alpha (flit A 5 (-1))) k"
  by (simp add: halved_def funpow_swap1 del: funpow.simps add: funpow_Suc_right)

lemma find_map: "find P (map f xs) = map_option f (find (\<lambda>x. P (f x)) xs)"
  by (induction xs) auto

lemma backtrack_first:
  "backtrack A x direction mu phi0 slope alpha b n =
     (case find (\<lambda>k. sufficient A x direction mu phi0 slope (halved A alpha k)) [0..<n] of
        None \<Rightarrow> None
      | Some k \<Rightarrow> (let alpha = halved A alpha k; trial = vadd A x (scale A direction alpha)
          in Some (trial, alpha, b + k, metrics_at A trial mu)))"
proof (induction n arbitrary: alpha b)
  case (Suc n)
  have "find P [0..<Suc n] = (if P 0 then Some 0 else map_option Suc (find (\<lambda>k. P (Suc k)) [0..<n]))" for P
    by (simp add: upt_conv_Cons map_Suc_upt [symmetric] find_map del: upt_Suc)
  then show ?case
    using Suc.IH by (auto simp: sufficient_def Let_def halved_Suc halved_def [of A alpha 0] split: option.split)
qed simp

text \<open>What an accepted try is: the first of the 32 that decreases the barrier enough.\<close>

lemma find_upt_first:
  "find P [0..<n] = Some j \<Longrightarrow> j < n \<and> P j \<and> (\<forall>i < j. \<not> P i)"
  by (auto simp: find_Some_iff)

lemma backtrack_sound:
  assumes "backtrack A x direction mu base slope start 0 n = Some (next_x, alpha, k, after)"
  shows "k < n" and "alpha = halved A start k" and "next_x = vadd A x (scale A direction alpha)"
    and "after = metrics_at A next_x mu" and "is_feasible A next_x"
    and "sufficient A x direction mu base slope alpha"
    and "\<forall>j < k. \<not> sufficient A x direction mu base slope (halved A start j)"
proof -
  let ?P = "\<lambda>k. sufficient A x direction mu base slope (halved A start k)"
  obtain j where j: "find ?P [0..<n] = Some j"
    using assms unfolding backtrack_first by (cases "find ?P [0..<n]") simp_all
  have "Some (vadd A x (scale A direction (halved A start j)), halved A start j, j,
      metrics_at A (vadd A x (scale A direction (halved A start j))) mu) = Some (next_x, alpha, k, after)"
    using assms unfolding backtrack_first j option.case Let_def add_0 .
  then have eq: "k = j" "alpha = halved A start j" "next_x = vadd A x (scale A direction alpha)"
      "after = metrics_at A next_x mu" by auto
  note first = find_upt_first [OF j]
  show "k < n" "alpha = halved A start k" "next_x = vadd A x (scale A direction alpha)"
    "after = metrics_at A next_x mu" "\<forall>j < k. \<not> ?P j"
    using first eq by simp_all
  show "sufficient A x direction mu base slope alpha" using first eq(2) by simp
  then show "is_feasible A next_x" unfolding eq(3) sufficient_def Let_def by (elim conjE)
qed

section \<open>Invariants of a run\<close>

definition curvature_ok :: "'f arith \<Rightarrow> 'f lbfgs_pair \<Rightarrow> bool" where
  "curvature_ok A pair \<longleftrightarrow>
     (let sy = dot A (lp_s pair) (lp_y pair) in
      \<not> fleq A sy (flit A 1 (-10)) \<and> ffinite A sy \<and> lp_rho pair = fdiv A (flit A 1 0) sy)"

definition history_ok :: "'f arith \<Rightarrow> 'f lbfgs_pair list \<Rightarrow> bool" where
  "history_ok A history \<longleftrightarrow> length history \<le> MEMORY \<and> list_all (curvature_ok A) history"

lemma push_lbfgs_ok: "history_ok A history \<Longrightarrow> history_ok A (push_lbfgs A s y history)"
  by (cases history) (auto simp: history_ok_def push_lbfgs_def curvature_ok_def Let_def MEMORY_def)

definition optimizer_ok :: "'f arith \<Rightarrow> 'f optimizer \<Rightarrow> bool" where
  "optimizer_ok A st \<longleftrightarrow> history_ok A (op_history st) \<and> length (op_x st) = DIM \<and>
     (is_feasible A (op_x st) \<or> op_accepted st = 0)"

lemma optimizer_new_ok: "optimizer_ok A (optimizer_new A n)"
  by (simp add: optimizer_ok_def optimizer_new_def history_ok_def DIM_def Let_def)

text \<open>What one step adds to the counters.\<close>

definition moved :: "'f step_frame \<Rightarrow> bool" where
  "moved f \<longleftrightarrow> sf_accepted f \<and> \<not> sf_converged f"

lemma step_kinds:
  assumes "optimizer_step A ck st = (f, st')" and "optimizer_ok A st"
  shows "optimizer_ok A st' \<and> op_iter st' = op_iter st + 1 \<and>
    op_accepted st' = op_accepted st + (if moved f then 1 else 0) \<and>
    op_rejected st' = op_rejected st + (if sf_accepted f then 0 else 1) \<and>
    (moved f \<longrightarrow> is_feasible A (op_x st')) \<and> (\<not> moved f \<longrightarrow> op_x st' = op_x st)"
proof -
  have cool: "optimizer_ok A (cool A st)" "op_iter (cool A st) = op_iter st" "op_accepted (cool A st) = op_accepted st"
    "op_rejected (cool A st) = op_rejected st" "op_x (cool A st) = op_x st"
    using assms(2) by (auto simp: cool_def optimizer_ok_def history_ok_def)
  let ?c = "cool A st" and ?before = "metrics_at A (op_x (cool A st)) (op_mu (cool A st))"
  let ?grad = "barrier_gradient A (op_x ?c) (op_mu ?c)"
  show ?thesis
  proof (cases "fless A (mt_grad_norm ?before) (flit A 1 (-6))")
    case True
    then show ?thesis using assms(1) cool by (auto simp: optimizer_step_def Let_def moved_def optimizer_ok_def)
  next
    case False
    obtain direction c where d: "descent_direction A ?grad ?c = (direction, c)" by (rule prod.exhaust)
    then have c: "optimizer_ok A c" "op_iter c = op_iter st" "op_accepted c = op_accepted st" "op_rejected c = op_rejected st"
      "op_x c = op_x st"
      using cool by (auto simp: descent_direction_def Let_def optimizer_ok_def history_ok_def split: if_splits)
    show ?thesis
    proof (cases "line_search A (op_x c) direction ?grad (op_mu c)")
      case None
      then show ?thesis using assms(1) False d c
        by (auto simp: optimizer_step_def Let_def moved_def optimizer_ok_def history_ok_def)
    next
      case (Some found)
      obtain next_x alpha k after where found: "found = (next_x, alpha, k, after)" by (metis prod.exhaust)
      note ls = backtrack_sound [OF Some [unfolded found line_search_def]]
      have "length next_x = DIM" by (simp add: ls(3) vadd_def)
      moreover have step: "accept_step A ck ?before ?grad found c = (f, st')"
        using assms(1) False d Some by (simp add: optimizer_step_def Let_def)
      ultimately show ?thesis
        using c ls(5) unfolding found accept_step_def
        by (auto simp: Let_def moved_def optimizer_ok_def push_lbfgs_ok split: if_splits)
    qed
  qed
qed

lemma run_steps_sound:
  assumes "optimizer_ok A st" and "run_steps A ck n st = (frames, st')"
  shows "optimizer_ok A st' \<and> length frames = n \<and> op_iter st' = op_iter st + n \<and>
    op_accepted st' = op_accepted st + length (filter moved frames) \<and>
    op_rejected st' = op_rejected st + length (filter (\<lambda>f. \<not> sf_accepted f) frames) \<and>
    (filter moved frames = [] \<and> op_x st' = op_x st \<or> filter moved frames \<noteq> [] \<and> is_feasible A (op_x st'))"
  using assms
proof (induction n arbitrary: st frames)
  case (Suc n)
  obtain f st1 where f: "optimizer_step A ck st = (f, st1)" by (rule prod.exhaust)
  obtain fs st2 where fs: "run_steps A ck n st1 = (fs, st2)" by (rule prod.exhaust)
  have eq: "frames = f # fs" "st' = st2" using Suc.prems(2) f fs by simp_all
  note step = step_kinds [OF f Suc.prems(1)]
  then have ok: "optimizer_ok A st1" by blast
  show ?case
    using step Suc.IH [OF ok, of fs] fs unfolding eq by (cases "filter moved fs = []") auto
qed simp

text \<open>
  C40. The optimiser never leaves the feasible region, whatever its arithmetic does. After any number
  of steps from the start, under any rounding and any results of the gradient check: the point is
  the starting point if no step moved it and is feasible otherwise; the counters are the number of
  steps, of moves and of failed line searches; and the history holds at most nine pairs, each with a
  finite curvature above the threshold and its reciprocal.
\<close>

theorem optimizer_run_sound:
  fixes A :: "'f arith"
  shows "let start = optimizer_new A total_steps; (frames, st) = run_steps A ck n start in
    (filter moved frames = [] \<and> op_x st = op_x start \<or> filter moved frames \<noteq> [] \<and> is_feasible A (op_x st)) \<and>
    length (op_x st) = DIM \<and> length frames = n \<and> op_iter st = n \<and>
    op_accepted st = length (filter moved frames) \<and>
    op_rejected st = length (filter (\<lambda>f. \<not> sf_accepted f) frames) \<and>
    length (op_history st) \<le> 9 \<and> list_all (curvature_ok A) (op_history st)"
proof -
  obtain frames st where r: "run_steps A ck n (optimizer_new A total_steps) = (frames, st)" by (rule prod.exhaust)
  have "op_iter (optimizer_new A total_steps) = 0" "op_accepted (optimizer_new A total_steps) = 0"
    "op_rejected (optimizer_new A total_steps) = 0"
    by (simp_all add: optimizer_new_def Let_def)
  then show ?thesis
    using run_steps_sound [OF optimizer_new_ok r] by (simp add: r optimizer_ok_def history_ok_def MEMORY_def)
qed

text \<open>The whole run makes the number of steps it was built for.\<close>

lemma run_without_dashboard_iter:
  "op_iter (run_without_dashboard A ck (optimizer_new A total_steps)) = total_steps"
proof -
  have new: "op_total_steps (optimizer_new A total_steps) = total_steps" "op_iter (optimizer_new A total_steps) = 0"
    by (simp_all add: optimizer_new_def Let_def)
  obtain frames st where r: "run_steps A ck total_steps (optimizer_new A total_steps) = (frames, st)"
    by (rule prod.exhaust)
  show ?thesis
    using run_steps_sound [OF optimizer_new_ok r] by (simp add: run_without_dashboard_def new r)
qed

text \<open>
  The report of the verifier counts at most six checks, and its feasibility check agrees with the
  iterate: a feasible point passes it.
\<close>

lemma pass_count_le: "pass_count v \<le> 6"
  by (simp add: pass_count_def le_trans [OF length_filter_le])

lemma verify_feasible: "is_feasible A x \<Longrightarrow> vr_feasible (verify_step A x mu before after e)"
  by (auto simp: is_feasible_def verify_step_def list_all_iff)

end
