(* ===== verification/Spec2Isabelle.thy ===== *)
theory Spec2Isabelle
  imports Abi Telemetry Guest_Memory Policy Config Guests Host_Imports Runner Supervisor
    Honeypot_Log Network_Honeypot Decoy_Fs Async_Runner Corpus Text_Report Session Dashboard
    Charts Process Cli Menu Menu_Safety Wasi_Sandbox Wasi_Guest Optimizer
begin

text \<open>
  A verification development for \<open>wasmer-sectest\<close>, a harness that runs hostile WebAssembly
  guests against a Rust host and records what the host's boundary decides. The sources are under
  \<open>src/src/\<close>; file names below are relative to that directory.

  \<^bold>\<open>The program.\<close> A guest is a WebAssembly module that may call five host imports: hand over a
  packet, use a path capability, ask for an allocation, have a marker written into its memory, and
  report a tick. Every argument is a number the guest chose. The host validates pointers against
  the guest's memory (\<open>abi.rs\<close>, \<open>memory.rs\<close>), decides by a policy (\<open>policy.rs\<close>), and records an
  event with the gates that passed or failed (\<open>telemetry.rs\<close>). The runner (\<open>runner.rs\<close>) audits a
  module, instantiates it, probes the growth of its memory, calls its exported function and builds
  a report; a case passes if the code it returned is the expected one. Cases come from the
  built-in table (\<open>guests.rs\<close>) or a directory of modules with a manifest (\<open>corpus.rs\<close>). A case runs
  in the process, in a supervised worker process (\<open>supervisor.rs\<close>) or in blocking tasks of an
  asynchronous runtime (\<open>async_runner.rs\<close>, \<open>error.rs\<close>). Reports are rendered as text, Markdown,
  JSON and SARIF (\<open>report.rs\<close>, \<open>ansi.rs\<close>). Guests with a WASI world run against two honeypots
  (\<open>wasi_sandbox.rs\<close>): a network that resolves every name to a synthetic address and answers with
  a mock response, and a file system with decoy files. The entry point (\<open>main.rs\<close>) loads the policy,
  chooses the cases, runs them and ends with a status; it is also the worker the supervisor starts,
  and the interactive menu, which draws a dashboard (\<open>tui.rs\<close>) and charts (\<open>visual.rs\<close>) and keeps a
  history of runs (\<open>session.rs\<close>).

  \<^bold>\<open>Conventions.\<close> Integers have the width of the code (\<open>u32\<close>, \<open>u64\<close>); \<open>usize\<close>, \<open>u128\<close> and elapsed
  times are \<open>nat\<close> where no operation can wrap, and result codes are \<open>int\<close> because the code only
  compares, prints and parses them. A Rust \<open>String\<close> is the list of its bytes as characters;
  \<open>is_str\<close> states that they are valid UTF-8, and \<open>utf8_chars\<close> cuts a string into its characters. A
  \<open>Result\<close> is a sum with the error on the left, and the question mark is \<open>result_bind\<close>. Engines,
  files, child processes, clocks, hash orders and libraries are arguments.

  \<^bold>\<open>Theories and sources.\<close>
  \<^item> \<open>Prelude\<close>: integer widths, checked and saturating arithmetic, results, slices, the
    collections of hints.
  \<^item> \<open>Rust_Str\<close>: the operations of \<open>str\<close>, UTF-8 (also the lossy decoding), formatting and parsing
    of integers, splitting and joining, trimming. Its lemmas are inverse laws: splitting undoes
    joining, parsing undoes formatting, cutting into characters undoes concatenation.
  \<^item> \<open>Abi\<close> (\<open>abi.rs\<close>): codes and names, the errors with code, gate and message,
    \<open>checked_guest_range\<close>, \<open>parse_packet\<close> and \<open>checksum32\<close>. The range check is characterised without
    wrap-around; the parser accepts exactly the encodings of packets and notices any change of one
    byte of a body.
  \<^item> \<open>Telemetry\<close> (\<open>telemetry.rs\<close>): \<open>gate\<close>, \<open>import_event\<close> with its \<open>decision\<close>, \<open>telemetry\<close>, memory
    snapshots.
  \<^item> \<open>Guest_Memory\<close> (\<open>memory.rs\<close>): the borrowed read and write of guest bytes. The locale
    \<open>range_validator\<close> states what borrowing needs of a range check; \<open>Abi\<close>'s check is its
    interpretation.
  \<^item> \<open>Policy\<close> (\<open>policy.rs\<close>): the limits, path grants and the policy file parser: the loop over
    lines, \<open>set_key\<close> for a line, quoted strings with escapes. A file that spells out a policy
    parses to it.
  \<^item> \<open>Config\<close> (\<open>config.rs\<close>): the enumerations and \<open>parse_args\<close>, one branch for each flag; leaving the
    process is a value with status and message.
  \<^item> \<open>Guests\<close> (\<open>guests.rs\<close>): the case table with threat intelligence, lookup and profiles.
  \<^item> \<open>Host_Imports\<close> (\<open>runner.rs\<close>, the host functions): \<open>host_state\<close>, one definition for each import and
    \<open>host_dispatch\<close>. The locale \<open>host_import\<close> is the contract every import keeps (one event more,
    policy and size of the memory unchanged, a denial changes nothing else); each import and
    the dispatcher interpret it.
  \<^item> \<open>Runner\<close> (\<open>runner.rs\<close>, the rest): a guest function is a codatatype \<open>guest\<close> of host calls and
    computations on its own memory, \<open>exec_guest\<close> runs it (\<open>None\<close>: it never returns), \<open>audit_module\<close>
    checks imports and memories, \<open>run_case\<close> composes them with the engine given as an argument.
  \<^item> \<open>Supervisor\<close> (\<open>supervisor.rs\<close>): the worker's command line, the report line with its escaping
    and the parser, the wait loop and the reports it ends in. The locale \<open>field_codec\<close> states the
    round trip of one field; text, numbers and the optional code interpret it.
  \<^item> \<open>Async_Runner\<close> (\<open>async_runner.rs\<close>, \<open>error.rs\<close>, and \<open>run_selected_case\<close> and \<open>collect_reports\<close> of
    \<open>main.rs\<close>): spawning under a cap, joining in any order, draining, sorting by task.
  \<^item> \<open>Corpus\<close> (\<open>corpus.rs\<close>): the manifest parser, the search of a directory tree, bounded reads,
    the cases built from modules and entries. The search is checked against \<open>tree_modules\<close>, which
    says where a module lies (\<open>lies_in\<close>) and how its name ends, without the search's recursion.
  \<^item> \<open>Honeypot_Log\<close>, \<open>Network_Honeypot\<close>, \<open>Decoy_Fs\<close> (\<open>wasi_sandbox.rs\<close>): the bounded log both
    honeypots keep (locale \<open>bounded_log\<close>), name resolution and the socket, path normalisation and the
    file system operations (locale \<open>guarded\<close>: if one attempt on a decoy is denied and logged, then
    no sequence of attempts gets to the file system behind, and all are in the log; removing,
    renaming and mutating opens interpret it, creating a directory does not).
  \<^item> \<open>Json\<close>, \<open>Report\<close>, \<open>Text_Report\<close> (\<open>report.rs\<close>, \<open>ansi.rs\<close>): a grammar of JSON after RFC 8259 as an
    inductive relation between values and texts, escaping with its inverse, the four documents
    and the text the printing functions write. Each JSON document denotes a value; a coloured
    text without its escape sequences is the plain one.
  \<^item> \<open>Session\<close> (\<open>session.rs\<close>): the store over a disk (a map from paths to contents), the index of
    tab-separated lines with its parser, slugs, the session document. The faults of the disk
    (\<open>faults\<close>) say which operations fail, with what message, and what they leave.
  \<^item> \<open>Dashboard\<close> (\<open>tui.rs\<close>): the loop over the cases with the frames it draws, the replay of gates, the
    text of every panel. \<open>Charts\<close> (\<open>visual.rs\<close>): bars, sparklines and counts. What these compute in
    floating point is an argument (\<open>screen\<close>, \<open>charts\<close>).
  \<^item> \<open>Process\<close>, \<open>Cli\<close>, \<open>Menu\<close> (\<open>main.rs\<close>): the state of the process (\<open>proc\<close>: output, errors, the
    lines of input that are left, disk, a counter of steps), programs over it (\<open>io\<close>) that may halt or
    not return, and every function of \<open>main.rs\<close> as such a program; \<open>Menu.program\<close> is \<open>main\<close>. What the
    process finds around it is the record \<open>world\<close>; its \<open>w_runs\<close> gives the engine and the worker
    processes of each step.
  \<^item> \<open>Menu_Safety\<close>: what the program does to its state. The locale \<open>step_relation\<close> states what a
    relation between states needs to pass through the binds and the asking loop; \<open>framed\<close> (input is
    consumed, files outside of a set are kept) interprets it. Rules in \<open>good_intros\<close> follow the
    program text up to \<open>program_good\<close>.
  \<^item> \<open>Wasi_Sandbox\<close> (\<open>wasi_sandbox.rs\<close>, the rest): the options of a socket, which do not reach its data,
    and the builders that attach both honeypots, over the library's operations (\<open>wasi_library\<close>).
  \<^item> \<open>Wasi_Guest\<close> (\<open>src/guests/wasi_network_fetch.rs\<close>): the guest of the network demonstration over
    its five system calls (\<open>wasix\<close>). The locale \<open>honeypot_network\<close> states that the host passes each
    call to the honeypot's networking operations; \<open>relay\<close>, a host that keeps the honeypot and one
    socket, interprets it. The guest's two loops are total: one sends fewer bytes every time, the
    other stops above 64 KiB.
  \<^item> \<open>Optimizer\<close> (\<open>math.rs\<close>, \<open>optimizer.rs\<close>, two files the crate root does not declare): the barrier
    optimiser over an argument arithmetic (\<open>arith\<close>) of which no law is assumed.

  \<^bold>\<open>What the properties show.\<close> Containment: a guest pointer reaches exactly the bytes the range
  check grants, a capability is granted exactly for a listed path, ticks are paid from the budget,
  a refused module never runs, a denial is logged and changes nothing, a decoy is not removed, renamed,
  replaced or opened for a change (creating a directory on its path is passed on), and
  every address a name resolves to is in the synthetic ranges. Evidence: an event says ALLOW exactly if all
  its gates passed, every report names its case and carries either a code or a host error, and
  logs keep the newest events. Interfaces: packets, policies, manifests, worker command lines
  and worker lines survive their round trips (policies and manifests without a number sign in their
  values, which begins a comment), a corpus that loads is exactly the modules of its directory
  tree, the JSON report and the session document are JSON whatever the strings hold, and the SARIF
  document is JSON if the case names need no escaping. Execution: the asynchronous run equals the sequential one for every order of
  completions, the supervisor returns within its timeout and one round whatever the child's polls
  find, if the clock goes on and the child's output ends, and no failure of its own becomes a pass, and the report of a case
  run in a worker process, which is the program itself started with the supervisor's command line,
  has the verdict of the case. The process: it ends, it writes only the files its command line
  names, its standard output is exactly the document asked for and its status the verdict, and a
  recorded run is the one the history lists. The honeypot: the demonstration guest gets exactly the
  mock response and leaves its whole request in the log. The optimiser stays feasible under any
  rounding. Some properties state a limit of the code, such as a guest that passes the audit and
  never returns, memory that grows past the policy's cap, and payload a honeypot does not log.

  \<^bold>\<open>Loops and termination.\<close> Three functions may not return: \<open>Runner.exec_guest\<close>, whose guest may loop,
  \<open>Supervisor.wait_loop\<close>, whose clock is an argument, and \<open>Menu.ask_loop\<close>, whose actions may run
  guests; they are partial functions whose value \<open>None\<close> means that the call does not return. For the
  second a property shows that it does and by which round, given a clock that advances and a child
  whose output ends (waiting for it may block, which is the value \<open>None\<close> of \<open>ch_output\<close>); for the third and the whole
  program \<open>program_ends\<close> does, by the input that is left. All other loops, the guest's of the demonstration among them, are total functions and there is no fuel: recursion follows the lines,
  arguments, cases, tasks or path components the code walks, and the search of the corpus follows
  the finite directory tree it is given.

  \<^bold>\<open>Not modelled.\<close> The engine (\<open>wasmer\<close>), WASI builders, the asynchronous runtime, the file
  system, process handling and the WAT parser are libraries: they are arguments where a
  decision of the harness depends on them. Writing to a closed standard output, which panics, is left out.
  Floating point results of the terminal output are arguments, and so is the optimiser's
  arithmetic. \<open>lib.rs\<close> declares modules, the guests in WAT are data of the engine, and tests,
  benchmarks and examples are not modelled.
\<close>

end
